(* ===== verification/Prelude.thy ===== *)
theory Prelude
  imports Main "HOL-Library.Word"
begin

text \<open>
  What every theory of the development shares: the machine types of the sources, the
  outcome of a call that may not return normally, reads of a byte buffer, folds that
  stop at the first abnormal outcome, and the collections of rewrite rules that the
  component theories extend.

  The sources are C++ without exceptions of their own, so a call either returns or
  ends the process (or runs into undefined behaviour): a failed \<^verbatim>\<open>assert\<close> (the build
  type is Debug, so assertions are live), a call of an empty \<^verbatim>\<open>std::function\<close>, which
  throws \<^verbatim>\<open>std::bad_function_call\<close>, a null pointer that is dereferenced, or a read
  outside a buffer, or a division by zero; a loop may also run forever. These are the values of \<open>abort\<close>, and \<open>'a outcome\<close> is the
  result of a call that may end so.
\<close>

unbundle bit_operations_syntax

type_synonym byte = "8 word"
type_synonym bytes = "8 word list"
type_synonym u16 = "16 word"
type_synonym u32 = "32 word"
type_synonym u64 = "64 word"

named_theorems outcome_simps
named_theorems frame_simps
named_theorems wf_intros

subsection \<open>Outcomes\<close>

datatype abort =
    Assert_failed
  | Bad_function_call
  | Null_deref
  | Out_of_bounds
  | Length_error
  | Diverges
  | Division_by_zero

type_synonym 'a outcome = "abort + 'a"

definition obind :: "'a outcome \<Rightarrow> ('a \<Rightarrow> 'b outcome) \<Rightarrow> 'b outcome" where
  "obind m f = (case m of Inl e \<Rightarrow> Inl e | Inr x \<Rightarrow> f x)"

definition oassert :: "bool \<Rightarrow> unit outcome" where
  "oassert b = (if b then Inr () else Inl Assert_failed)"

lemma obind_Inl [simp, outcome_simps]: "obind (Inl e) f = Inl e"
  by (simp add: obind_def)

lemma obind_Inr [simp, outcome_simps]: "obind (Inr x) f = f x"
  by (simp add: obind_def)

lemma obind_Inr_right [simp, outcome_simps]: "obind m Inr = m"
  by (cases m) simp_all

lemma obind_assoc [outcome_simps]: "obind (obind m f) g = obind m (\<lambda>x. obind (f x) g)"
  by (cases m) simp_all

lemma obind_eq_Inr: "obind m f = Inr y \<longleftrightarrow> (\<exists>x. m = Inr x \<and> f x = Inr y)"
  by (cases m) simp_all

lemma obind_eq_Inl: "obind m f = Inl e \<longleftrightarrow> m = Inl e \<or> (\<exists>x. m = Inr x \<and> f x = Inl e)"
  by (cases m) simp_all

lemma obind_cong [fundef_cong]:
  "m = m' \<Longrightarrow> (\<And>x. m' = Inr x \<Longrightarrow> f x = g x) \<Longrightarrow> obind m f = obind m' g"
  by (cases m') simp_all

lemma oassert_simps [simp, outcome_simps]:
  "oassert True = Inr ()" "oassert False = Inl Assert_failed"
  by (simp_all add: oassert_def)

lemma oassert_eq_Inr [simp]: "oassert b = Inr u \<longleftrightarrow> b"
  by (cases b) simp_all

text \<open>Run a step over a list; the first abnormal outcome ends the run.\<close>

fun ofold :: "('a \<Rightarrow> 's \<Rightarrow> 's outcome) \<Rightarrow> 'a list \<Rightarrow> 's \<Rightarrow> 's outcome" where
  "ofold f [] s = Inr s"
| "ofold f (x # xs) s = obind (f x s) (ofold f xs)"

lemma ofold_append:
  "ofold f (xs @ ys) s = obind (ofold f xs s) (ofold f ys)"
proof (induction xs arbitrary: s)
  case Nil
  then show ?case by simp
next
  case (Cons x xs)
  then show ?case by (cases "f x s") simp_all
qed

lemma ofold_invariant:
  assumes "ofold f xs s = Inr t" and "P s"
    and "\<And>x s t. x \<in> set xs \<Longrightarrow> P s \<Longrightarrow> f x s = Inr t \<Longrightarrow> P t"
  shows "P t"
  using assms
proof (induction xs arbitrary: s)
  case Nil
  then show ?case by simp
next
  case (Cons x xs)
  from Cons.prems(1) obtain s' where s': "f x s = Inr s'" and rest: "ofold f xs s' = Inr t"
    by (auto simp: obind_eq_Inr)
  have "P s'" by (rule Cons.prems(3) [OF _ Cons.prems(2) s']) simp
  with rest show ?case
    by (rule Cons.IH) (rule Cons.prems(3), auto)
qed

lemma ofold_total:
  "(\<And>x s. x \<in> set xs \<Longrightarrow> f x s = Inr (g x s)) \<Longrightarrow> ofold f xs s = Inr (fold g xs s)"
  by (induction xs arbitrary: s) simp_all

text \<open>
  An execution: events one after the other, each of which changes a state and sends some outputs.
\<close>

fun run_steps :: "('e \<Rightarrow> 's \<Rightarrow> ('o list \<times> 's) outcome) \<Rightarrow> 'e list \<Rightarrow> 's \<Rightarrow> ('o list \<times> 's) outcome" where
  "run_steps step [] s = Inr ([], s)"
| "run_steps step (e # es) s =
     obind (step e s) (\<lambda>(os, s1). obind (run_steps step es s1) (\<lambda>(os', s2). Inr (os @ os', s2)))"

lemma run_steps_ConsE:
  assumes "run_steps step (e # es) s = Inr (os, s')"
  obtains os1 s1 os2 where "step e s = Inr (os1, s1)" "run_steps step es s1 = Inr (os2, s')" "os = os1 @ os2"
  using assms by (auto simp: obind_eq_Inr)

lemma run_steps_append:
  "run_steps step (es @ es') s =
     obind (run_steps step es s) (\<lambda>(os, s1). obind (run_steps step es' s1) (\<lambda>(os', s2). Inr (os @ os', s2)))"
  by (induction es arbitrary: s) (auto simp: obind_assoc split_def intro!: obind_cong)

lemma run_steps_invariant:
  assumes "run_steps step es s = Inr (os, s')" "I s"
    and "\<And>e s os s'. step e s = Inr (os, s') \<Longrightarrow> I s \<Longrightarrow> I s' \<and> (\<forall>y \<in> set os. Q y)"
  shows "I s' \<and> (\<forall>y \<in> set os. Q y)"
  using assms(1,2)
proof (induction es arbitrary: s os)
  case Nil
  then show ?case by simp
next
  case (Cons e es)
  from Cons.prems(1) obtain os1 s1 os2 where 1: "step e s = Inr (os1, s1)" and 2: "run_steps step es s1 = Inr (os2, s')"
    and os: "os = os1 @ os2" by (elim run_steps_ConsE)
  from assms(3) [OF 1 Cons.prems(2)] Cons.IH [OF 2] os show ?case by auto
qed

subsection \<open>Reads of a buffer\<close>

definition byte_at :: "bytes \<Rightarrow> nat \<Rightarrow> byte outcome" where
  "byte_at bs i = (if i < length bs then Inr (bs ! i) else Inl Out_of_bounds)"

definition slice :: "bytes \<Rightarrow> nat \<Rightarrow> nat \<Rightarrow> bytes outcome" where
  "slice bs off n =
     (if off + n \<le> length bs then Inr (take n (drop off bs)) else Inl Out_of_bounds)"

text \<open>\<^verbatim>\<open>memcpy(buf + off, xs, length xs)\<close> into a buffer of fixed size.\<close>

definition write_at :: "nat \<Rightarrow> bytes \<Rightarrow> bytes \<Rightarrow> bytes outcome" where
  "write_at off xs buf =
     (if off + length xs \<le> length buf then Inr (take off buf @ xs @ drop (off + length xs) buf)
      else Inl Out_of_bounds)"

lemma write_at_in [simp]:
  "off + length xs \<le> length buf \<Longrightarrow>
   write_at off xs buf = Inr (take off buf @ xs @ drop (off + length xs) buf)"
  by (simp add: write_at_def)

lemma length_write_at: "write_at off xs buf = Inr buf' \<Longrightarrow> length buf' = length buf"
  by (auto simp: write_at_def split: if_splits)

lemma byte_at_in [simp]: "i < length bs \<Longrightarrow> byte_at bs i = Inr (bs ! i)"
  by (simp add: byte_at_def)

lemma byte_at_eq_Inr: "byte_at bs i = Inr b \<longleftrightarrow> i < length bs \<and> b = bs ! i"
  by (auto simp: byte_at_def)

lemma slice_in [simp]: "off + n \<le> length bs \<Longrightarrow> slice bs off n = Inr (take n (drop off bs))"
  by (simp add: slice_def)

lemma slice_out: "length bs < off + n \<Longrightarrow> slice bs off n = Inl Out_of_bounds"
  by (simp add: slice_def)

lemma slice_eq_Inr:
  "slice bs off n = Inr xs \<longleftrightarrow> off + n \<le> length bs \<and> xs = take n (drop off bs)"
  by (auto simp: slice_def)

lemma length_slice: "slice bs off n = Inr xs \<Longrightarrow> length xs = n"
  by (auto simp: slice_eq_Inr)

subsection \<open>Big-endian numbers in a buffer\<close>

text \<open>The value of a big-endian byte string, read as the sources read it: shift and add.\<close>

definition be_value :: "bytes \<Rightarrow> nat" where
  "be_value bs = foldl (\<lambda>acc b. 256 * acc + unat b) 0 bs"

lemma be_value_Nil [simp]: "be_value [] = 0"
  by (simp add: be_value_def)

lemma be_value_snoc: "be_value (bs @ [b]) = 256 * be_value bs + unat b"
  by (simp add: be_value_def)

lemma unat_byte_less: "unat (b :: byte) < 256"
  using unsigned_less [of b, where ?'a = nat] by simp

lemma be_value_bound: "be_value bs < 256 ^ length bs"
proof (induction bs rule: rev_induct)
  case Nil
  then show ?case by simp
next
  case (snoc b bs)
  have "256 * be_value bs + unat b < 256 * (be_value bs + 1)"
    using unat_byte_less [of b] by simp
  also have "\<dots> \<le> 256 * 256 ^ length bs"
    using snoc.IH by (intro mult_le_mono) simp_all
  finally show ?case by (simp add: be_value_snoc)
qed

subsection \<open>Signed numbers\<close>

lemma sint_of_nat_small: "n < 2 ^ 31 \<Longrightarrow> sint (of_nat n :: 32 word) = int n"
  by (simp add: signed_of_nat signed_take_bit_int_eq_self)

subsection \<open>Lists\<close>

lemma last_filter_append:
  "filter P ys \<noteq> [] \<Longrightarrow> last (filter P (xs @ ys)) = last (filter P ys)"
  by simp

lemma concat_map_singleton [simp]: "concat (map (\<lambda>x. [f x]) xs) = map f xs"
  by (induction xs) simp_all

text \<open>Cut a list into pieces of at most \<open>n\<close> elements.\<close>

function chunks_of :: "nat \<Rightarrow> 'a list \<Rightarrow> 'a list list" where
  "chunks_of n xs = (if xs = [] \<or> n = 0 then [] else take n xs # chunks_of n (drop n xs))"
  by pat_completeness auto
termination
  by (relation "measure (\<lambda>(n, xs). length xs)") auto

declare chunks_of.simps [simp del]

lemma chunks_of_Nil [simp]: "chunks_of n [] = []"
  by (simp add: chunks_of.simps)

lemma chunks_of_step:
  "xs \<noteq> [] \<Longrightarrow> 0 < n \<Longrightarrow> chunks_of n xs = take n xs # chunks_of n (drop n xs)"
  by (subst chunks_of.simps) simp

lemma concat_chunks_of: "0 < n \<Longrightarrow> concat (chunks_of n xs) = xs"
proof (induction n xs rule: chunks_of.induct)
  case (1 n xs)
  then show ?case by (cases "xs = []") (simp_all add: chunks_of_step)
qed

lemma length_chunks_of: "c \<in> set (chunks_of n xs) \<Longrightarrow> 0 < length c \<and> length c \<le> n"
proof (induction n xs rule: chunks_of.induct)
  case (1 n xs)
  show ?case
  proof (cases "xs = [] \<or> n = 0")
    case True
    with 1 show ?thesis by (simp add: chunks_of.simps [of n xs])
  next
    case False
    with 1 show ?thesis by (auto simp: chunks_of.simps [of n xs])
  qed
qed

end
