(* ===== verification/Frame_Buffer.thy ===== *)
theory Frame_Buffer
  imports Prelude
begin

text \<open>
  The frames that carry media and protocol bytes through the server
  (\<^verbatim>\<open>frame_buffer.h\<close>): a frame that owns its bytes, \<open>fixed_frame_buffer\<close>, and a
  view of a range of another frame, \<open>Ref\<close> (class \<^verbatim>\<open>ref_frame_buffer\<close>), which
  forwards everything but \<^verbatim>\<open>data\<close> and \<^verbatim>\<open>size\<close> to the frame it points into.

  A view is a value that holds the frame it refers to, so what a caller does to the
  parent after the view was made is not seen through the view; the sources make a view
  and hand it over without touching the parent again. \<open>wf_frame\<close> says that the range
  of every view lies inside its parent, which is what makes reading \<^verbatim>\<open>data\<close> safe.
\<close>

record fixed_frame_buffer =
  ff_media :: int
  ff_codec :: int
  ff_flag :: int
  ff_pts :: int
  ff_dts :: int
  ff_payload :: bytes

datatype frame_buffer =
    Fixed fixed_frame_buffer
  | Ref nat nat frame_buffer

type_synonym frame_ptr = "frame_buffer option"

subsection \<open>Construction\<close>

definition fixed_create :: fixed_frame_buffer where
  "fixed_create = \<lparr>ff_media = 0, ff_codec = 0, ff_flag = 0, ff_pts = 0, ff_dts = 0, ff_payload = []\<rparr>"

definition fixed_create_data :: "bytes \<Rightarrow> fixed_frame_buffer" where
  "fixed_create_data bs = fixed_create\<lparr>ff_payload := bs\<rparr>"

definition ref_create :: "nat \<Rightarrow> nat \<Rightarrow> frame_buffer \<Rightarrow> frame_buffer" where
  "ref_create off n ref = Ref off n ref"

subsection \<open>Contents\<close>

fun fb_data :: "frame_buffer \<Rightarrow> bytes" where
  "fb_data (Fixed f) = ff_payload f"
| "fb_data (Ref off n ref) = take n (drop off (fb_data ref))"

fun fb_size :: "frame_buffer \<Rightarrow> nat" where
  "fb_size (Fixed f) = length (ff_payload f)"
| "fb_size (Ref off n ref) = n"

fun fb_empty :: "frame_buffer \<Rightarrow> bool" where
  "fb_empty (Fixed f) = (ff_payload f = [])"
| "fb_empty (Ref off n ref) = fb_empty ref"

fun fb_peek :: "frame_buffer \<Rightarrow> byte outcome" where
  "fb_peek (Fixed f) = byte_at (ff_payload f) 0"
| "fb_peek (Ref off n ref) = fb_peek ref"

definition fixed_erase :: "nat \<Rightarrow> fixed_frame_buffer \<Rightarrow> fixed_frame_buffer" where
  "fixed_erase n f =
     (if length (ff_payload f) < n then f\<lparr>ff_payload := []\<rparr>
      else f\<lparr>ff_payload := drop n (ff_payload f)\<rparr>)"

fun fb_erase :: "nat \<Rightarrow> frame_buffer \<Rightarrow> frame_buffer" where
  "fb_erase n (Fixed f) = Fixed (fixed_erase n f)"
| "fb_erase n (Ref off k ref) = Ref off k (fb_erase n ref)"

subsection \<open>Meta data\<close>

fun fb_media :: "frame_buffer \<Rightarrow> int" where
  "fb_media (Fixed f) = ff_media f"
| "fb_media (Ref off n ref) = fb_media ref"

fun fb_codec :: "frame_buffer \<Rightarrow> int" where
  "fb_codec (Fixed f) = ff_codec f"
| "fb_codec (Ref off n ref) = fb_codec ref"

fun fb_flag :: "frame_buffer \<Rightarrow> int" where
  "fb_flag (Fixed f) = ff_flag f"
| "fb_flag (Ref off n ref) = fb_flag ref"

fun fb_pts :: "frame_buffer \<Rightarrow> int" where
  "fb_pts (Fixed f) = ff_pts f"
| "fb_pts (Ref off n ref) = fb_pts ref"

fun fb_dts :: "frame_buffer \<Rightarrow> int" where
  "fb_dts (Fixed f) = ff_dts f"
| "fb_dts (Ref off n ref) = fb_dts ref"

text \<open>A setter of a view sets the field of the frame it refers to.\<close>

fun fb_update :: "(fixed_frame_buffer \<Rightarrow> fixed_frame_buffer) \<Rightarrow> frame_buffer \<Rightarrow> frame_buffer" where
  "fb_update g (Fixed f) = Fixed (g f)"
| "fb_update g (Ref off n ref) = Ref off n (fb_update g ref)"

definition fb_set_media :: "int \<Rightarrow> frame_buffer \<Rightarrow> frame_buffer" where
  "fb_set_media v = fb_update (\<lambda>f. f\<lparr>ff_media := v\<rparr>)"

definition fb_set_codec :: "int \<Rightarrow> frame_buffer \<Rightarrow> frame_buffer" where
  "fb_set_codec v = fb_update (\<lambda>f. f\<lparr>ff_codec := v\<rparr>)"

definition fb_set_flag :: "int \<Rightarrow> frame_buffer \<Rightarrow> frame_buffer" where
  "fb_set_flag v = fb_update (\<lambda>f. f\<lparr>ff_flag := v\<rparr>)"

definition fb_set_pts :: "int \<Rightarrow> frame_buffer \<Rightarrow> frame_buffer" where
  "fb_set_pts v = fb_update (\<lambda>f. f\<lparr>ff_pts := v\<rparr>)"

definition fb_set_dts :: "int \<Rightarrow> frame_buffer \<Rightarrow> frame_buffer" where
  "fb_set_dts v = fb_update (\<lambda>f. f\<lparr>ff_dts := v\<rparr>)"

subsection \<open>Appending\<close>

text \<open>\<^verbatim>\<open>append(const uint8_t*, size_t)\<close>; the pointer may be null.\<close>

definition fixed_append_data :: "bytes option \<Rightarrow> fixed_frame_buffer \<Rightarrow> fixed_frame_buffer" where
  "fixed_append_data d f =
     (case d of None \<Rightarrow> f | Some bs \<Rightarrow> f\<lparr>ff_payload := ff_payload f @ bs\<rparr>)"

fun fb_append_data :: "bytes option \<Rightarrow> frame_buffer \<Rightarrow> frame_buffer" where
  "fb_append_data d (Fixed f) = Fixed (fixed_append_data d f)"
| "fb_append_data d (Ref off n ref) =
     (case d of None \<Rightarrow> Ref off n ref | Some bs \<Rightarrow> Ref off n (fb_append_data d ref))"

text \<open>\<^verbatim>\<open>append(const ptr&)\<close>: the meta data of the argument replaces that of the frame.\<close>

definition fixed_append_frame :: "frame_ptr \<Rightarrow> fixed_frame_buffer \<Rightarrow> fixed_frame_buffer" where
  "fixed_append_frame p f =
     (case p of None \<Rightarrow> f
      | Some frame \<Rightarrow>
          fixed_append_data (Some (fb_data frame))
            (f\<lparr>ff_media := fb_media frame, ff_codec := fb_codec frame, ff_pts := fb_pts frame,
               ff_dts := fb_dts frame, ff_flag := fb_flag frame\<rparr>))"

fun fb_append_frame :: "frame_ptr \<Rightarrow> frame_buffer \<Rightarrow> frame_buffer" where
  "fb_append_frame p (Fixed f) = Fixed (fixed_append_frame p f)"
| "fb_append_frame p (Ref off n ref) =
     (case p of None \<Rightarrow> Ref off n ref | Some frame \<Rightarrow> Ref off n (fb_append_frame p ref))"

definition fixed_append_vec :: "bytes \<Rightarrow> fixed_frame_buffer \<Rightarrow> fixed_frame_buffer" where
  "fixed_append_vec bs f =
     (if bs = [] then f else f\<lparr>ff_payload := ff_payload f @ bs\<rparr>)"

fun fb_append_vec :: "bytes \<Rightarrow> frame_buffer \<Rightarrow> frame_buffer" where
  "fb_append_vec bs (Fixed f) = Fixed (fixed_append_vec bs f)"
| "fb_append_vec bs (Ref off n ref) =
     (if bs = [] then Ref off n ref else Ref off n (fb_append_vec bs ref))"

text \<open>\<^verbatim>\<open>std::vector::resize\<close>: cut, or extend with zeros.\<close>

definition fixed_resize :: "nat \<Rightarrow> fixed_frame_buffer \<Rightarrow> fixed_frame_buffer" where
  "fixed_resize n f =
     f\<lparr>ff_payload := take n (ff_payload f) @ replicate (n - length (ff_payload f)) 0\<rparr>"

subsection \<open>Well-formed frames\<close>

fun wf_frame :: "frame_buffer \<Rightarrow> bool" where
  "wf_frame (Fixed f) = True"
| "wf_frame (Ref off n ref) = (wf_frame ref \<and> off + n \<le> fb_size ref)"

lemma length_fb_data: "wf_frame f \<Longrightarrow> length (fb_data f) = fb_size f"
  by (induction f) auto

lemma wf_ref_create [wf_intros]:
  "wf_frame ref \<Longrightarrow> off + n \<le> fb_size ref \<Longrightarrow> wf_frame (ref_create off n ref)"
  by (simp add: ref_create_def)

lemma fixed_create_simps [simp, frame_simps]:
  "ff_media fixed_create = 0" "ff_codec fixed_create = 0" "ff_flag fixed_create = 0"
  "ff_pts fixed_create = 0" "ff_dts fixed_create = 0" "ff_payload fixed_create = []"
  by (simp_all add: fixed_create_def)

lemma fixed_create_data_simps [simp, frame_simps]:
  "ff_media (fixed_create_data bs) = 0" "ff_codec (fixed_create_data bs) = 0"
  "ff_flag (fixed_create_data bs) = 0" "ff_pts (fixed_create_data bs) = 0"
  "ff_dts (fixed_create_data bs) = 0" "ff_payload (fixed_create_data bs) = bs"
  by (simp_all add: fixed_create_data_def)

lemma ref_create_simps [simp, frame_simps]:
  "fb_data (ref_create off n ref) = take n (drop off (fb_data ref))"
  "fb_size (ref_create off n ref) = n"
  "fb_media (ref_create off n ref) = fb_media ref"
  "fb_pts (ref_create off n ref) = fb_pts ref"
  by (simp_all add: ref_create_def)

text \<open>\<^verbatim>\<open>erase\<close> drops bytes from the front whichever branch it takes.\<close>

lemma payload_fixed_erase [simp, frame_simps]:
  "ff_payload (fixed_erase n f) = drop n (ff_payload f)"
  by (simp add: fixed_erase_def)

lemma payload_fixed_append_data [simp, frame_simps]:
  "ff_payload (fixed_append_data (Some bs) f) = ff_payload f @ bs"
  by (simp add: fixed_append_data_def)

lemma meta_fixed_append_data [simp, frame_simps]:
  "ff_media (fixed_append_data d f) = ff_media f" "ff_codec (fixed_append_data d f) = ff_codec f"
  "ff_flag (fixed_append_data d f) = ff_flag f" "ff_pts (fixed_append_data d f) = ff_pts f"
  "ff_dts (fixed_append_data d f) = ff_dts f"
  by (simp_all add: fixed_append_data_def split: option.splits)

lemma fixed_append_frame_simps [simp, frame_simps]:
  "ff_payload (fixed_append_frame (Some g) f) = ff_payload f @ fb_data g"
  "ff_media (fixed_append_frame (Some g) f) = fb_media g"
  "ff_codec (fixed_append_frame (Some g) f) = fb_codec g"
  "ff_flag (fixed_append_frame (Some g) f) = fb_flag g"
  "ff_pts (fixed_append_frame (Some g) f) = fb_pts g"
  "ff_dts (fixed_append_frame (Some g) f) = fb_dts g"
  "fixed_append_frame None f = f"
  by (simp_all add: fixed_append_frame_def)

lemma payload_fixed_append_vec [simp, frame_simps]:
  "ff_payload (fixed_append_vec bs f) = ff_payload f @ bs"
  by (simp add: fixed_append_vec_def)

lemma payload_fixed_resize [frame_simps]:
  "n \<le> length (ff_payload f) \<Longrightarrow> ff_payload (fixed_resize n f) = take n (ff_payload f)"
  "length (ff_payload (fixed_resize n f)) = n"
  by (simp_all add: fixed_resize_def)

lemma meta_fixed_resize [simp, frame_simps]:
  "ff_media (fixed_resize n f) = ff_media f" "ff_codec (fixed_resize n f) = ff_codec f"
  "ff_flag (fixed_resize n f) = ff_flag f" "ff_pts (fixed_resize n f) = ff_pts f"
  "ff_dts (fixed_resize n f) = ff_dts f"
  by (simp_all add: fixed_resize_def)

subsection \<open>The interface: a buffer that is fed at the back and consumed at the front\<close>

text \<open>
  What a protocol parser relies on when it keeps its unparsed input in a frame
  (\<^verbatim>\<open>rtsp_server_context\<close>'s \<^verbatim>\<open>cache_\<close>): the operations as parameters and their
  contract over the abstract contents.
\<close>

locale byte_buffer =
  fixes contents :: "'f \<Rightarrow> bytes"
    and buf_size :: "'f \<Rightarrow> nat"
    and is_empty :: "'f \<Rightarrow> bool"
    and peek :: "'f \<Rightarrow> byte outcome"
    and feed :: "bytes \<Rightarrow> 'f \<Rightarrow> 'f"
    and erase :: "nat \<Rightarrow> 'f \<Rightarrow> 'f"
  assumes size_contents: "buf_size f = length (contents f)"
    and is_empty_contents: "is_empty f \<longleftrightarrow> contents f = []"
    and peek_contents: "contents f \<noteq> [] \<Longrightarrow> peek f = Inr (hd (contents f))"
    and peek_empty: "contents f = [] \<Longrightarrow> peek f = Inl Out_of_bounds"
    and contents_feed: "contents (feed bs f) = contents f @ bs"
    and contents_erase: "contents (erase n f) = drop n (contents f)"
begin

lemma erase_feed:
  "n \<le> buf_size f \<Longrightarrow> contents (erase n (feed bs f)) = contents (erase n f) @ bs"
  by (simp add: contents_erase contents_feed size_contents)

lemma erase_all: "buf_size f \<le> n \<Longrightarrow> is_empty (erase n f)"
  by (simp add: is_empty_contents contents_erase size_contents)

lemma erase_shrinks: "0 < n \<Longrightarrow> \<not> is_empty f \<Longrightarrow> buf_size (erase n f) < buf_size f"
  by (simp add: size_contents is_empty_contents contents_erase)

lemma peek_defined: "\<not> is_empty f \<Longrightarrow> peek f = Inr (contents f ! 0)"
  by (simp add: is_empty_contents peek_contents hd_conv_nth)

end

text \<open>A frame that owns its bytes satisfies the contract.\<close>

interpretation fixed: byte_buffer
  ff_payload "\<lambda>f. fb_size (Fixed f)" "\<lambda>f. fb_empty (Fixed f)" "\<lambda>f. fb_peek (Fixed f)"
  "\<lambda>bs. fixed_append_frame (Some (Fixed (fixed_create_data bs)))" fixed_erase
  by unfold_locales (simp_all add: byte_at_def hd_conv_nth)

text \<open>
  A view does not: \<^verbatim>\<open>empty\<close>, \<^verbatim>\<open>peek\<close> and \<^verbatim>\<open>erase\<close> are about the frame behind it.
\<close>

lemma ref_peek_is_parent: "fb_peek (Ref off n ref) = fb_peek ref"
  by simp

end
