(* ===== verification/Rtmp_Chunk.thy ===== *)
theory Rtmp_Chunk
  imports Frame_Buffer
begin

text \<open>
  Chunk headers of the RTMP chunk stream and their compression
  (\<^verbatim>\<open>rtmp_server_context.cc\<close>, \<^verbatim>\<open>rtmp_packet_find_help\<close> and
  \<^verbatim>\<open>rtmp_chunk_header_zip_help\<close>). For each chunk stream the server keeps the last
  header it sent and the absolute time stamp of that message; a header of the next message
  leaves out what did not change (types 1, 2 and 3) and carries the time stamp as a
  difference.

  The structures \<^verbatim>\<open>rtmp_chunk_header_t\<close>, \<^verbatim>\<open>rtmp_packet_t\<close> and \<^verbatim>\<open>rtmp_t\<close> belong to
  librtmp, which is not part of the repository; only the fields that the server itself
  reads or writes are here. The table size \<^verbatim>\<open>N_CHUNK_STREAM\<close> is the length of
  \<open>out_packets\<close>.

  The second half states what the compression promises: a receiver that expands headers
  as the RTMP specification says recovers every message header exactly.
\<close>

datatype chunk_fmt = Chunk_type_0 | Chunk_type_1 | Chunk_type_2 | Chunk_type_3

record chunk_header =
  hdr_fmt :: chunk_fmt
  hdr_cid :: nat
  hdr_timestamp :: u32
  hdr_length :: u32
  hdr_type :: byte
  hdr_stream_id :: u32

record rtmp_packet =
  pkt_header :: chunk_header
  pkt_clock :: u32

text \<open>\<^verbatim>\<open>'l\<close> is the state librtmp keeps for reading, which the server never touches.\<close>

record 'l rtmp_t =
  out_packets :: "rtmp_packet list"
  in_chunk_size :: u32
  out_chunk_size :: u32
  window_size :: u32
  peer_bandwidth :: u32
  buffer_length_ms :: u32
  rt_reader :: 'l

text \<open>
  \<^verbatim>\<open>rtmp_packet_find_help\<close>: probe the table from slot \<open>cid mod N\<close> on; the result is the
  slot, \<open>None\<close> the null pointer.
\<close>

definition rtmp_packet_find_help :: "'l rtmp_t \<Rightarrow> nat \<Rightarrow> nat option outcome" where
  "rtmp_packet_find_help rt cid =
     obind (oassert (cid \<le> 65535 + 64 \<and> 2 \<le> cid)) (\<lambda>_.
       let n = length (out_packets rt)
       in Inr (map_option (\<lambda>i. (i + cid) mod n)
            (List.find (\<lambda>i. hdr_cid (pkt_header (out_packets rt ! ((i + cid) mod n))) = cid) [0..<n])))"

text \<open>The header that is sent for \<open>header\<close> when \<open>pkt\<close> is the last one of its stream.\<close>

definition compress_header :: "rtmp_packet \<Rightarrow> chunk_header \<Rightarrow> chunk_header" where
  "compress_header pkt header =
     (let prev = pkt_header pkt;
          delta = hdr_timestamp header - pkt_clock pkt
      in if hdr_fmt header \<noteq> Chunk_type_0
            \<and> hdr_cid header = hdr_cid prev
            \<and> pkt_clock pkt \<le> hdr_timestamp header
            \<and> delta < 0xFFFFFF
            \<and> hdr_stream_id header = hdr_stream_id prev
         then if hdr_type header = hdr_type prev \<and> hdr_length header = hdr_length prev
              then header\<lparr>hdr_fmt := (if delta = hdr_timestamp prev then Chunk_type_3 else Chunk_type_2),
                          hdr_timestamp := delta\<rparr>
              else header\<lparr>hdr_fmt := Chunk_type_1, hdr_timestamp := delta\<rparr>
         else header\<lparr>hdr_fmt := Chunk_type_0\<rparr>)"

definition rtmp_chunk_header_zip_help ::
  "'l rtmp_t \<Rightarrow> chunk_header \<Rightarrow> (chunk_header \<times> 'l rtmp_t) outcome" where
  "rtmp_chunk_header_zip_help rt header =
     obind (oassert (hdr_cid header \<noteq> 0 \<and> hdr_cid header \<noteq> 1)) (\<lambda>_.
     obind (oassert (hdr_fmt header = Chunk_type_0 \<or> hdr_fmt header = Chunk_type_1)) (\<lambda>_.
     obind (rtmp_packet_find_help rt (hdr_cid header)) (\<lambda>slot.
       case slot of
         None \<Rightarrow> Inl Assert_failed
       | Some i \<Rightarrow>
           (let h = compress_header (out_packets rt ! i) header
            in Inr (h, rt\<lparr>out_packets := (out_packets rt)
                            [i := \<lparr>pkt_header = h, pkt_clock = hdr_timestamp header\<rparr>]\<rparr>)))))"

lemma compress_header_simps [simp]:
  "hdr_cid (compress_header pkt h) = hdr_cid h"
  "hdr_length (compress_header pkt h) = hdr_length h"
  "hdr_type (compress_header pkt h) = hdr_type h"
  "hdr_stream_id (compress_header pkt h) = hdr_stream_id h"
  by (simp_all add: compress_header_def Let_def)

lemma find_slot:
  assumes "rtmp_packet_find_help rt cid = Inr (Some i)"
  shows "i < length (out_packets rt)" and "hdr_cid (pkt_header (out_packets rt ! i)) = cid"
    and "2 \<le> cid"
proof -
  let ?n = "length (out_packets rt)"
  from assms obtain k where k: "k < ?n" and i: "i = (k + cid) mod ?n"
    and hit: "hdr_cid (pkt_header (out_packets rt ! ((k + cid) mod ?n))) = cid"
    by (auto simp: rtmp_packet_find_help_def obind_eq_Inr Let_def find_Some_iff)
  from k have "out_packets rt \<noteq> []" by auto
  with i show "i < ?n" by simp
  from hit i show "hdr_cid (pkt_header (out_packets rt ! i)) = cid" by simp
  from assms show "2 \<le> cid" by (simp add: rtmp_packet_find_help_def obind_eq_Inr)
qed

lemma find_slot_exists:
  assumes "2 \<le> cid" "cid \<le> 65599" "j < length (out_packets rt)"
    and "hdr_cid (pkt_header (out_packets rt ! j)) = cid"
  shows "\<exists>i. rtmp_packet_find_help rt cid = Inr (Some i)"
proof -
  let ?n = "length (out_packets rt)"
  let ?P = "\<lambda>i. hdr_cid (pkt_header (out_packets rt ! ((i + cid) mod ?n))) = cid"
  define k where "k = (j + (?n - cid mod ?n)) mod ?n"
  have n: "out_packets rt \<noteq> []" using assms(3) by auto
  have "(k + cid) mod ?n = (j + (?n - cid mod ?n) + cid mod ?n) mod ?n"
    unfolding k_def by (simp add: mod_simps)
  also have "j + (?n - cid mod ?n) + cid mod ?n = j + ?n"
  proof -
    have "cid mod ?n < ?n" by (rule mod_less_divisor) (use n in simp)
    then show ?thesis by simp
  qed
  also have "(j + ?n) mod ?n = j" using assms(3) by simp
  finally have "?P k" using assms(4) by simp
  moreover have "k < ?n" using n by (simp add: k_def)
  ultimately have "List.find ?P [0..<?n] \<noteq> None"
    by (auto simp: find_None_iff)
  with assms(1,2) show ?thesis
    by (auto simp: rtmp_packet_find_help_def Let_def)
qed

text \<open>The compressed header has the format the writer of the message header expects.\<close>

lemma zip_help_result:
  assumes "rtmp_chunk_header_zip_help rt header = Inr (h, rt')"
  obtains i where "i < length (out_packets rt)"
    and "hdr_cid (pkt_header (out_packets rt ! i)) = hdr_cid header"
    and "rtmp_packet_find_help rt (hdr_cid header) = Inr (Some i)"
    and "h = compress_header (out_packets rt ! i) header"
    and "rt' = rt\<lparr>out_packets := (out_packets rt)
                    [i := \<lparr>pkt_header = h, pkt_clock = hdr_timestamp header\<rparr>]\<rparr>"
    and "2 \<le> hdr_cid header"
  using assms find_slot [of rt "hdr_cid header"]
  by (auto simp: rtmp_chunk_header_zip_help_def obind_eq_Inr Let_def split: option.splits)

subsection \<open>Expanding headers: the receiver of the RTMP specification\<close>

text \<open>What of a header each format puts on the wire.\<close>

datatype wire_header =
    Wire0 u32 u32 byte u32
  | Wire1 u32 u32 byte
  | Wire2 u32
  | Wire3

definition wire_of :: "chunk_header \<Rightarrow> wire_header" where
  "wire_of h =
     (case hdr_fmt h of
        Chunk_type_0 \<Rightarrow> Wire0 (hdr_timestamp h) (hdr_length h) (hdr_type h) (hdr_stream_id h)
      | Chunk_type_1 \<Rightarrow> Wire1 (hdr_timestamp h) (hdr_length h) (hdr_type h)
      | Chunk_type_2 \<Rightarrow> Wire2 (hdr_timestamp h)
      | Chunk_type_3 \<Rightarrow> Wire3)"

record receiver =
  rx_clock :: u32
  rx_delta :: u32
  rx_length :: u32
  rx_type :: byte
  rx_stream_id :: u32

text \<open>
  Type 0 carries an absolute time stamp, which also is the difference that a following
  type 3 repeats; types 1 and 2 carry a difference; type 3 repeats everything.
\<close>

fun rx_step :: "wire_header \<Rightarrow> receiver \<Rightarrow> receiver" where
  "rx_step (Wire0 ts len ty sid) rx =
     \<lparr>rx_clock = ts, rx_delta = ts, rx_length = len, rx_type = ty, rx_stream_id = sid\<rparr>"
| "rx_step (Wire1 d len ty) rx =
     rx\<lparr>rx_clock := rx_clock rx + d, rx_delta := d, rx_length := len, rx_type := ty\<rparr>"
| "rx_step (Wire2 d) rx = rx\<lparr>rx_clock := rx_clock rx + d, rx_delta := d\<rparr>"
| "rx_step Wire3 rx = rx\<lparr>rx_clock := rx_clock rx + rx_delta rx\<rparr>"

text \<open>The receiver's state agrees with the sender's slot.\<close>

definition in_sync :: "rtmp_packet \<Rightarrow> receiver \<Rightarrow> bool" where
  "in_sync pkt rx \<longleftrightarrow>
     rx_clock rx = pkt_clock pkt \<and> rx_delta rx = hdr_timestamp (pkt_header pkt)
     \<and> rx_length rx = hdr_length (pkt_header pkt) \<and> rx_type rx = hdr_type (pkt_header pkt)
     \<and> rx_stream_id rx = hdr_stream_id (pkt_header pkt)"

definition message_of :: "receiver \<Rightarrow> u32 \<times> u32 \<times> byte \<times> u32" where
  "message_of rx = (rx_clock rx, rx_length rx, rx_type rx, rx_stream_id rx)"

definition header_message :: "chunk_header \<Rightarrow> u32 \<times> u32 \<times> byte \<times> u32" where
  "header_message h = (hdr_timestamp h, hdr_length h, hdr_type h, hdr_stream_id h)"

lemma in_sync_step:
  assumes "in_sync pkt rx"
  shows "in_sync \<lparr>pkt_header = compress_header pkt h, pkt_clock = hdr_timestamp h\<rparr>
           (rx_step (wire_of (compress_header pkt h)) rx)"
  using assms by (auto simp: in_sync_def wire_of_def compress_header_def Let_def diff_eq_eq add.commute)

lemma in_sync_message:
  assumes "in_sync pkt rx"
  shows "message_of (rx_step (wire_of (compress_header pkt h)) rx) = header_message h"
  using in_sync_step [OF assms, of h]
  by (simp add: in_sync_def message_of_def header_message_def)

text \<open>All chunk streams at once: the receiver keeps one state per chunk stream id.\<close>

definition all_in_sync :: "'l rtmp_t \<Rightarrow> (nat \<Rightarrow> receiver) \<Rightarrow> bool" where
  "all_in_sync rt rxs \<longleftrightarrow>
     (\<forall>i < length (out_packets rt). 2 \<le> hdr_cid (pkt_header (out_packets rt ! i)) \<longrightarrow>
        in_sync (out_packets rt ! i) (rxs (hdr_cid (pkt_header (out_packets rt ! i)))))"

definition distinct_cids :: "'l rtmp_t \<Rightarrow> bool" where
  "distinct_cids rt \<longleftrightarrow>
     (\<forall>i < length (out_packets rt). \<forall>j < length (out_packets rt).
        2 \<le> hdr_cid (pkt_header (out_packets rt ! i)) \<longrightarrow>
        hdr_cid (pkt_header (out_packets rt ! i)) = hdr_cid (pkt_header (out_packets rt ! j)) \<longrightarrow>
        i = j)"

lemma distinct_cidsD:
  "distinct_cids rt \<Longrightarrow> i < length (out_packets rt) \<Longrightarrow> j < length (out_packets rt) \<Longrightarrow>
   hdr_cid (pkt_header (out_packets rt ! i)) = hdr_cid (pkt_header (out_packets rt ! j)) \<Longrightarrow>
   2 \<le> hdr_cid (pkt_header (out_packets rt ! i)) \<Longrightarrow> i = j"
  by (simp add: distinct_cids_def)

text \<open>The server compresses a series of headers; the receiver expands what was sent.\<close>

fun send_headers :: "chunk_header list \<Rightarrow> 'l rtmp_t \<Rightarrow> ((nat \<times> wire_header) list \<times> 'l rtmp_t) outcome" where
  "send_headers [] rt = Inr ([], rt)"
| "send_headers (h # hs) rt =
     obind (rtmp_chunk_header_zip_help rt h) (\<lambda>(z, rt').
     obind (send_headers hs rt') (\<lambda>(ws, rt'').
       Inr ((hdr_cid z, wire_of z) # ws, rt'')))"

fun receive_headers :: "(nat \<times> wire_header) list \<Rightarrow> (nat \<Rightarrow> receiver) \<Rightarrow> (u32 \<times> u32 \<times> byte \<times> u32) list" where
  "receive_headers [] rxs = []"
| "receive_headers ((cid, w) # ws) rxs =
     (let rx = rx_step w (rxs cid) in message_of rx # receive_headers ws (rxs(cid := rx)))"

lemma zip_keeps_sync:
  assumes zip: "rtmp_chunk_header_zip_help rt h = Inr (z, rt')"
    and sync: "all_in_sync rt rxs" and dist: "distinct_cids rt"
  shows "all_in_sync rt' (rxs(hdr_cid z := rx_step (wire_of z) (rxs (hdr_cid z))))"
    and "distinct_cids rt'"
    and "message_of (rx_step (wire_of z) (rxs (hdr_cid z))) = header_message h"
proof -
  from zip obtain i where i: "i < length (out_packets rt)"
    and cid: "hdr_cid (pkt_header (out_packets rt ! i)) = hdr_cid h"
    and z: "z = compress_header (out_packets rt ! i) h"
    and rt': "rt' = rt\<lparr>out_packets := (out_packets rt)
                [i := \<lparr>pkt_header = z, pkt_clock = hdr_timestamp h\<rparr>]\<rparr>"
    and ge2: "2 \<le> hdr_cid h"
    by (rule zip_help_result)
  have zcid: "hdr_cid z = hdr_cid h" by (simp add: z)
  have here: "in_sync (out_packets rt ! i) (rxs (hdr_cid h))"
    using sync i cid ge2 by (auto simp: all_in_sync_def)
  show "message_of (rx_step (wire_of z) (rxs (hdr_cid z))) = header_message h"
    using in_sync_message [OF here] by (simp add: z)
  have same: "hdr_cid (pkt_header (out_packets rt' ! j)) = hdr_cid (pkt_header (out_packets rt ! j))"
    if "j < length (out_packets rt)" for j
    using that i cid by (cases "j = i") (simp_all add: rt' zcid)
  have len: "length (out_packets rt') = length (out_packets rt)" by (simp add: rt')
  show "distinct_cids rt'"
    using dist by (simp add: distinct_cids_def len same)
  show "all_in_sync rt' (rxs(hdr_cid z := rx_step (wire_of z) (rxs (hdr_cid z))))"
    unfolding all_in_sync_def
  proof (intro allI impI)
    fix j assume j: "j < length (out_packets rt')"
      and ge: "2 \<le> hdr_cid (pkt_header (out_packets rt' ! j))"
    show "in_sync (out_packets rt' ! j)
        ((rxs(hdr_cid z := rx_step (wire_of z) (rxs (hdr_cid z))))
          (hdr_cid (pkt_header (out_packets rt' ! j))))"
    proof (cases "j = i")
      case True
      then show ?thesis
        using in_sync_step [OF here, of h] i by (simp add: rt' zcid z)
    next
      case False
      with j i have old: "out_packets rt' ! j = out_packets rt ! j" and j': "j < length (out_packets rt)"
        by (simp_all add: rt')
      from False distinct_cidsD [OF dist i j'] cid ge2
      have "hdr_cid (pkt_header (out_packets rt ! j)) \<noteq> hdr_cid h" by auto
      with sync j' ge old show ?thesis by (simp add: all_in_sync_def zcid)
    qed
  qed
qed

lemma receive_send_headers:
  assumes "send_headers hs rt = Inr (ws, rt')" "all_in_sync rt rxs" "distinct_cids rt"
  shows "receive_headers ws rxs = map header_message hs"
  using assms
proof (induction hs arbitrary: rt ws rxs)
  case Nil
  then show ?case by simp
next
  case (Cons h hs)
  from Cons.prems(1) obtain z rt1 ws1 where zip: "rtmp_chunk_header_zip_help rt h = Inr (z, rt1)"
    and rest: "send_headers hs rt1 = Inr (ws1, rt')" and ws: "ws = (hdr_cid z, wire_of z) # ws1"
    by (auto simp: obind_eq_Inr)
  note step = zip_keeps_sync [OF zip Cons.prems(2,3)]
  from Cons.IH [OF rest step(1,2)] step(3) show ?case
    by (simp add: ws Let_def del: fun_upd_apply)
qed

end
