(* ===== verification/Text_Util.thy ===== *)
theory Text_Util
  imports Prelude "HOL-Library.Sublist"
begin

text \<open>
  The string functions of the C and C++ standard libraries and of Boost that the
  sources call: decimal printing (\<^verbatim>\<open>std::to_string\<close>, stream output), \<^verbatim>\<open>atoi\<close>,
  the conversions \<^verbatim>\<open>%d\<close> and \<^verbatim>\<open>%hu\<close> of \<^verbatim>\<open>sscanf\<close>, upper-case hexadecimal
  (\<^verbatim>\<open>%02X\<close>, \<^verbatim>\<open>%06X\<close>), zero-padded decimal (\<^verbatim>\<open>%02d\<close>, \<^verbatim>\<open>%06d\<close>), and
  \<^verbatim>\<open>boost::split\<close>, \<^verbatim>\<open>starts_with\<close> and \<^verbatim>\<open>ends_with\<close>. A \<^verbatim>\<open>std::string\<close> is a list
  of characters; bytes and characters are the same 256 values, and the sources move
  between them with casts, here \<open>char_of_byte\<close> and \<open>byte_of_char\<close>.
\<close>

subsection \<open>Bytes and characters\<close>

definition char_of_byte :: "byte \<Rightarrow> char" where
  "char_of_byte b = char_of (unat b)"

definition byte_of_char :: "char \<Rightarrow> byte" where
  "byte_of_char c = word_of_nat (of_char c)"

definition text_of :: "bytes \<Rightarrow> string" where
  "text_of bs = map char_of_byte bs"

definition bytes_of :: "string \<Rightarrow> bytes" where
  "bytes_of s = map byte_of_char s"

lemma byte_of_char_of_byte [simp]: "byte_of_char (char_of_byte b) = b"
proof -
  have "unat b mod 256 = unat b" by (simp add: unat_byte_less)
  then show ?thesis by (simp add: byte_of_char_def char_of_byte_def)
qed

lemma char_of_byte_of_char [simp]: "char_of_byte (byte_of_char c) = c"
proof -
  have "(of_char c :: nat) < 256" by simp
  then have "unat (byte_of_char c) = of_char c"
    by (simp add: byte_of_char_def unsigned_of_nat take_bit_nat_eq_self)
  then show ?thesis by (simp add: char_of_byte_def)
qed

lemma bytes_of_text_of [simp]: "bytes_of (text_of bs) = bs"
  by (simp add: bytes_of_def text_of_def comp_def)

lemma text_of_bytes_of [simp]: "text_of (bytes_of s) = s"
  by (simp add: bytes_of_def text_of_def comp_def)

lemma length_text_of [simp]: "length (text_of bs) = length bs"
  by (simp add: text_of_def)

lemma length_bytes_of [simp]: "length (bytes_of s) = length s"
  by (simp add: bytes_of_def)

lemma text_of_append [simp]: "text_of (xs @ ys) = text_of xs @ text_of ys"
  by (simp add: text_of_def)

lemma bytes_of_append [simp]: "bytes_of (xs @ ys) = bytes_of xs @ bytes_of ys"
  by (simp add: bytes_of_def)

lemma bytes_of_Nil [simp]: "bytes_of [] = []"
  by (simp add: bytes_of_def)

lemma bytes_of_eq_Nil [simp]: "bytes_of s = [] \<longleftrightarrow> s = []"
  by (simp add: bytes_of_def)

subsection \<open>Digits\<close>

definition code_of :: "char \<Rightarrow> nat" where
  "code_of c = of_char c"

definition is_digit :: "char \<Rightarrow> bool" where
  "is_digit c \<longleftrightarrow> 48 \<le> code_of c \<and> code_of c \<le> 57"

definition digit_val :: "char \<Rightarrow> nat" where
  "digit_val c = code_of c - 48"

definition digit_char :: "nat \<Rightarrow> char" where
  "digit_char d = char_of (48 + d)"

lemma code_of_bound: "code_of c < 256"
  by (simp add: code_of_def)

lemma digit_val_digit_char [simp]: "d < 10 \<Longrightarrow> digit_val (digit_char d) = d"
  by (simp add: digit_val_def digit_char_def code_of_def)

lemma is_digit_digit_char [simp]: "d < 10 \<Longrightarrow> is_digit (digit_char d)"
  by (simp add: is_digit_def digit_char_def code_of_def)

lemma digit_val_less: "is_digit c \<Longrightarrow> digit_val c < 10"
  by (auto simp: is_digit_def digit_val_def)

fun show_nat :: "nat \<Rightarrow> string" where
  "show_nat n = (if n < 10 then [digit_char n] else show_nat (n div 10) @ [digit_char (n mod 10)])"

declare show_nat.simps [simp del]

definition show_int :: "int \<Rightarrow> string" where
  "show_int i = (if i < 0 then CHR ''-'' # show_nat (nat (- i)) else show_nat (nat i))"

text \<open>The number a string of digits denotes, as the loops of the sources compute it.\<close>

definition digits_value :: "string \<Rightarrow> nat" where
  "digits_value s = foldl (\<lambda>acc c. acc * 10 + digit_val c) 0 s"

lemma digits_value_Nil [simp]: "digits_value [] = 0"
  by (simp add: digits_value_def)

lemma digits_value_snoc: "digits_value (s @ [c]) = digits_value s * 10 + digit_val c"
  by (simp add: digits_value_def)

lemma digits_value_show_nat [simp]: "digits_value (show_nat n) = n"
proof (induction n rule: show_nat.induct)
  case (1 n)
  show ?case
  proof (cases "n < 10")
    case True
    then show ?thesis by (simp add: show_nat.simps [of n] digits_value_def)
  next
    case False
    with 1 show ?thesis by (simp add: show_nat.simps [of n] digits_value_snoc)
  qed
qed

lemma show_nat_nonempty [simp]: "show_nat n \<noteq> []"
  by (subst show_nat.simps) simp

lemma show_nat_digits: "c \<in> set (show_nat n) \<Longrightarrow> is_digit c"
proof (induction n rule: show_nat.induct)
  case (1 n)
  then show ?case
    by (cases "n < 10") (auto simp: show_nat.simps [of n])
qed

lemma takeWhile_show_nat [simp]: "takeWhile is_digit (show_nat n) = show_nat n"
  by (rule takeWhile_eq_all_conv [THEN iffD2]) (simp add: show_nat_digits)

subsection \<open>Scanning numbers\<close>

definition is_space :: "char \<Rightarrow> bool" where
  "is_space c \<longleftrightarrow> c = CHR '' '' \<or> (9 \<le> code_of c \<and> code_of c \<le> 13)"

definition skip_space :: "string \<Rightarrow> string" where
  "skip_space s = dropWhile is_space s"

text \<open>
  An optionally signed decimal number at the head of a string after white space, as
  \<^verbatim>\<open>strtol\<close> with base 10 reads it: the number and what follows, or \<open>None\<close> when no
  digit is there.
\<close>

definition scan_int :: "string \<Rightarrow> (int \<times> string) option" where
  "scan_int s =
    (let t = skip_space s;
         neg = (t \<noteq> [] \<and> hd t = CHR ''-'');
         u = (if t \<noteq> [] \<and> (hd t = CHR ''-'' \<or> hd t = CHR ''+'') then tl t else t);
         ds = takeWhile is_digit u
     in if ds = [] then None
        else Some (if neg then - int (digits_value ds) else int (digits_value ds),
                   dropWhile is_digit u))"

text \<open>\<^verbatim>\<open>atoi\<close>: the number, 0 when there is none.\<close>

definition atoi :: "string \<Rightarrow> int" where
  "atoi s = (case scan_int s of None \<Rightarrow> 0 | Some (i, _) \<Rightarrow> i)"

lemma digit_not_space: "is_digit c \<Longrightarrow> \<not> is_space c"
  by (auto simp: is_digit_def is_space_def code_of_def)

lemma digit_not_sign: "is_digit c \<Longrightarrow> c \<noteq> CHR ''-'' \<and> c \<noteq> CHR ''+''"
  by (auto simp: is_digit_def code_of_def)

lemma hd_show_nat: "is_digit (hd (show_nat n))"
  by (rule show_nat_digits [of _ n]) simp

lemma scan_int_show_nat:
  assumes "\<And>c. t \<noteq> [] \<Longrightarrow> c = hd t \<Longrightarrow> \<not> is_digit c"
  shows "scan_int (show_nat n @ t) = Some (int n, t)"
proof -
  let ?s = "show_nat n @ t"
  have hd: "is_digit (hd ?s)" using hd_show_nat by simp
  obtain c cs where s: "?s = c # cs" by (cases ?s) simp_all
  with hd have c: "is_digit c" by simp
  have skip: "skip_space ?s = ?s"
    unfolding skip_space_def s using digit_not_space [OF c] by simp
  have tw: "takeWhile is_digit ?s = show_nat n"
    using assms by (cases t) (simp_all add: takeWhile_append show_nat_digits)
  have dw: "dropWhile is_digit ?s = t"
    using assms by (cases t) (simp_all add: dropWhile_append show_nat_digits)
  from hd digit_not_sign have sign: "hd ?s \<noteq> CHR ''-''" "hd ?s \<noteq> CHR ''+''"
    by blast+
  show ?thesis
    unfolding scan_int_def Let_def skip using sign tw dw by simp
qed

lemma atoi_show_nat: "atoi (show_nat n) = int n"
  using scan_int_show_nat [of "[]" n] by (simp add: atoi_def)

subsection \<open>Padded and hexadecimal numbers\<close>

definition pad_left :: "nat \<Rightarrow> char \<Rightarrow> string \<Rightarrow> string" where
  "pad_left w c s = replicate (w - length s) c @ s"

lemma length_pad_left: "length (pad_left w c s) = max w (length s)"
  by (simp add: pad_left_def)

definition hex_char :: "nat \<Rightarrow> char" where
  "hex_char d = (if d < 10 then char_of (48 + d) else char_of (55 + d))"

fun show_hex :: "nat \<Rightarrow> string" where
  "show_hex n = (if n < 16 then [hex_char n] else show_hex (n div 16) @ [hex_char (n mod 16)])"

declare show_hex.simps [simp del]

text \<open>\<^verbatim>\<open>%0wX\<close>: upper-case hexadecimal, zero-padded to width \<open>w\<close>.\<close>

definition show_hex_pad :: "nat \<Rightarrow> nat \<Rightarrow> string" where
  "show_hex_pad w n = pad_left w (CHR ''0'') (show_hex n)"

text \<open>\<^verbatim>\<open>%0wd\<close> of a number that is not negative, and \<^verbatim>\<open>%wd\<close>, padded with blanks.\<close>

definition show_dec_pad :: "nat \<Rightarrow> nat \<Rightarrow> string" where
  "show_dec_pad w n = pad_left w (CHR ''0'') (show_nat n)"

lemma length_show_hex: "n < 16 ^ k \<Longrightarrow> 0 < k \<Longrightarrow> length (show_hex n) \<le> k"
proof (induction n arbitrary: k rule: show_hex.induct)
  case (1 n)
  show ?case
  proof (cases "n < 16")
    case True
    with 1 show ?thesis by (simp add: show_hex.simps [of n])
  next
    case False
    with "1.prems" obtain j where k: "k = Suc j" and j: "0 < j"
      by (cases k; cases "k - 1") auto
    with "1.prems" have "n div 16 < 16 ^ j"
      by (simp add: less_mult_imp_div_less mult.commute)
    with "1.IH" [OF False this j] False k show ?thesis
      by (simp add: show_hex.simps [of n])
  qed
qed

lemma length_show_hex_pad: "n < 16 ^ w \<Longrightarrow> 0 < w \<Longrightarrow> length (show_hex_pad w n) = w"
  using length_show_hex [of n w] by (simp add: show_hex_pad_def length_pad_left)

subsection \<open>Splitting and affixes\<close>

text \<open>
  \<^verbatim>\<open>boost::split\<close> with \<^verbatim>\<open>is_any_of\<close> one character and no compression: the pieces
  between the separators, one more than there are separators.
\<close>

fun split_char :: "char \<Rightarrow> string \<Rightarrow> string list" where
  "split_char d [] = [[]]"
| "split_char d (c # cs) =
     (if c = d then [] # split_char d cs
      else case split_char d cs of [] \<Rightarrow> [[c]] | t # ts \<Rightarrow> (c # t) # ts)"

fun join_char :: "char \<Rightarrow> string list \<Rightarrow> string" where
  "join_char d [] = []"
| "join_char d [t] = t"
| "join_char d (t # ts) = t @ d # join_char d ts"

lemma split_char_nonempty [simp]: "split_char d s \<noteq> []"
  by (induction s) (simp_all split: list.splits)

lemma length_split_char: "length (split_char d s) = Suc (count_list s d)"
proof (induction s)
  case Nil
  then show ?case by simp
next
  case (Cons c s)
  then show ?case by (cases "split_char d s") auto
qed

lemma join_split_char: "join_char d (split_char d s) = s"
proof (induction s)
  case Nil
  then show ?case by simp
next
  case (Cons c s)
  obtain t ts where ts: "split_char d s = t # ts"
    by (cases "split_char d s") simp_all
  with Cons.IH show ?case by (cases ts) auto
qed

lemma split_char_token: "d \<notin> set t \<Longrightarrow> split_char d t = [t]"
  by (induction t) auto

lemma split_char_Cons:
  "d \<notin> set t \<Longrightarrow> split_char d (t @ d # s) = t # split_char d s"
  by (induction t) auto

lemma split_join_char:
  "ts \<noteq> [] \<Longrightarrow> (\<And>t. t \<in> set ts \<Longrightarrow> d \<notin> set t) \<Longrightarrow> split_char d (join_char d ts) = ts"
  by (induction d ts rule: join_char.induct) (simp_all add: split_char_token split_char_Cons)

definition starts_with :: "string \<Rightarrow> string \<Rightarrow> bool" where
  "starts_with s p \<longleftrightarrow> take (length p) s = p"

definition ends_with :: "string \<Rightarrow> string \<Rightarrow> bool" where
  "ends_with s p \<longleftrightarrow> length p \<le> length s \<and> drop (length s - length p) s = p"

lemma starts_with_append [simp]: "starts_with (p @ s) p"
  by (simp add: starts_with_def)

lemma ends_with_append [simp]: "ends_with (s @ p) p"
  by (simp add: ends_with_def)

lemma ends_with_iff: "ends_with s p \<longleftrightarrow> (\<exists>t. s = t @ p)"
  unfolding ends_with_def
  by (metis append_take_drop_id append_eq_conv_conj diff_add_inverse2 le_add2 length_append)

lemma starts_with_iff: "starts_with s p \<longleftrightarrow> (\<exists>t. s = p @ t)"
  unfolding starts_with_def by (metis append_take_drop_id append_eq_conv_conj)

text \<open>\<^verbatim>\<open>snprintf(dst, n, "%s", s)\<close> into a buffer of \<open>n\<close> bytes: at most \<open>n - 1\<close>
  characters are kept.\<close>

definition snprintf_s :: "nat \<Rightarrow> string \<Rightarrow> string" where
  "snprintf_s n s = take (n - 1) s"

end
