(* ===== verification/Rtmp_Codec.thy ===== *)
theory Rtmp_Codec
  imports Frame_Buffer Text_Util
begin

text \<open>
  The numbers by which frames name their media and their codec (\<^verbatim>\<open>rtmp_codec.h\<close>,
  \<^verbatim>\<open>rtmp_codec.cc\<close>), the error codes that travel with frames, and the options of a
  codec. Frames carry the numbers, so the enumerations are datatypes with the code of
  each constructor.
\<close>

datatype rtmp_tag = Script | Video | Audio

fun tag_code :: "rtmp_tag \<Rightarrow> int" where
  "tag_code Script = 0"
| "tag_code Video = 1"
| "tag_code Audio = 2"

datatype rtmp_codec =
    Adpcm | Mp3 | G711a | G711u | Aac | Opus | Mp3_8k | Asc | Opus_head
  | H263 | Vp6 | H264 | H265 | Av1 | Avcc | Hvcc | Av1c

fun codec_code :: "rtmp_codec \<Rightarrow> int" where
  "codec_code Adpcm = 16"
| "codec_code Mp3 = 32"
| "codec_code G711a = 112"
| "codec_code G711u = 128"
| "codec_code Aac = 160"
| "codec_code Opus = 208"
| "codec_code Mp3_8k = 224"
| "codec_code Asc = 256"
| "codec_code Opus_head = 257"
| "codec_code H263 = 2"
| "codec_code Vp6 = 4"
| "codec_code H264 = 7"
| "codec_code H265 = 12"
| "codec_code Av1 = 13"
| "codec_code Avcc = 512"
| "codec_code Hvcc = 513"
| "codec_code Av1c = 514"

lemma tag_code_inj [simp]: "tag_code a = tag_code b \<longleftrightarrow> a = b"
  by (cases a; cases b) simp_all

lemma codec_code_inj [simp]: "codec_code a = codec_code b \<longleftrightarrow> a = b"
  by (cases a; cases b) simp_all

definition rtmp_tag_to_str :: "int \<Rightarrow> string" where
  "rtmp_tag_to_str tag =
     (if tag = tag_code Script then ''script''
      else if tag = tag_code Video then ''video''
      else if tag = tag_code Audio then ''audio''
      else ''unknown'')"

definition rtmp_codec_to_str :: "int \<Rightarrow> string" where
  "rtmp_codec_to_str codec =
     (if codec = codec_code H264 then ''h264''
      else if codec = codec_code H265 then ''h265''
      else if codec = codec_code Aac then ''aac''
      else if codec = codec_code Opus then ''opus''
      else ''unknown'')"

record codec_option =
  co_paylod_type :: int
  co_bitrate :: int
  co_sample_rate :: int
  co_config :: "string \<rightharpoonup> string"
  co_frame :: "frame_buffer list"

text \<open>
  \<^verbatim>\<open>boost::system::error_code\<close>: absent means success. The server makes the two named
  ones itself; any other comes from the operating system.
\<close>

datatype error_code = Ec_eof | Ec_protocol_error | Ec_canceled | Ec_other nat

text \<open>One call of \<^verbatim>\<open>channel::write\<close>: the frame, possibly null, and the error code.\<close>

type_synonym delivery = "frame_ptr \<times> error_code option"

end
