(* ===== verification/Rtmp_Lib.thy ===== *)
theory Rtmp_Lib
  imports Complex_Main Rtmp_Chunk Rtmp_Codec
begin

text \<open>
  The data of the RTMP server context (\<^verbatim>\<open>rtmp_server_context.h\<close>,
  \<^verbatim>\<open>rtmp_server_context.cc\<close>): its state, the callbacks of its owner, and what it uses of
  librtmp.

  librtmp is outside the repository. Its constants and its message writers are fields of
  the record \<open>rtmp_lib\<close>; its chunk reader takes the server's callbacks, here
  \<open>dispatch\<close>, and its chunk writer takes \<open>rtmp_server_send\<close>, as \<^verbatim>\<open>rtmp_t\<close>'s
  function pointers do. The callbacks of the session that owns the context
  (\<^verbatim>\<open>rtmp_server_context_handler\<close>) act on the session's state \<^verbatim>\<open>'h\<close>; one that was not
  set is \<open>None\<close>, and calling it throws.
\<close>

type_synonym double = rat

text \<open>Conversion of a floating point number to an integer cuts towards zero.\<close>

definition trunc :: "double \<Rightarrow> int" where
  "trunc x = (if 0 \<le> x then \<lfloor>x\<rfloor> else \<lceil>x\<rceil>)"

datatype hs_state = Handshake_uninit | Handshake_0 | Handshake_1 | Handshake_2

datatype play_mode = Start_none | Start_onplay | Start_onpublish

record connect_info =
  ci_app :: string
  ci_encoding :: double

record ('l, 'h) rtmp_ctx =
  cx_rtmp :: "'l rtmp_t"
  cx_recv_bytes0 :: u32
  cx_recv_bytes1 :: u32
  cx_payload :: bytes
  cx_handshake :: bytes
  cx_handshake_bytes :: nat
  cx_handshake_state :: hs_state
  cx_info :: connect_info
  cx_stream_name :: string
  cx_stream_type :: string
  cx_stream_id :: u32
  cx_receiveAudio :: byte
  cx_receiveVideo :: byte
  cx_start_transaction :: double
  cx_start_reset :: int
  cx_start_play :: play_mode
  cx_user :: 'h

type_synonym 'h callback = "'h \<Rightarrow> (int \<times> 'h) outcome"

record 'h rtmp_server_context_handler =
  h_send :: "(frame_buffer \<Rightarrow> 'h callback) option"
  h_onplay :: "(string \<Rightarrow> string \<Rightarrow> double \<Rightarrow> double \<Rightarrow> byte \<Rightarrow> 'h callback) option"
  h_onpause :: "(int \<Rightarrow> u32 \<Rightarrow> 'h callback) option"
  h_onseek :: "(u32 \<Rightarrow> 'h callback) option"
  h_onpublish :: "(string \<Rightarrow> string \<Rightarrow> string \<Rightarrow> 'h callback) option"
  h_onvideo :: "(frame_buffer \<Rightarrow> 'h callback) option"
  h_onaudio :: "(frame_buffer \<Rightarrow> 'h callback) option"
  h_onscript :: "(frame_buffer \<Rightarrow> 'h callback) option"
  h_ongetduration :: "(string \<Rightarrow> string \<Rightarrow> 'h \<Rightarrow> (int \<times> double \<times> 'h) outcome) option"

type_synonym ('l, 'h) ctx_step = "('l, 'h) rtmp_ctx \<Rightarrow> (int \<times> ('l, 'h) rtmp_ctx) outcome"

text \<open>What librtmp's reader reports: the message handlers of \<^verbatim>\<open>rtmp_t\<close>.\<close>

datatype rtmp_event =
    Ev_audio bytes u32
  | Ev_video bytes u32
  | Ev_script bytes u32
  | Ev_abort u32
  | Ev_connect int double connect_info
  | Ev_create_stream int double
  | Ev_delete_stream int double double
  | Ev_get_stream_length int double "string option"
  | Ev_publish int double "string option" "string option"
  | Ev_play int double "string option" double double byte
  | Ev_pause int double byte double
  | Ev_seek int double double
  | Ev_receive_audio int double byte
  | Ev_receive_video int double byte

record rtmp_consts =
  RTMP_HANDSHAKE_SIZE :: nat
  RTMP_VERSION :: byte
  RTMP_CHUNK_SIZE :: u32
  N_CHUNK_STREAM :: nat
  RTMP_CHANNEL_PROTOCOL :: nat
  RTMP_CHANNEL_INVOKE :: nat
  RTMP_CHANNEL_AUDIO :: nat
  RTMP_CHANNEL_VIDEO :: nat
  RTMP_CHANNEL_DATA :: nat
  RTMP_TYPE_AUDIO :: byte
  RTMP_TYPE_VIDEO :: byte
  RTMP_TYPE_DATA :: byte
  RTMP_TYPE_INVOKE :: byte
  RTMP_LEVEL_STATUS :: string
  RTMP_LEVEL_ERROR :: string
  RTMP_STREAM_LIVE :: string
  RTMP_STREAM_RECORD :: string
  RTMP_ENCODING_AMF_0 :: double
  RTMP_ENCODING_AMF_3 :: double
  RTMP_BANDWIDTH_LIMIT_DYNAMIC :: byte

text \<open>The writers return the bytes they put into the caller's buffer.\<close>

record rtmp_writers =
  rtmp_handshake_s0 :: "byte \<Rightarrow> bytes"
  rtmp_handshake_s1 :: "u32 \<Rightarrow> bytes \<Rightarrow> bytes"
  rtmp_handshake_s2 :: "u32 \<Rightarrow> bytes \<Rightarrow> bytes"
  rtmp_set_chunk_size :: "u32 \<Rightarrow> bytes"
  rtmp_acknowledgement :: "u32 \<Rightarrow> bytes"
  rtmp_window_acknowledgement_size :: "u32 \<Rightarrow> bytes"
  rtmp_set_peer_bandwidth :: "u32 \<Rightarrow> byte \<Rightarrow> bytes"
  rtmp_event_stream_is_record :: "u32 \<Rightarrow> bytes"
  rtmp_event_stream_begin :: "u32 \<Rightarrow> bytes"
  rtmp_netstream_rtmpsampleaccess :: bytes
  rtmp_netstream_onstatus :: "double \<Rightarrow> string \<Rightarrow> string \<Rightarrow> string \<Rightarrow> bytes"
  rtmp_netconnection_connect_reply ::
    "double \<Rightarrow> string \<Rightarrow> double \<Rightarrow> string \<Rightarrow> string \<Rightarrow> string \<Rightarrow> double \<Rightarrow> bytes"
  rtmp_netconnection_create_stream_reply :: "double \<Rightarrow> u32 \<Rightarrow> bytes"
  rtmp_netconnection_get_stream_length_reply :: "double \<Rightarrow> double \<Rightarrow> bytes"
  rtmp_chunk_basic_header_write :: "chunk_fmt \<Rightarrow> nat \<Rightarrow> bytes"
  rtmp_chunk_message_header_write :: "chunk_header \<Rightarrow> bytes"
  rtmp_chunk_extended_timestamp_write :: "u32 \<Rightarrow> bytes"

record ('l, 'h) rtmp_lib =
  lib_consts :: rtmp_consts
  lib_writers :: rtmp_writers
  rtmp_chunk_write :: "(bytes \<Rightarrow> bytes \<Rightarrow> ('l, 'h) ctx_step) \<Rightarrow> chunk_header \<Rightarrow> bytes \<Rightarrow> ('l, 'h) ctx_step"
  rtmp_chunk_read :: "(rtmp_event \<Rightarrow> ('l, 'h) ctx_step) \<Rightarrow> bytes \<Rightarrow> ('l, 'h) ctx_step"

end
