(* ===== verification/Rtmp_Server_Context.thy ===== *)
theory Rtmp_Server_Context
  imports Rtmp_Lib
begin

text \<open>
  The operations of the RTMP server context (\<^verbatim>\<open>rtmp_server_context.cc\<close>): the writer that
  cuts a frame into chunks, the handshake, the control messages, the command handlers that
  librtmp's reader calls, and the public entry points.

  A step returns the C result code and the new context, or aborts. The buffer
  \<^verbatim>\<open>payload\<close> is both the store for the peer's handshake and the scratch space of every
  writer.
\<close>

subsection \<open>Sending through the owner's callback\<close>

definition ctx_send :: "'h rtmp_server_context_handler \<Rightarrow> frame_buffer \<Rightarrow> ('l, 'h) ctx_step" where
  "ctx_send H frame c =
     (case h_send H of
        None \<Rightarrow> Inl Bad_function_call
      | Some f \<Rightarrow> obind (f frame (cx_user c)) (\<lambda>(r, u). Inr (r, c\<lparr>cx_user := u\<rparr>)))"

text \<open>A writer fills the front of \<^verbatim>\<open>payload\<close>.\<close>

definition put_payload :: "bytes \<Rightarrow> ('l, 'h) rtmp_ctx \<Rightarrow> ('l, 'h) rtmp_ctx" where
  "put_payload enc c = c\<lparr>cx_payload := enc @ drop (length enc) (cx_payload c)\<rparr>"

text \<open>Write a message into \<^verbatim>\<open>payload\<close>, send it as one frame, and compare the results.\<close>

definition send_payload :: "'h rtmp_server_context_handler \<Rightarrow> bytes \<Rightarrow> ('l, 'h) ctx_step" where
  "send_payload H enc c =
     obind (ctx_send H (Fixed (fixed_append_data (Some enc) fixed_create)) (put_payload enc c))
       (\<lambda>(r, c'). Inr (if int (length enc) = r then 0 else r, c'))"

text \<open>\<^verbatim>\<open>r = 0 == r ? next : r\<close>\<close>

definition if_ok :: "('l, 'h) ctx_step \<Rightarrow> int \<times> ('l, 'h) rtmp_ctx \<Rightarrow> (int \<times> ('l, 'h) rtmp_ctx) outcome" where
  "if_ok f rc = (if fst rc = 0 then f (snd rc) else Inr rc)"

subsection \<open>Chunks\<close>

definition EINVAL :: int where
  "EINVAL = 22"

definition first_chunk_header :: "('l, 'h) rtmp_lib \<Rightarrow> chunk_header \<Rightarrow> bytes" where
  "first_chunk_header L h =
     rtmp_chunk_basic_header_write (lib_writers L) (hdr_fmt h) (hdr_cid h)
     @ rtmp_chunk_message_header_write (lib_writers L) h
     @ (if 0xFFFFFF \<le> hdr_timestamp h
        then rtmp_chunk_extended_timestamp_write (lib_writers L) (hdr_timestamp h) else [])"

definition next_chunk_header :: "('l, 'h) rtmp_lib \<Rightarrow> chunk_header \<Rightarrow> bytes" where
  "next_chunk_header L h =
     rtmp_chunk_basic_header_write (lib_writers L) Chunk_type_3 (hdr_cid h)
     @ (if 0xFFFFFF \<le> hdr_timestamp h
        then rtmp_chunk_extended_timestamp_write (lib_writers L) (hdr_timestamp h) else [])"

text \<open>
  The loop of \<^verbatim>\<open>rtmp_chunk_write_help\<close>: \<open>off\<close> is how far \<^verbatim>\<open>payload\<close> has advanced,
  \<open>n\<close> is \<^verbatim>\<open>payloadSize\<close>, \<open>p\<close> the header of the chunk to be sent. With an output chunk
  size of 0 the loop sends empty chunks for ever.
\<close>

function write_chunks ::
  "('l, 'h) rtmp_lib \<Rightarrow> 'h rtmp_server_context_handler \<Rightarrow> chunk_header \<Rightarrow> frame_buffer
   \<Rightarrow> nat \<Rightarrow> nat \<Rightarrow> bytes \<Rightarrow> ('l, 'h) rtmp_ctx \<Rightarrow> ('l, 'h) rtmp_ctx outcome" where
  "write_chunks L H h frame off n p c =
     (let k = min n (unat (out_chunk_size (cx_rtmp c)))
      in if n = 0 then Inr c
         else if k = 0 then Inl Diverges
         else obind (ctx_send H (Fixed (fixed_create_data p)) c) (\<lambda>(_, c1).
              obind (ctx_send H (ref_create off k frame) c1) (\<lambda>(_, c2).
                write_chunks L H h frame (off + k) (n - k)
                  (if 0 < n - k then next_chunk_header L h else p) c2)))"
  by pat_completeness auto
termination
  by (relation "measure (\<lambda>(L, H, h, frame, off, n, p, c). n)") auto

declare write_chunks.simps [simp del]

definition rtmp_chunk_write_help ::
  "('l, 'h) rtmp_lib \<Rightarrow> 'h rtmp_server_context_handler \<Rightarrow> chunk_header \<Rightarrow> frame_buffer
   \<Rightarrow> ('l, 'h) ctx_step" where
  "rtmp_chunk_write_help L H header frame c =
     obind (rtmp_chunk_header_zip_help (cx_rtmp c) header) (\<lambda>(h, rt).
       let c' = c\<lparr>cx_rtmp := rt\<rparr>
       in if 0xFFFFFF \<le> hdr_length h then Inr (- EINVAL, c')
          else obind (write_chunks L H h frame 0 (unat (hdr_length h)) (first_chunk_header L h) c')
                 (\<lambda>c''. Inr (0, c'')))"

subsection \<open>Messages built by librtmp\<close>

text \<open>\<^verbatim>\<open>rtmp_t::send\<close>, which librtmp's chunk writer calls for every chunk.\<close>

definition rtmp_server_send ::
  "'h rtmp_server_context_handler \<Rightarrow> bytes \<Rightarrow> bytes \<Rightarrow> ('l, 'h) ctx_step" where
  "rtmp_server_send H header payload c =
     obind (ctx_send H (Fixed (fixed_append_data (Some payload)
                                (fixed_append_data (Some header) fixed_create))) c)
       (\<lambda>(r, c'). Inr (if r = int (length payload + length header) then 0 else - 1, c'))"

definition rtmp_server_send_control ::
  "('l, 'h) rtmp_lib \<Rightarrow> 'h rtmp_server_context_handler \<Rightarrow> bytes \<Rightarrow> u32 \<Rightarrow> ('l, 'h) ctx_step" where
  "rtmp_server_send_control L H payload sid c =
     rtmp_chunk_write L (rtmp_server_send H)
       \<lparr>hdr_fmt = Chunk_type_0,
        hdr_cid = RTMP_CHANNEL_INVOKE (lib_consts L),
        hdr_timestamp = 0,
        hdr_length = of_nat (length payload),
        hdr_type = RTMP_TYPE_INVOKE (lib_consts L),
        hdr_stream_id = sid\<rparr> payload c"

definition rtmp_server_send_onstatus ::
  "('l, 'h) rtmp_lib \<Rightarrow> 'h rtmp_server_context_handler \<Rightarrow> double \<Rightarrow> int \<Rightarrow> string \<Rightarrow> string \<Rightarrow> string
   \<Rightarrow> ('l, 'h) ctx_step" where
  "rtmp_server_send_onstatus L H transaction r success fail description c =
     (let enc = rtmp_netstream_onstatus (lib_writers L) transaction
                  (if r = 0 then RTMP_LEVEL_STATUS (lib_consts L) else RTMP_LEVEL_ERROR (lib_consts L))
                  (if r = 0 then success else fail) description
      in rtmp_server_send_control L H enc (cx_stream_id c) (put_payload enc c))"

subsection \<open>Handshake and control messages\<close>

definition rtmp_server_send_handshake ::
  "('l, 'h) rtmp_lib \<Rightarrow> 'h rtmp_server_context_handler \<Rightarrow> u32 \<times> u32 \<Rightarrow> ('l, 'h) ctx_step" where
  "rtmp_server_send_handshake L H now c =
     (let n = RTMP_HANDSHAKE_SIZE (lib_consts L);
          s0 = rtmp_handshake_s0 (lib_writers L) (RTMP_VERSION (lib_consts L));
          s1 = rtmp_handshake_s1 (lib_writers L) (fst now) (take n (cx_payload c));
          s2 = rtmp_handshake_s2 (lib_writers L) (snd now) (take n (cx_payload c));
          reply = s0 @ s1 @ s2;
          c' = c\<lparr>cx_handshake := reply @ drop (length reply) (cx_handshake c)\<rparr>
      in obind (oassert (length reply = 1 + n + n)) (\<lambda>_.
         obind (ctx_send H (Fixed (fixed_append_data (Some reply) fixed_create)) c')
           (\<lambda>(r, c''). Inr (if int (length reply) = r then 0 else r, c''))))"

definition RTMP_OUTPUT_CHUNK_SIZE :: u32 where
  "RTMP_OUTPUT_CHUNK_SIZE = 65535"

definition rtmp_server_send_set_chunk_size ::
  "('l, 'h) rtmp_lib \<Rightarrow> 'h rtmp_server_context_handler \<Rightarrow> ('l, 'h) ctx_step" where
  "rtmp_server_send_set_chunk_size L H c =
     obind (send_payload H (rtmp_set_chunk_size (lib_writers L) RTMP_OUTPUT_CHUNK_SIZE) c)
       (\<lambda>(r, c'). Inr (r, c'\<lparr>cx_rtmp := cx_rtmp c'\<lparr>out_chunk_size := RTMP_OUTPUT_CHUNK_SIZE\<rparr>\<rparr>))"

text \<open>Both counters are 32 bits wide and wrap around; their difference does too.\<close>

definition rtmp_server_send_acknowledgement ::
  "('l, 'h) rtmp_lib \<Rightarrow> 'h rtmp_server_context_handler \<Rightarrow> nat \<Rightarrow> ('l, 'h) ctx_step" where
  "rtmp_server_send_acknowledgement L H sz c =
     (let c1 = c\<lparr>cx_recv_bytes0 := cx_recv_bytes0 c + of_nat sz\<rparr>
      in if window_size (cx_rtmp c1) \<noteq> 0
            \<and> window_size (cx_rtmp c1) < cx_recv_bytes0 c1 - cx_recv_bytes1 c1
         then obind (send_payload H (rtmp_acknowledgement (lib_writers L) (cx_recv_bytes0 c1)) c1)
                (\<lambda>(r, c2). Inr (r, c2\<lparr>cx_recv_bytes1 := cx_recv_bytes0 c2\<rparr>))
         else Inr (0, c1))"

definition rtmp_server_send_server_bandwidth ::
  "('l, 'h) rtmp_lib \<Rightarrow> 'h rtmp_server_context_handler \<Rightarrow> ('l, 'h) ctx_step" where
  "rtmp_server_send_server_bandwidth L H c =
     send_payload H (rtmp_window_acknowledgement_size (lib_writers L) (window_size (cx_rtmp c))) c"

definition rtmp_server_send_client_bandwidth ::
  "('l, 'h) rtmp_lib \<Rightarrow> 'h rtmp_server_context_handler \<Rightarrow> ('l, 'h) ctx_step" where
  "rtmp_server_send_client_bandwidth L H c =
     send_payload H (rtmp_set_peer_bandwidth (lib_writers L) (peer_bandwidth (cx_rtmp c))
                      (RTMP_BANDWIDTH_LIMIT_DYNAMIC (lib_consts L))) c"

definition rtmp_server_send_stream_is_record ::
  "('l, 'h) rtmp_lib \<Rightarrow> 'h rtmp_server_context_handler \<Rightarrow> ('l, 'h) ctx_step" where
  "rtmp_server_send_stream_is_record L H c =
     send_payload H (rtmp_event_stream_is_record (lib_writers L) (cx_stream_id c)) c"

definition rtmp_server_send_stream_begin ::
  "('l, 'h) rtmp_lib \<Rightarrow> 'h rtmp_server_context_handler \<Rightarrow> ('l, 'h) ctx_step" where
  "rtmp_server_send_stream_begin L H c =
     send_payload H (rtmp_event_stream_begin (lib_writers L) (cx_stream_id c)) c"

definition rtmp_server_rtmp_sample_access ::
  "('l, 'h) rtmp_lib \<Rightarrow> 'h rtmp_server_context_handler \<Rightarrow> ('l, 'h) ctx_step" where
  "rtmp_server_rtmp_sample_access L H c =
     (let enc = rtmp_netstream_rtmpsampleaccess (lib_writers L)
      in rtmp_chunk_write_help L H
           \<lparr>hdr_fmt = Chunk_type_0,
            hdr_cid = RTMP_CHANNEL_INVOKE (lib_consts L),
            hdr_timestamp = 0,
            hdr_length = of_nat (length enc),
            hdr_type = RTMP_TYPE_DATA (lib_consts L),
            hdr_stream_id = cx_stream_id c\<rparr>
           (Fixed (fixed_append_data (Some enc) fixed_create)) (put_payload enc c))"

subsection \<open>Starting to play or to publish\<close>

text \<open>\<^verbatim>\<open>rtmp_server_context::rtmp_server_start\<close>\<close>

definition status_text :: "string \<Rightarrow> string \<Rightarrow> string" where
  "status_text msg dflt = (if msg \<noteq> [] then msg else dflt)"

definition start_onplay ::
  "('l, 'h) rtmp_lib \<Rightarrow> 'h rtmp_server_context_handler \<Rightarrow> int \<Rightarrow> string \<Rightarrow> ('l, 'h) ctx_step" where
  "start_onplay L H r msg c =
     (let status = (\<lambda>r c.
            obind (obind (obind
              (rtmp_server_send_onstatus L H (cx_start_transaction c) r ''NetStream.Play.Start''
                 (status_text msg ''NetStream.Play.Failed'') ''Start video on demand'' c)
              (if_ok (rtmp_server_send_stream_is_record L H)))
              (if_ok (rtmp_server_rtmp_sample_access L H)))
              (\<lambda>(r', c'). Inr (r', c'\<lparr>cx_start_play := Start_none\<rparr>)))
      in if r = 0
         then obind (obind (rtmp_server_send_stream_begin L H c)
                (\<lambda>(r1, c1). if cx_start_reset c1 \<noteq> 0
                   then if_ok (\<lambda>c1. rtmp_server_send_onstatus L H (cx_start_transaction c1) 0
                                ''NetStream.Play.Reset'' ''NetStream.Play.Failed'' [] c1) (r1, c1)
                   else Inr (r1, c1)))
                (\<lambda>(r2, c2). if r2 \<noteq> 0 then Inr (r2, c2) else status r2 c2)
         else status r c)"

definition start_onpublish ::
  "('l, 'h) rtmp_lib \<Rightarrow> 'h rtmp_server_context_handler \<Rightarrow> int \<Rightarrow> string \<Rightarrow> ('l, 'h) ctx_step" where
  "start_onpublish L H r msg c =
     (let status = (\<lambda>r c.
            obind (rtmp_server_send_onstatus L H (cx_start_transaction c) r ''NetStream.Publish.Start''
                     (status_text msg ''NetStream.Publish.BadName'') [] c)
              (\<lambda>(r', c'). Inr (r', c'\<lparr>cx_start_play := Start_none\<rparr>)))
      in if r = 0
         then obind (rtmp_server_send_stream_begin L H c)
                (\<lambda>(r1, c1). if r1 \<noteq> 0 then Inr (r1, c1) else status r1 c1)
         else status r c)"

definition rtmp_server_start ::
  "('l, 'h) rtmp_lib \<Rightarrow> 'h rtmp_server_context_handler \<Rightarrow> int \<Rightarrow> string \<Rightarrow> ('l, 'h) ctx_step" where
  "rtmp_server_start L H r msg c =
     (case cx_start_play c of
        Start_onplay \<Rightarrow> start_onplay L H r msg c
      | Start_onpublish \<Rightarrow> start_onpublish L H r msg c
      | Start_none \<Rightarrow> Inr (r, c))"

subsection \<open>Messages from the peer\<close>

definition media_frame :: "rtmp_tag \<Rightarrow> bytes \<Rightarrow> u32 \<Rightarrow> frame_buffer" where
  "media_frame tag data timestamp =
     Fixed ((fixed_append_data (Some data) fixed_create)
       \<lparr>ff_pts := uint timestamp, ff_dts := uint timestamp, ff_codec := tag_code tag\<rparr>)"

definition call_frame_cb ::
  "(frame_buffer \<Rightarrow> 'h callback) option \<Rightarrow> frame_buffer \<Rightarrow> ('l, 'h) ctx_step" where
  "call_frame_cb cb frame c =
     (case cb of
        None \<Rightarrow> Inl Bad_function_call
      | Some f \<Rightarrow> obind (f frame (cx_user c)) (\<lambda>(r, u). Inr (r, c\<lparr>cx_user := u\<rparr>)))"

definition rtmp_server_onabort :: "u32 \<Rightarrow> ('l, 'h) ctx_step" where
  "rtmp_server_onabort chunk_stream_id c = Inr (0, c)"

definition rtmp_server_onaudio ::
  "'h rtmp_server_context_handler \<Rightarrow> bytes \<Rightarrow> u32 \<Rightarrow> ('l, 'h) ctx_step" where
  "rtmp_server_onaudio H data timestamp = call_frame_cb (h_onaudio H) (media_frame Audio data timestamp)"

definition rtmp_server_onvideo ::
  "'h rtmp_server_context_handler \<Rightarrow> bytes \<Rightarrow> u32 \<Rightarrow> ('l, 'h) ctx_step" where
  "rtmp_server_onvideo H data timestamp = call_frame_cb (h_onvideo H) (media_frame Video data timestamp)"

definition rtmp_server_onscript ::
  "'h rtmp_server_context_handler \<Rightarrow> bytes \<Rightarrow> u32 \<Rightarrow> ('l, 'h) ctx_step" where
  "rtmp_server_onscript H data timestamp = call_frame_cb (h_onscript H) (media_frame Script data timestamp)"

definition rtmp_server_onconnect ::
  "('l, 'h) rtmp_lib \<Rightarrow> 'h rtmp_server_context_handler \<Rightarrow> int \<Rightarrow> double \<Rightarrow> connect_info \<Rightarrow> ('l, 'h) ctx_step" where
  "rtmp_server_onconnect L H r transaction connect c =
     obind (oassert (RTMP_ENCODING_AMF_0 (lib_consts L) = ci_encoding connect
                     \<or> RTMP_ENCODING_AMF_3 (lib_consts L) = ci_encoding connect)) (\<lambda>_.
     if r \<noteq> 0 then Inr (r, c)
     else obind (oassert (trunc transaction = 1)) (\<lambda>_.
          obind (obind (obind
            (rtmp_server_send_server_bandwidth L H (c\<lparr>cx_info := connect\<rparr>))
            (if_ok (rtmp_server_send_client_bandwidth L H)))
            (if_ok (rtmp_server_send_set_chunk_size L H)))
            (if_ok (\<lambda>c1.
               let enc = rtmp_netconnection_connect_reply (lib_writers L) transaction
                           ''FMS/3,0,1,123'' 31 ''NetConnection.Connect.Success''
                           (RTMP_LEVEL_STATUS (lib_consts L)) ''Connection Succeeded.''
                           (ci_encoding connect)
               in rtmp_server_send_control L H enc 0 (put_payload enc c1)))))"

definition rtmp_server_oncreate_stream ::
  "('l, 'h) rtmp_lib \<Rightarrow> 'h rtmp_server_context_handler \<Rightarrow> int \<Rightarrow> double \<Rightarrow> ('l, 'h) ctx_step" where
  "rtmp_server_oncreate_stream L H r transaction c =
     (if r = 0
      then let enc = rtmp_netconnection_create_stream_reply (lib_writers L) transaction 1
           in rtmp_server_send_control L H enc 0 (put_payload enc (c\<lparr>cx_stream_id := 1\<rparr>))
      else Inr (r, c))"

definition rtmp_server_ondelete_stream ::
  "('l, 'h) rtmp_lib \<Rightarrow> 'h rtmp_server_context_handler \<Rightarrow> int \<Rightarrow> double \<Rightarrow> double \<Rightarrow> ('l, 'h) ctx_step" where
  "rtmp_server_ondelete_stream L H r transaction sid c =
     (if r = 0
      then rtmp_server_send_onstatus L H transaction r ''NetStream.DeleteStream.Suceess''
             ''NetStream.DeleteStream.Failed'' [] (c\<lparr>cx_stream_id := 0\<rparr>)
      else Inr (r, c))"

text \<open>The conversion of a null \<^verbatim>\<open>const char*\<close> to \<^verbatim>\<open>std::string\<close> is not defined.\<close>

definition string_of_ptr :: "string option \<Rightarrow> string outcome" where
  "string_of_ptr p = (case p of None \<Rightarrow> Inl Null_deref | Some s \<Rightarrow> Inr s)"

definition text_or_empty :: "string option \<Rightarrow> string" where
  "text_or_empty p = (case p of None \<Rightarrow> [] | Some s \<Rightarrow> s)"

definition rtmp_server_onget_stream_length ::
  "('l, 'h) rtmp_lib \<Rightarrow> 'h rtmp_server_context_handler \<Rightarrow> int \<Rightarrow> double \<Rightarrow> string option \<Rightarrow> ('l, 'h) ctx_step" where
  "rtmp_server_onget_stream_length L H r transaction name c =
     (case h_ongetduration H of
        None \<Rightarrow> Inr (r, c)
      | Some f \<Rightarrow>
          if r \<noteq> 0 then Inr (r, c)
          else obind (string_of_ptr name) (\<lambda>n.
               obind (f (ci_app (cx_info c)) n (cx_user c)) (\<lambda>(r1, duration, u).
            let c1 = c\<lparr>cx_user := u\<rparr>;
                enc = rtmp_netconnection_get_stream_length_reply (lib_writers L) transaction duration
            in if r1 = 0
               then rtmp_server_send_control L H enc (cx_stream_id c1) (put_payload enc c1)
               else Inr (r1, c1))))"

definition RTMP_SERVER_ASYNC_START :: int where
  "RTMP_SERVER_ASYNC_START = 0x12345678"

text \<open>What follows the owner's \<^verbatim>\<open>onpublish\<close> and \<^verbatim>\<open>onplay\<close>.\<close>

definition finish_start ::
  "('l, 'h) rtmp_lib \<Rightarrow> 'h rtmp_server_context_handler \<Rightarrow> int \<times> ('l, 'h) rtmp_ctx
   \<Rightarrow> (int \<times> ('l, 'h) rtmp_ctx) outcome" where
  "finish_start L H rc =
     (let r = fst rc; c = snd rc
      in if r = RTMP_SERVER_ASYNC_START \<or> cx_start_play c = Start_none
         then Inr (if r = RTMP_SERVER_ASYNC_START then 0 else r, c)
         else rtmp_server_start L H r [] c)"

definition rtmp_server_onpublish ::
  "('l, 'h) rtmp_lib \<Rightarrow> 'h rtmp_server_context_handler \<Rightarrow> int \<Rightarrow> double \<Rightarrow> string option \<Rightarrow> string option
   \<Rightarrow> ('l, 'h) ctx_step" where
  "rtmp_server_onpublish L H r transaction name ty c =
     (if r \<noteq> 0 then Inr (r, c)
      else let c1 = c\<lparr>cx_start_play := Start_onpublish, cx_start_transaction := transaction,
                      cx_stream_name := snprintf_s (256 - 1) (text_or_empty name),
                      cx_stream_type := snprintf_s (18 - 1) (text_or_empty ty)\<rparr>
           in obind (string_of_ptr name) (\<lambda>n. obind (string_of_ptr ty) (\<lambda>t.
              case h_onpublish H of
                None \<Rightarrow> Inl Bad_function_call
              | Some f \<Rightarrow>
                  obind (f (ci_app (cx_info c1)) n t (cx_user c1)) (\<lambda>(r1, u).
                    finish_start L H (r1, c1\<lparr>cx_user := u\<rparr>)))))"

definition rtmp_server_onplay ::
  "('l, 'h) rtmp_lib \<Rightarrow> 'h rtmp_server_context_handler \<Rightarrow> int \<Rightarrow> double \<Rightarrow> string option
   \<Rightarrow> double \<Rightarrow> double \<Rightarrow> byte \<Rightarrow> ('l, 'h) ctx_step" where
  "rtmp_server_onplay L H r transaction name start duration reset c =
     (if r \<noteq> 0 then Inr (r, c)
      else let c1 = c\<lparr>cx_start_play := Start_onplay, cx_start_reset := uint reset,
                      cx_start_transaction := transaction,
                      cx_stream_name := snprintf_s (256 - 1) (text_or_empty name),
                      cx_stream_type := snprintf_s (18 - 1)
                        (if start = - 1 then RTMP_STREAM_LIVE (lib_consts L)
                         else RTMP_STREAM_RECORD (lib_consts L))\<rparr>
           in obind (string_of_ptr name) (\<lambda>n.
              case h_onplay H of
                None \<Rightarrow> Inl Bad_function_call
              | Some f \<Rightarrow>
                  obind (f (ci_app (cx_info c1)) n start duration reset (cx_user c1)) (\<lambda>(r1, u).
                    finish_start L H (r1, c1\<lparr>cx_user := u\<rparr>))))"

definition rtmp_server_onpause ::
  "('l, 'h) rtmp_lib \<Rightarrow> 'h rtmp_server_context_handler \<Rightarrow> int \<Rightarrow> double \<Rightarrow> byte \<Rightarrow> double \<Rightarrow> ('l, 'h) ctx_step" where
  "rtmp_server_onpause L H r transaction pause milliSeconds c =
     (if r \<noteq> 0 then Inr (r, c)
      else case h_onpause H of
             None \<Rightarrow> Inl Bad_function_call
           | Some f \<Rightarrow>
               obind (f (uint pause) (word_of_int (trunc milliSeconds)) (cx_user c)) (\<lambda>(r1, u).
                 rtmp_server_send_onstatus L H transaction r1
                   (if pause \<noteq> 0 then ''NetStream.Pause.Notify'' else ''NetStream.Unpause.Notify'')
                   ''NetStream.Pause.Failed'' [] (c\<lparr>cx_user := u\<rparr>)))"

definition rtmp_server_onseek ::
  "('l, 'h) rtmp_lib \<Rightarrow> 'h rtmp_server_context_handler \<Rightarrow> int \<Rightarrow> double \<Rightarrow> double \<Rightarrow> ('l, 'h) ctx_step" where
  "rtmp_server_onseek L H r transaction milliSeconds c =
     (if r \<noteq> 0 then Inr (r, c)
      else case h_onseek H of
             None \<Rightarrow> Inl Bad_function_call
           | Some f \<Rightarrow>
               obind (f (word_of_int (trunc milliSeconds)) (cx_user c)) (\<lambda>(r1, u).
                 rtmp_server_send_onstatus L H transaction r1 ''NetStream.Seek.Notify''
                   ''NetStream.Seek.Failed'' [] (c\<lparr>cx_user := u\<rparr>)))"

text \<open>\<^verbatim>\<open>NetStream.Seek.Notify\<close> and then, with its result, \<^verbatim>\<open>NetStream.Play.Start\<close>.\<close>

definition notify_resume ::
  "('l, 'h) rtmp_lib \<Rightarrow> 'h rtmp_server_context_handler \<Rightarrow> int \<Rightarrow> double \<Rightarrow> ('l, 'h) ctx_step" where
  "notify_resume L H r transaction c =
     obind (rtmp_server_send_onstatus L H transaction r ''NetStream.Seek.Notify''
              ''NetStream.Seek.Failed'' [] c) (\<lambda>(r1, c1).
       rtmp_server_send_onstatus L H transaction r1 ''NetStream.Play.Start''
         ''NetStream.Play.Failed'' [] c1)"

definition rtmp_server_onreceive_audio ::
  "('l, 'h) rtmp_lib \<Rightarrow> 'h rtmp_server_context_handler \<Rightarrow> int \<Rightarrow> double \<Rightarrow> byte \<Rightarrow> ('l, 'h) ctx_step" where
  "rtmp_server_onreceive_audio L H r transaction audio c =
     (if r = 0
      then let c1 = c\<lparr>cx_receiveAudio := audio\<rparr>
           in if audio \<noteq> 0 then notify_resume L H r transaction c1 else Inr (r, c1)
      else Inr (r, c))"

definition rtmp_server_onreceive_video ::
  "('l, 'h) rtmp_lib \<Rightarrow> 'h rtmp_server_context_handler \<Rightarrow> int \<Rightarrow> double \<Rightarrow> byte \<Rightarrow> ('l, 'h) ctx_step" where
  "rtmp_server_onreceive_video L H r transaction video c =
     (if r = 0
      then let c1 = c\<lparr>cx_receiveVideo := video\<rparr>
           in if video \<noteq> 0 then notify_resume L H r transaction c1 else Inr (r, c1)
      else Inr (r, c))"

text \<open>The function pointers that \<^verbatim>\<open>init\<close> puts into \<^verbatim>\<open>rtmp_t\<close>.\<close>

fun dispatch ::
  "('l, 'h) rtmp_lib \<Rightarrow> 'h rtmp_server_context_handler \<Rightarrow> rtmp_event \<Rightarrow> ('l, 'h) ctx_step" where
  "dispatch L H (Ev_audio data ts) = rtmp_server_onaudio H data ts"
| "dispatch L H (Ev_video data ts) = rtmp_server_onvideo H data ts"
| "dispatch L H (Ev_script data ts) = rtmp_server_onscript H data ts"
| "dispatch L H (Ev_abort cid) = rtmp_server_onabort cid"
| "dispatch L H (Ev_connect r t info) = rtmp_server_onconnect L H r t info"
| "dispatch L H (Ev_create_stream r t) = rtmp_server_oncreate_stream L H r t"
| "dispatch L H (Ev_delete_stream r t sid) = rtmp_server_ondelete_stream L H r t sid"
| "dispatch L H (Ev_get_stream_length r t name) = rtmp_server_onget_stream_length L H r t name"
| "dispatch L H (Ev_publish r t name ty) = rtmp_server_onpublish L H r t name ty"
| "dispatch L H (Ev_play r t name start duration reset) =
     rtmp_server_onplay L H r t name start duration reset"
| "dispatch L H (Ev_pause r t pause ms) = rtmp_server_onpause L H r t pause ms"
| "dispatch L H (Ev_seek r t ms) = rtmp_server_onseek L H r t ms"
| "dispatch L H (Ev_receive_audio r t audio) = rtmp_server_onreceive_audio L H r t audio"
| "dispatch L H (Ev_receive_video r t video) = rtmp_server_onreceive_video L H r t video"

subsection \<open>The public entry points\<close>

definition empty_header :: chunk_header where
  "empty_header = \<lparr>hdr_fmt = Chunk_type_0, hdr_cid = 0, hdr_timestamp = 0, hdr_length = 0,
                   hdr_type = 0, hdr_stream_id = 0\<rparr>"

definition slot_of :: "nat \<Rightarrow> rtmp_packet" where
  "slot_of cid = \<lparr>pkt_header = empty_header\<lparr>hdr_cid := cid\<rparr>, pkt_clock = 0\<rparr>"

text \<open>
  \<^verbatim>\<open>rtmp_server_context_args::init\<close> on the zeroed structure; \<open>l\<close> is the initial state of
  librtmp's reader and \<open>u\<close> the owner.
\<close>

definition ctx_init :: "('l, 'h) rtmp_lib \<Rightarrow> 'l \<Rightarrow> 'h \<Rightarrow> ('l, 'h) rtmp_ctx" where
  "ctx_init L l u =
     (let k = lib_consts L
      in \<lparr>cx_rtmp = \<lparr>out_packets =
            fold (\<lambda>cid ps. ps[cid := slot_of cid])
              [RTMP_CHANNEL_PROTOCOL k, RTMP_CHANNEL_INVOKE k, RTMP_CHANNEL_AUDIO k,
               RTMP_CHANNEL_VIDEO k, RTMP_CHANNEL_DATA k]
              (replicate (N_CHUNK_STREAM k) (slot_of 0)),
            in_chunk_size = RTMP_CHUNK_SIZE k, out_chunk_size = RTMP_CHUNK_SIZE k,
            window_size = 5000000, peer_bandwidth = 5000000, buffer_length_ms = 30000,
            rt_reader = l\<rparr>,
          cx_recv_bytes0 = 0, cx_recv_bytes1 = 0,
          cx_payload = replicate (2 * 1024) 0,
          cx_handshake = replicate (2 * RTMP_HANDSHAKE_SIZE k + 1) 0,
          cx_handshake_bytes = 0, cx_handshake_state = Handshake_uninit,
          cx_info = \<lparr>ci_app = [], ci_encoding = 0\<rparr>,
          cx_stream_name = [], cx_stream_type = [], cx_stream_id = 0,
          cx_receiveAudio = 1, cx_receiveVideo = 1,
          cx_start_transaction = 0, cx_start_reset = 0, cx_start_play = Start_none,
          cx_user = u\<rparr>)"

text \<open>
  \<^verbatim>\<open>rtmp_server_input\<close>; \<open>now\<close> is what the two calls of \<^verbatim>\<open>time\<close> return. The common part
  of the two handshake states is \<open>store_handshake\<close>: it moves bytes of the input to
  \<^verbatim>\<open>payload\<close> until \<^verbatim>\<open>RTMP_HANDSHAKE_SIZE\<close> are there.
\<close>

definition store_handshake ::
  "('l, 'h) rtmp_lib \<Rightarrow> bytes \<Rightarrow> ('l, 'h) rtmp_ctx \<Rightarrow> (nat \<times> ('l, 'h) rtmp_ctx) outcome" where
  "store_handshake L data c =
     obind (oassert (cx_handshake_bytes c < RTMP_HANDSHAKE_SIZE (lib_consts L))) (\<lambda>_.
       let n = min (RTMP_HANDSHAKE_SIZE (lib_consts L) - cx_handshake_bytes c) (length data)
       in obind (write_at (cx_handshake_bytes c) (take n data) (cx_payload c)) (\<lambda>buf.
            Inr (n, c\<lparr>cx_payload := buf, cx_handshake_bytes := cx_handshake_bytes c + n\<rparr>)))"

lemma store_handshake_progress:
  "store_handshake L data c = Inr (n, c') \<Longrightarrow> data \<noteq> [] \<Longrightarrow> 0 < n \<and> n \<le> length data"
  by (auto simp: store_handshake_def obind_eq_Inr Let_def)

function rtmp_server_input ::
  "('l, 'h) rtmp_lib \<Rightarrow> 'h rtmp_server_context_handler \<Rightarrow> u32 \<times> u32 \<Rightarrow> bytes \<Rightarrow> ('l, 'h) ctx_step" where
  "rtmp_server_input L H now data c =
     (if data = [] then Inr (0, c)
      else case cx_handshake_state c of
        Handshake_uninit \<Rightarrow>
          obind (oassert (hd data \<le> RTMP_VERSION (lib_consts L))) (\<lambda>_.
            rtmp_server_input L H now (tl data)
              (c\<lparr>cx_handshake_state := Handshake_0, cx_handshake_bytes := 0\<rparr>))
      | Handshake_0 \<Rightarrow>
          obind (store_handshake L data c) (\<lambda>(n, c1).
            if cx_handshake_bytes c1 = RTMP_HANDSHAKE_SIZE (lib_consts L)
            then obind (rtmp_server_send_handshake L H now
                   (c1\<lparr>cx_handshake_state := Handshake_1, cx_handshake_bytes := 0\<rparr>)) (\<lambda>(r, c2).
                   if r \<noteq> 0 then Inr (r, c2) else rtmp_server_input L H now (drop n data) c2)
            else rtmp_server_input L H now (drop n data) c1)
      | Handshake_1 \<Rightarrow>
          obind (store_handshake L data c) (\<lambda>(n, c1).
            rtmp_server_input L H now (drop n data)
              (if cx_handshake_bytes c1 = RTMP_HANDSHAKE_SIZE (lib_consts L)
               then c1\<lparr>cx_handshake_state := Handshake_2, cx_handshake_bytes := 0\<rparr>
               else c1))
      | Handshake_2 \<Rightarrow>
          obind (rtmp_server_send_acknowledgement L H (length data) c) (\<lambda>(_, c1).
            rtmp_chunk_read L (dispatch L H) data c1))"
  by pat_completeness auto
termination
  by (relation "measure (\<lambda>(L, H, now, data, c). length data)")
     (auto dest: store_handshake_progress)

declare rtmp_server_input.simps [simp del]

definition send_media ::
  "('l, 'h) rtmp_lib \<Rightarrow> 'h rtmp_server_context_handler \<Rightarrow> nat \<Rightarrow> byte \<Rightarrow> frame_buffer \<Rightarrow> ('l, 'h) ctx_step" where
  "send_media L H cid ty frame c =
     rtmp_chunk_write_help L H
       \<lparr>hdr_fmt = Chunk_type_1,
        hdr_cid = cid,
        hdr_timestamp = word_of_int (fb_pts frame),
        hdr_length = of_nat (fb_size frame),
        hdr_type = ty,
        hdr_stream_id = cx_stream_id c\<rparr> frame c"

definition rtmp_server_send_audio ::
  "('l, 'h) rtmp_lib \<Rightarrow> 'h rtmp_server_context_handler \<Rightarrow> frame_buffer \<Rightarrow> ('l, 'h) ctx_step" where
  "rtmp_server_send_audio L H frame c =
     (if cx_receiveAudio c = 0 then Inr (0, c)
      else send_media L H (RTMP_CHANNEL_AUDIO (lib_consts L)) (RTMP_TYPE_AUDIO (lib_consts L)) frame c)"

definition rtmp_server_send_video ::
  "('l, 'h) rtmp_lib \<Rightarrow> 'h rtmp_server_context_handler \<Rightarrow> frame_buffer \<Rightarrow> ('l, 'h) ctx_step" where
  "rtmp_server_send_video L H frame c =
     (if cx_receiveVideo c = 0 then Inr (0, c)
      else send_media L H (RTMP_CHANNEL_VIDEO (lib_consts L)) (RTMP_TYPE_VIDEO (lib_consts L)) frame c)"

definition rtmp_server_send_script ::
  "('l, 'h) rtmp_lib \<Rightarrow> 'h rtmp_server_context_handler \<Rightarrow> frame_buffer \<Rightarrow> ('l, 'h) ctx_step" where
  "rtmp_server_send_script L H frame c =
     send_media L H (RTMP_CHANNEL_INVOKE (lib_consts L)) (RTMP_TYPE_DATA (lib_consts L)) frame c"

text \<open>
  \<^verbatim>\<open>rtmp_server_stop\<close>: the payload pointers of the packets of both directions, which only librtmp's reader sets, and
  the payloads that are freed. The context is freed with them.
\<close>

fun stop_slots :: "bytes option list \<Rightarrow> bytes option list \<Rightarrow> bytes list outcome" where
  "stop_slots (out # outs) (inp # inps) =
     obind (oassert (out = None)) (\<lambda>_.
     obind (stop_slots outs inps) (\<lambda>freed.
       Inr ((case inp of None \<Rightarrow> [] | Some payload \<Rightarrow> [payload]) @ freed)))"
| "stop_slots outs inps = Inr []"

definition rtmp_server_stop :: "bytes option list \<Rightarrow> bytes option list \<Rightarrow> (int \<times> bytes list) outcome" where
  "rtmp_server_stop out_payloads in_payloads =
     obind (stop_slots out_payloads in_payloads) (\<lambda>freed. Inr (0, freed))"

lemma stop_frees_all:
  "length outs = length inps \<Longrightarrow> \<forall>out \<in> set outs. out = None \<Longrightarrow>
   rtmp_server_stop outs inps = Inr (0, map the (filter (\<lambda>p. p \<noteq> None) inps))"
proof -
  assume "length outs = length inps" "\<forall>out \<in> set outs. out = None"
  then have "stop_slots outs inps = Inr (map the (filter (\<lambda>p. p \<noteq> None) inps))"
    by (induction outs inps rule: list_induct2) (auto split: option.split)
  then show ?thesis by (simp add: rtmp_server_stop_def)
qed

end
