(* ===== verification/Rtmp_Chunk_Write.thy ===== *)
theory Rtmp_Chunk_Write
  imports Rtmp_Server_Context
begin

text \<open>
  Correctness of the chunk writer of \<^verbatim>\<open>rtmp_server_context.cc\<close>: what is handed to the
  owner's send callback for one media frame, stated against a plan that cuts the payload
  into pieces of the output chunk size, and the case in which the writer records a message
  that was never sent.
\<close>

subsection \<open>Frames that are sent one after the other\<close>

definition send_all ::
  "'h rtmp_server_context_handler \<Rightarrow> frame_buffer list \<Rightarrow> ('l, 'h) rtmp_ctx \<Rightarrow> ('l, 'h) rtmp_ctx outcome" where
  "send_all H = ofold (\<lambda>f c. obind (ctx_send H f c) (\<lambda>(_, c'). Inr c'))"

lemma ctx_send_rtmp: "ctx_send H f c = Inr (r, c') \<Longrightarrow> cx_rtmp c' = cx_rtmp c"
  by (auto simp: ctx_send_def obind_eq_Inr split: option.splits)

lemma ctx_send_frame:
  assumes "ctx_send H f c = Inr (r, c')"
  shows "\<exists>u. c' = c\<lparr>cx_user := u\<rparr>"
  using assms by (auto simp: ctx_send_def obind_eq_Inr split: option.splits)

text \<open>The frames of one message: header and view alternate.\<close>

function chunk_frames ::
  "('l, 'h) rtmp_lib \<Rightarrow> chunk_header \<Rightarrow> frame_buffer \<Rightarrow> nat \<Rightarrow> nat \<Rightarrow> nat \<Rightarrow> bytes \<Rightarrow> frame_buffer list" where
  "chunk_frames L h frame k off n p =
     (if n = 0 \<or> k = 0 then []
      else Fixed (fixed_create_data p) # ref_create off (min n k) frame
           # chunk_frames L h frame k (off + min n k) (n - min n k) (next_chunk_header L h))"
  by pat_completeness auto
termination
  by (relation "measure (\<lambda>(L, h, frame, k, off, n, p). n)") auto

declare chunk_frames.simps [simp del]

lemma chunk_frames_0 [simp]: "chunk_frames L h frame k off 0 p = []"
  by (simp add: chunk_frames.simps)

lemma write_chunks_0 [simp]: "write_chunks L H h frame off 0 p c = Inr c"
  by (simp add: write_chunks.simps)

lemma write_chunks_step:
  "0 < n \<Longrightarrow> 0 < unat (out_chunk_size (cx_rtmp c)) \<Longrightarrow>
   write_chunks L H h frame off n p c =
     obind (ctx_send H (Fixed (fixed_create_data p)) c) (\<lambda>(_, c1).
     obind (ctx_send H (ref_create off (min n (unat (out_chunk_size (cx_rtmp c)))) frame) c1) (\<lambda>(_, c2).
       write_chunks L H h frame (off + min n (unat (out_chunk_size (cx_rtmp c))))
         (n - min n (unat (out_chunk_size (cx_rtmp c)))) (next_chunk_header L h) c2))"
  by (subst write_chunks.simps) (auto simp: Let_def intro!: obind_cong split: prod.splits)

lemma chunk_frames_step:
  "0 < n \<Longrightarrow> 0 < k \<Longrightarrow>
   chunk_frames L h frame k off n p =
     Fixed (fixed_create_data p) # ref_create off (min n k) frame
     # chunk_frames L h frame k (off + min n k) (n - min n k) (next_chunk_header L h)"
  by (subst chunk_frames.simps) simp

lemma send_all_simps [simp]:
  "send_all H [] c = Inr c"
  "send_all H (f # fs) c = obind (ctx_send H f c) (\<lambda>(_, c1). send_all H fs c1)"
  by (simp_all add: send_all_def obind_assoc split_def)

lemma write_chunks_send_all:
  assumes "out_chunk_size (cx_rtmp c) = s" "0 < unat s"
  shows "write_chunks L H h frame off n p c = send_all H (chunk_frames L h frame (unat s) off n p) c"
  using assms(1)
proof (induction n arbitrary: off p c rule: less_induct)
  case (less n)
  show ?case
  proof (cases "n = 0")
    case True
    then show ?thesis by simp
  next
    case False
    let ?m = "min n (unat s)"
    have IH: "write_chunks L H h frame (off + ?m) (n - ?m) (next_chunk_header L h) c2 =
        send_all H (chunk_frames L h frame (unat s) (off + ?m) (n - ?m) (next_chunk_header L h)) c2"
      if "cx_rtmp c2 = cx_rtmp c" for c2
      using False assms(2) less.prems that by (intro less.IH) auto
    from False assms(2) show ?thesis
      by (auto simp: less.prems write_chunks_step chunk_frames_step IH dest!: ctx_send_rtmp
          intro!: obind_cong split: prod.splits)
  qed
qed

subsection \<open>The plan of a message\<close>

text \<open>Pieces of the payload, each with the header bytes that precede it.\<close>

definition chunk_plan :: "('l, 'h) rtmp_lib \<Rightarrow> chunk_header \<Rightarrow> nat \<Rightarrow> bytes \<Rightarrow> (bytes \<times> bytes) list" where
  "chunk_plan L h k data =
     (let pieces = chunks_of k data
      in zip (first_chunk_header L h # replicate (length pieces) (next_chunk_header L h)) pieces)"

definition interleave :: "(bytes \<times> bytes) list \<Rightarrow> bytes list" where
  "interleave ps = concat (map (\<lambda>(a, b). [a, b]) ps)"

lemma interleave_simps [simp]:
  "interleave [] = []" "interleave ((a, b) # ps) = a # b # interleave ps"
  by (simp_all add: interleave_def)

lemma chunk_frames_data:
  assumes "off + n \<le> length (fb_data frame)" "0 < k"
  shows "map fb_data (chunk_frames L h frame k off n p) =
     interleave (zip (p # replicate (length (chunks_of k (take n (drop off (fb_data frame)))))
                          (next_chunk_header L h))
                     (chunks_of k (take n (drop off (fb_data frame)))))"
  using assms
proof (induction n arbitrary: off p rule: less_induct)
  case (less n)
  let ?d = "take n (drop off (fb_data frame))"
  show ?case
  proof (cases "n = 0")
    case True
    then show ?thesis by simp
  next
    case False
    let ?m = "min n k"
    have len: "length ?d = n" using less.prems by simp
    with False have "?d \<noteq> []" by auto
    from this less.prems(2) have cut: "chunks_of k ?d = take k ?d # chunks_of k (drop k ?d)"
      by (rule chunks_of_step)
    have tk: "take k ?d = take ?m (drop off (fb_data frame))"
      by (simp add: min.commute)
    have dr: "drop k ?d = take (n - ?m) (drop (off + ?m) (fb_data frame))"
    proof (cases "k \<le> n")
      case True
      then show ?thesis by (simp add: drop_take min_def add.commute)
    next
      case False
      then show ?thesis by (simp add: len)
    qed
    have IH: "map fb_data (chunk_frames L h frame k (off + ?m) (n - ?m) (next_chunk_header L h)) =
      interleave (zip (next_chunk_header L h # replicate (length (chunks_of k (drop k ?d)))
                         (next_chunk_header L h)) (chunks_of k (drop k ?d)))"
      unfolding dr using False less.prems by (intro less.IH) auto
    have rep: "zip (x # replicate (length ys) x) ys = zip (replicate (length ys) x) ys" for x :: bytes and ys :: "bytes list"
      using zip_replicate1 [of "Suc (length ys)" x ys] by (simp add: zip_replicate1)
    show ?thesis
      using False less.prems(2) IH
      by (simp add: chunk_frames_step cut rep min.commute [of k n])
  qed
qed

subsection \<open>An owner that accepts and records every frame\<close>

text \<open>
  What the context relies on when it sends: a session whose connection is alive takes every
  frame, reports its size and stays alive.
\<close>

locale recording_owner =
  fixes H :: "'h rtmp_server_context_handler"
    and record_frame :: "frame_buffer \<Rightarrow> 'h \<Rightarrow> 'h"
    and alive :: "'h \<Rightarrow> bool"
  assumes sends: "alive u \<Longrightarrow> \<exists>g. h_send H = Some g \<and> g f u = Inr (int (fb_size f), record_frame f u)"
    and alive_kept: "alive u \<Longrightarrow> alive (record_frame f u)"
begin

lemma ctx_send_records:
  "alive (cx_user c) \<Longrightarrow>
   ctx_send H f c = Inr (int (fb_size f), c\<lparr>cx_user := record_frame f (cx_user c)\<rparr>)"
  using sends [of "cx_user c" f] by (auto simp: ctx_send_def)

lemma send_all_records:
  "alive (cx_user c) \<Longrightarrow>
   send_all H fs c = Inr (c\<lparr>cx_user := fold record_frame fs (cx_user c)\<rparr>)"
  by (induction fs arbitrary: c) (simp_all add: ctx_send_records alive_kept)

lemma alive_fold: "alive u \<Longrightarrow> alive (fold record_frame fs u)"
  by (induction fs arbitrary: u) (simp_all add: alive_kept)

lemma chunk_write_help_records:
  assumes "alive (cx_user c)"
    and "rtmp_chunk_header_zip_help (cx_rtmp c) header = Inr (h, rt)"
    and "hdr_length header < 0xFFFFFF" and "0 < unat (out_chunk_size (cx_rtmp c))"
  shows "rtmp_chunk_write_help L H header frame c =
     Inr (0, c\<lparr>cx_rtmp := rt,
               cx_user := fold record_frame
                 (chunk_frames L h frame (unat (out_chunk_size (cx_rtmp c))) 0
                    (unat (hdr_length header)) (first_chunk_header L h)) (cx_user c)\<rparr>)"
proof -
  obtain i where h: "h = compress_header (out_packets (cx_rtmp c) ! i) header"
    and rt: "out_chunk_size rt = out_chunk_size (cx_rtmp c)"
    using assms(2) by (elim zip_help_result) auto
  have len: "hdr_length h = hdr_length header" by (simp add: h)
  let ?c = "c\<lparr>cx_rtmp := rt\<rparr>"
  have "write_chunks L H h frame 0 (unat (hdr_length h)) (first_chunk_header L h) ?c =
      send_all H (chunk_frames L h frame (unat (out_chunk_size (cx_rtmp c))) 0
        (unat (hdr_length h)) (first_chunk_header L h)) ?c"
    using assms(4) by (intro write_chunks_send_all) (simp_all add: rt)
  with assms show ?thesis
    by (simp add: rtmp_chunk_write_help_def Let_def send_all_records len flip: not_less)
qed

end

definition logs_frames :: "bytes list rtmp_server_context_handler \<Rightarrow> bool" where
  "logs_frames H \<longleftrightarrow> h_send H = Some (\<lambda>f u. Inr (int (fb_size f), u @ [fb_data f]))"

lemma logger: "logs_frames H \<Longrightarrow> recording_owner H (\<lambda>f u. u @ [fb_data f]) (\<lambda>_. True)"
  by unfold_locales (simp_all add: logs_frames_def)

lemma ctx_send_logs:
  "logs_frames H \<Longrightarrow>
   ctx_send H f c = Inr (int (fb_size f), c\<lparr>cx_user := cx_user c @ [fb_data f]\<rparr>)"
  by (rule recording_owner.ctx_send_records [OF logger]) simp_all

lemma fold_log: "fold (\<lambda>f u. u @ [fb_data f]) fs u = u @ map fb_data fs"
  by (induction fs arbitrary: u) simp_all

lemma interleave_plan:
  assumes "unat (hdr_length h) \<le> length (fb_data frame)" "0 < k"
  shows "map fb_data (chunk_frames L h frame k 0 (unat (hdr_length h)) (first_chunk_header L h)) =
     interleave (chunk_plan L h k (take (unat (hdr_length h)) (fb_data frame)))"
  using chunk_frames_data [of 0 "unat (hdr_length h)" frame k] assms
  by (simp add: chunk_plan_def Let_def)

lemma zip_help_length:
  "rtmp_chunk_header_zip_help rt header = Inr (h, rt') \<Longrightarrow> hdr_length h = hdr_length header"
  by (elim zip_help_result) simp

lemma chunk_write_help_logs:
  assumes "logs_frames H"
    and "rtmp_chunk_header_zip_help (cx_rtmp c) header = Inr (h, rt)"
    and "hdr_length header < 0xFFFFFF" and "unat (hdr_length header) \<le> length (fb_data frame)"
    and "0 < unat (out_chunk_size (cx_rtmp c))"
  shows "rtmp_chunk_write_help L H header frame c =
     Inr (0, c\<lparr>cx_rtmp := rt,
               cx_user := cx_user c @
                 interleave (chunk_plan L h (unat (out_chunk_size (cx_rtmp c)))
                   (take (unat (hdr_length header)) (fb_data frame)))\<rparr>)"
  using recording_owner.chunk_write_help_records [OF logger [OF assms(1)] _ assms(2,3,5), of L frame]
    interleave_plan [of h frame "unat (out_chunk_size (cx_rtmp c))" L] assms
    zip_help_length [OF assms(2)]
  by (simp add: fold_log)

lemma chunk_plan_payload: "0 < k \<Longrightarrow> concat (map snd (chunk_plan L h k data)) = data"
  by (simp add: chunk_plan_def Let_def concat_chunks_of map_snd_zip_take)

lemma chunk_plan_sizes:
  "(hb, pl) \<in> set (chunk_plan L h k data) \<Longrightarrow> 0 < length pl \<and> length pl \<le> k"
  by (auto simp: chunk_plan_def Let_def dest!: set_zip_rightD length_chunks_of)

lemma chunk_plan_headers:
  "map fst (chunk_plan L h k data) = take (length (chunk_plan L h k data))
     (first_chunk_header L h # replicate (length (chunk_plan L h k data)) (next_chunk_header L h))"
  by (simp add: chunk_plan_def Let_def map_fst_zip_take)

text \<open>
  C1. Sending one media message through the chunk writer hands the owner exactly the
  message: header frames and payload frames alternate, the payload pieces concatenate to
  the first \<^verbatim>\<open>length\<close> bytes of the frame, none is empty or longer than the output chunk
  size, the first is preceded by the compressed message header and every later one by a
  type 3 header; the call returns 0.
\<close>

theorem chunk_write_message:
  assumes "logs_frames H"
    and "rtmp_chunk_header_zip_help (cx_rtmp c) header = Inr (h, rt)"
    and "hdr_length header < 0xFFFFFF" and "unat (hdr_length header) \<le> length (fb_data frame)"
    and "0 < unat (out_chunk_size (cx_rtmp c))"
  shows "\<exists>plan c'. rtmp_chunk_write_help L H header frame c = Inr (0, c')
     \<and> cx_rtmp c' = rt \<and> cx_user c' = cx_user c @ interleave plan
     \<and> concat (map snd plan) = take (unat (hdr_length header)) (fb_data frame)
     \<and> (\<forall>(hb, pl) \<in> set plan. 0 < length pl \<and> length pl \<le> unat (out_chunk_size (cx_rtmp c)))
     \<and> map fst plan = take (length plan)
          (first_chunk_header L h # replicate (length plan) (next_chunk_header L h))"
proof -
  let ?k = "unat (out_chunk_size (cx_rtmp c))"
  let ?plan = "chunk_plan L h ?k (take (unat (hdr_length header)) (fb_data frame))"
  from assms show ?thesis
    by (intro exI [of _ ?plan] exI)
      (auto simp: chunk_write_help_logs chunk_plan_payload dest: chunk_plan_sizes
        intro: chunk_plan_headers)
qed

definition demo_header :: chunk_header where
  "demo_header = empty_header\<lparr>hdr_fmt := Chunk_type_1, hdr_cid := 5, hdr_timestamp := 40,
                              hdr_length := 5, hdr_type := 9, hdr_stream_id := 1\<rparr>"

definition demo_rtmp :: "unit rtmp_t" where
  "demo_rtmp = \<lparr>out_packets = map slot_of [0, 1, 2, 3, 4, 5, 6, 7], in_chunk_size = 128,
     out_chunk_size = 2, window_size = 5000000, peer_bandwidth = 5000000,
     buffer_length_ms = 30000, rt_reader = ()\<rparr>"

definition demo_consts :: rtmp_consts where
  "demo_consts = \<lparr>RTMP_HANDSHAKE_SIZE = 4, RTMP_VERSION = 3, RTMP_CHUNK_SIZE = 128,
     N_CHUNK_STREAM = 8, RTMP_CHANNEL_PROTOCOL = 2, RTMP_CHANNEL_INVOKE = 3,
     RTMP_CHANNEL_AUDIO = 4, RTMP_CHANNEL_VIDEO = 5, RTMP_CHANNEL_DATA = 6,
     RTMP_TYPE_AUDIO = 8, RTMP_TYPE_VIDEO = 9, RTMP_TYPE_DATA = 18, RTMP_TYPE_INVOKE = 20,
     RTMP_LEVEL_STATUS = ''status'', RTMP_LEVEL_ERROR = ''error'', RTMP_STREAM_LIVE = ''live'',
     RTMP_STREAM_RECORD = ''record'', RTMP_ENCODING_AMF_0 = 0, RTMP_ENCODING_AMF_3 = 3,
     RTMP_BANDWIDTH_LIMIT_DYNAMIC = 2\<rparr>"

definition demo_writers :: rtmp_writers where
  "demo_writers = \<lparr>rtmp_handshake_s0 = (\<lambda>v. [v]), rtmp_handshake_s1 = (\<lambda>t p. p),
     rtmp_handshake_s2 = (\<lambda>t p. p), rtmp_set_chunk_size = (\<lambda>n. [1]),
     rtmp_acknowledgement = (\<lambda>n. [3]), rtmp_window_acknowledgement_size = (\<lambda>n. [5]),
     rtmp_set_peer_bandwidth = (\<lambda>n l. [6, l]), rtmp_event_stream_is_record = (\<lambda>s. [4, 4]),
     rtmp_event_stream_begin = (\<lambda>s. [4, 0]), rtmp_netstream_rtmpsampleaccess = [18],
     rtmp_netstream_onstatus = (\<lambda>t l c d. bytes_of c),
     rtmp_netconnection_connect_reply = (\<lambda>t v n c l d e. bytes_of c),
     rtmp_netconnection_create_stream_reply = (\<lambda>t s. [20]),
     rtmp_netconnection_get_stream_length_reply = (\<lambda>t d. [21]),
     rtmp_chunk_basic_header_write = (\<lambda>f cid. [of_nat cid]),
     rtmp_chunk_message_header_write = (\<lambda>h. [hdr_type h]),
     rtmp_chunk_extended_timestamp_write = (\<lambda>t. [0xFF])\<rparr>"

text \<open>A chunk writer that sends every message as a single chunk, and a reader that reads nothing.\<close>

definition demo_lib :: "(unit, 'h) rtmp_lib" where
  "demo_lib = \<lparr>lib_consts = demo_consts, lib_writers = demo_writers,
     rtmp_chunk_write = (\<lambda>put h p c. put [of_nat (hdr_cid h), hdr_type h] p c),
     rtmp_chunk_read = (\<lambda>disp data c. Inr (0, c))\<rparr>"

definition demo_handler :: "bytes list rtmp_server_context_handler" where
  "demo_handler = \<lparr>h_send = Some (\<lambda>f u. Inr (int (fb_size f), u @ [fb_data f])),
     h_onplay = Some (\<lambda>app stream start duration reset u. Inr (0, u)), h_onpause = None,
     h_onseek = None, h_onpublish = Some (\<lambda>app stream ty u. Inr (0, u)), h_onvideo = None,
     h_onaudio = None, h_onscript = None, h_ongetduration = None\<rparr>"

definition demo_ctx :: "(unit, bytes list) rtmp_ctx" where
  "demo_ctx = (ctx_init demo_lib () [])\<lparr>cx_rtmp := demo_rtmp\<rparr>"

lemma logs_demo_handler [simp]: "logs_frames demo_handler"
  by (simp add: logs_frames_def demo_handler_def)

lemma cx_demo_ctx [simp]: "cx_rtmp demo_ctx = demo_rtmp" "cx_user demo_ctx = []"
  by (simp_all add: demo_ctx_def ctx_init_def Let_def)

lemma recv_demo_ctx [simp]: "cx_recv_bytes0 demo_ctx = 0" "cx_recv_bytes1 demo_ctx = 0"
  "cx_handshake_state demo_ctx = Handshake_uninit"
  by (simp_all add: demo_ctx_def ctx_init_def Let_def)

lemma demo_lib_simps [simp]:
  "lib_consts demo_lib = demo_consts" "lib_writers demo_lib = demo_writers"
  "rtmp_chunk_write demo_lib put h p c = put [of_nat (hdr_cid h), hdr_type h] p c"
  "rtmp_chunk_read demo_lib disp data c = Inr (0, c)"
  by (simp_all add: demo_lib_def)

lemma demo_rtmp_simps [simp]:
  "window_size demo_rtmp = 5000000" "peer_bandwidth demo_rtmp = 5000000"
  "in_chunk_size demo_rtmp = 128" "out_chunk_size demo_rtmp = 2"
  by (simp_all add: demo_rtmp_def)

lemma zip_demo:
  "rtmp_chunk_header_zip_help demo_rtmp demo_header =
     Inr (demo_header\<lparr>hdr_fmt := Chunk_type_0\<rparr>,
          demo_rtmp\<lparr>out_packets := (out_packets demo_rtmp)
            [5 := \<lparr>pkt_header = demo_header\<lparr>hdr_fmt := Chunk_type_0\<rparr>, pkt_clock = 40\<rparr>]\<rparr>)"
  by (simp add: rtmp_chunk_header_zip_help_def rtmp_packet_find_help_def demo_header_def
      demo_rtmp_def empty_header_def slot_of_def compress_header_def upt_rec Let_def)

theorem chunk_write_message_witness:
  "\<exists>plan c'. rtmp_chunk_write_help demo_lib demo_handler demo_header
       (Fixed (fixed_create_data [1, 2, 3, 4, 5])) demo_ctx = Inr (0, c')
     \<and> cx_user c' = interleave plan \<and> concat (map snd plan) = [1, 2, 3, 4, 5]
     \<and> (\<forall>(hb, pl) \<in> set plan. 0 < length pl \<and> length pl \<le> 2)"
proof -
  have size: "out_chunk_size demo_rtmp = 2" "hdr_length demo_header = 5"
    by (simp_all add: demo_rtmp_def demo_header_def)
  show ?thesis
    using chunk_write_message [of demo_handler demo_ctx demo_header _ _
        "Fixed (fixed_create_data [1, 2, 3, 4, 5])" demo_lib] zip_demo
    by (fastforce simp: size)
qed


definition zero_receiver :: receiver where
  "zero_receiver = \<lparr>rx_clock = 0, rx_delta = 0, rx_length = 0, rx_type = 0, rx_stream_id = 0\<rparr>"


end
