(* ===== verification/Rtmp_Server_Proofs.thy ===== *)
theory Rtmp_Server_Proofs
  imports Rtmp_Chunk_Write
begin

text \<open>
  Correctness of the RTMP server context: the handshake (how the input may be cut, what is
  answered and when), the acknowledgement window, the answers to \<^verbatim>\<open>connect\<close> and
  \<^verbatim>\<open>play\<close>, and the inputs of a peer that end the process.
\<close>

subsection \<open>The handshake does not depend on how the input is cut\<close>

definition handshake_left :: "('l, 'h) rtmp_lib \<Rightarrow> ('l, 'h) rtmp_ctx \<Rightarrow> nat" where
  "handshake_left L c =
     (let n = RTMP_HANDSHAKE_SIZE (lib_consts L)
      in case cx_handshake_state c of
           Handshake_uninit \<Rightarrow> 1 + n + n
         | Handshake_0 \<Rightarrow> (n - cx_handshake_bytes c) + n
         | Handshake_1 \<Rightarrow> n - cx_handshake_bytes c
         | Handshake_2 \<Rightarrow> 0)"

definition wf_handshake :: "('l, 'h) rtmp_lib \<Rightarrow> ('l, 'h) rtmp_ctx \<Rightarrow> bool" where
  "wf_handshake L c \<longleftrightarrow> 0 < RTMP_HANDSHAKE_SIZE (lib_consts L)
     \<and> (cx_handshake_state c \<in> {Handshake_0, Handshake_1}
        \<longrightarrow> cx_handshake_bytes c < RTMP_HANDSHAKE_SIZE (lib_consts L))"

lemma write_at_append:
  "write_at off (xs @ ys) buf = obind (write_at off xs buf) (write_at (off + length xs) ys)"
  by (cases xs) (auto simp: write_at_def min_def ac_simps)

lemma store_handshake_split:
  assumes "cx_handshake_bytes c + length d1 < RTMP_HANDSHAKE_SIZE (lib_consts L)"
  shows "store_handshake L (d1 @ d2) c =
     obind (store_handshake L d1 c) (\<lambda>(n, c1).
     obind (store_handshake L d2 c1) (\<lambda>(k, c2). Inr (n + k, c2)))"
  using assms
  by (auto simp: store_handshake_def Let_def obind_assoc write_at_append min_def
      intro!: obind_cong)

lemma store_handshake_full:
  assumes "RTMP_HANDSHAKE_SIZE (lib_consts L) \<le> cx_handshake_bytes c + length d1"
  shows "store_handshake L (d1 @ d2) c = store_handshake L d1 c"
proof -
  let ?m = "RTMP_HANDSHAKE_SIZE (lib_consts L) - cx_handshake_bytes c"
  from assms have "min ?m (length (d1 @ d2)) = ?m" "min ?m (length d1) = ?m" "?m \<le> length d1"
    by auto
  then show ?thesis by (simp add: store_handshake_def Let_def)
qed

lemma store_handshake_result:
  "store_handshake L d c = Inr (n, c1) \<Longrightarrow>
     cx_handshake_state c1 = cx_handshake_state c
     \<and> cx_handshake_bytes c1 = cx_handshake_bytes c + n
     \<and> n = min (RTMP_HANDSHAKE_SIZE (lib_consts L) - cx_handshake_bytes c) (length d)"
  by (auto simp: store_handshake_def obind_eq_Inr Let_def)

lemma send_handshake_state:
  "rtmp_server_send_handshake L H now c = Inr (r, c') \<Longrightarrow>
     cx_handshake_state c' = cx_handshake_state c \<and> cx_handshake_bytes c' = cx_handshake_bytes c"
  by (auto simp: rtmp_server_send_handshake_def obind_eq_Inr Let_def dest!: ctx_send_frame)

lemma input_Nil [simp]: "rtmp_server_input L H now [] c = Inr (0, c)"
  by (simp add: rtmp_server_input.simps)

lemma input_uninit:
  "cx_handshake_state c = Handshake_uninit \<Longrightarrow>
   rtmp_server_input L H now (b # data) c =
     obind (oassert (b \<le> RTMP_VERSION (lib_consts L))) (\<lambda>_.
       rtmp_server_input L H now data (c\<lparr>cx_handshake_state := Handshake_0, cx_handshake_bytes := 0\<rparr>))"
  by (subst rtmp_server_input.simps) simp

lemma input_handshake_0:
  "cx_handshake_state c = Handshake_0 \<Longrightarrow> data \<noteq> [] \<Longrightarrow>
   rtmp_server_input L H now data c =
     obind (store_handshake L data c) (\<lambda>(n, c1).
       if cx_handshake_bytes c1 = RTMP_HANDSHAKE_SIZE (lib_consts L)
       then obind (rtmp_server_send_handshake L H now
              (c1\<lparr>cx_handshake_state := Handshake_1, cx_handshake_bytes := 0\<rparr>)) (\<lambda>(r, c2).
              if r \<noteq> 0 then Inr (r, c2) else rtmp_server_input L H now (drop n data) c2)
       else rtmp_server_input L H now (drop n data) c1)"
  by (subst rtmp_server_input.simps) simp

lemma input_handshake_1:
  "cx_handshake_state c = Handshake_1 \<Longrightarrow> data \<noteq> [] \<Longrightarrow>
   rtmp_server_input L H now data c =
     obind (store_handshake L data c) (\<lambda>(n, c1).
       rtmp_server_input L H now (drop n data)
         (if cx_handshake_bytes c1 = RTMP_HANDSHAKE_SIZE (lib_consts L)
          then c1\<lparr>cx_handshake_state := Handshake_2, cx_handshake_bytes := 0\<rparr>
          else c1))"
  by (subst rtmp_server_input.simps) simp

lemma input_handshake_2:
  "cx_handshake_state c = Handshake_2 \<Longrightarrow> data \<noteq> [] \<Longrightarrow>
   rtmp_server_input L H now data c =
     obind (rtmp_server_send_acknowledgement L H (length data) c) (\<lambda>(_, c1).
       rtmp_chunk_read L (dispatch L H) data c1)"
  by (subst rtmp_server_input.simps) simp

text \<open>The continuation of an input call with the rest of the bytes.\<close>

definition then_input ::
  "('l, 'h) rtmp_lib \<Rightarrow> 'h rtmp_server_context_handler \<Rightarrow> u32 \<times> u32 \<Rightarrow> bytes
   \<Rightarrow> int \<times> ('l, 'h) rtmp_ctx \<Rightarrow> (int \<times> ('l, 'h) rtmp_ctx) outcome" where
  "then_input L H now data = (\<lambda>(r, c). if r \<noteq> 0 then Inr (r, c) else rtmp_server_input L H now data c)"

lemma then_input_simps [simp]:
  "then_input L H now data (0, c) = rtmp_server_input L H now data c"
  "r \<noteq> 0 \<Longrightarrow> then_input L H now data (r, c) = Inr (r, c)"
  by (simp_all add: then_input_def)

text \<open>A call that does not fill the store only moves bytes into it.\<close>

lemma input_short:
  assumes "cx_handshake_state c \<in> {Handshake_0, Handshake_1}" "d1 \<noteq> []"
    and "cx_handshake_bytes c + length d1 < RTMP_HANDSHAKE_SIZE (lib_consts L)"
  shows "rtmp_server_input L H now (d1 @ d2) c =
     obind (rtmp_server_input L H now d1 c) (then_input L H now d2)"
proof (cases "store_handshake L d1 c")
  case (Inl e)
  with assms show ?thesis
    by (auto simp: input_handshake_0 input_handshake_1 store_handshake_split [OF assms(3)])
next
  case (Inr p)
  obtain n c1 where p: "p = (n, c1)" by (cases p)
  with Inr have st: "store_handshake L d1 c = Inr (n, c1)" by simp
  from store_handshake_result [OF st] assms
  have n: "n = length d1" and s: "cx_handshake_state c1 = cx_handshake_state c"
    and b: "cx_handshake_bytes c1 < RTMP_HANDSHAKE_SIZE (lib_consts L)" by auto
  have d1: "rtmp_server_input L H now d1 c = Inr (0, c1)"
    using assms(1,2) st n b by (auto simp: input_handshake_0 input_handshake_1)
  have "rtmp_server_input L H now (d1 @ d2) c = rtmp_server_input L H now d2 c1"
  proof (cases "d2 = []")
    case True
    with d1 show ?thesis by simp
  next
    case False
    from assms(1) have "cx_handshake_state c = Handshake_0 \<or> cx_handshake_state c = Handshake_1"
      by simp
    then show ?thesis
      using False assms(2) s n st
      by (auto simp: input_handshake_0 input_handshake_1 store_handshake_split [OF assms(3)]
          obind_assoc intro!: obind_cong)
  qed
  with d1 show ?thesis by simp
qed

lemma input_append:
  assumes "length d1 \<le> handshake_left L c" "wf_handshake L c"
  shows "rtmp_server_input L H now (d1 @ d2) c =
     obind (rtmp_server_input L H now d1 c) (then_input L H now d2)"
  using assms
proof (induction "length d1" arbitrary: d1 c rule: less_induct)
  case less
  let ?n = "RTMP_HANDSHAKE_SIZE (lib_consts L)"
  show ?case
  proof (cases "d1 = []")
    case True
    then show ?thesis by simp
  next
    case ne: False
    then obtain x xs where d1: "d1 = x # xs" by (cases d1) auto
    show ?thesis
    proof (cases "cx_handshake_state c")
      case Handshake_uninit
      let ?c = "c\<lparr>cx_handshake_state := Handshake_0, cx_handshake_bytes := 0\<rparr>"
      have "rtmp_server_input L H now (xs @ d2) ?c =
          obind (rtmp_server_input L H now xs ?c) (then_input L H now d2)"
        using less.prems Handshake_uninit
        by (intro less.hyps) (auto simp: d1 handshake_left_def wf_handshake_def Let_def)
      with Handshake_uninit show ?thesis by (simp add: d1 input_uninit obind_assoc)
    next
      case Handshake_0
      show ?thesis
      proof (cases "cx_handshake_bytes c + length d1 < ?n")
        case True
        with Handshake_0 ne show ?thesis by (intro input_short) simp_all
      next
        case False
        have step: "rtmp_server_input L H now (drop k d1 @ d2) c2 =
            obind (rtmp_server_input L H now (drop k d1) c2) (then_input L H now d2)"
          if "k = ?n - cx_handshake_bytes c" "cx_handshake_state c2 = Handshake_1"
            "cx_handshake_bytes c2 = 0" for k c2
          using less.prems Handshake_0 False that ne
          by (intro less.hyps) (auto simp: handshake_left_def wf_handshake_def Let_def d1)
        show ?thesis
        proof (cases "store_handshake L d1 c")
          case (Inl e)
          with False Handshake_0 ne show ?thesis
            by (simp add: input_handshake_0 store_handshake_full)
        next
          case (Inr p)
          obtain n c1 where st: "store_handshake L d1 c = Inr (n, c1)"
            using Inr by (cases p) simp
          from store_handshake_result [OF st] False Handshake_0
          have n: "n = ?n - cx_handshake_bytes c" "n \<le> length d1"
            and full: "cx_handshake_bytes c1 = ?n"
            using less.prems(2) by (auto simp: wf_handshake_def)
          let ?c = "c1\<lparr>cx_handshake_state := Handshake_1, cx_handshake_bytes := 0\<rparr>"
          have cont: "(if r \<noteq> 0 then Inr (r, c2) else rtmp_server_input L H now (drop n d1 @ d2) c2) =
              obind (if r \<noteq> 0 then Inr (r, c2) else rtmp_server_input L H now (drop n d1) c2)
                (then_input L H now d2)"
            if "rtmp_server_send_handshake L H now ?c = Inr (r, c2)" for r c2
            using send_handshake_state [OF that] step [OF n(1)] by simp
          let ?f = "\<lambda>d (r, c2). if r \<noteq> 0 then Inr (r, c2) else rtmp_server_input L H now d c2"
          have "rtmp_server_input L H now (d1 @ d2) c =
              obind (rtmp_server_send_handshake L H now ?c) (?f (drop n (d1 @ d2)))"
            using False Handshake_0 ne st full by (simp add: input_handshake_0 store_handshake_full)
          also have "drop n (d1 @ d2) = drop n d1 @ d2" using n(2) by simp
          also have "obind (rtmp_server_send_handshake L H now ?c) (?f (drop n d1 @ d2)) =
              obind (rtmp_server_send_handshake L H now ?c)
                (\<lambda>p. obind (?f (drop n d1) p) (then_input L H now d2))"
            by (rule obind_cong [OF refl]) (auto simp: cont split del: if_split)
          also have "\<dots> = obind (rtmp_server_input L H now d1 c) (then_input L H now d2)"
            using Handshake_0 ne st full by (simp add: input_handshake_0 obind_assoc)
          finally show ?thesis .
        qed
      qed
    next
      case Handshake_1
      show ?thesis
      proof (cases "cx_handshake_bytes c + length d1 < ?n")
        case True
        with Handshake_1 ne show ?thesis by (intro input_short) simp_all
      next
        case False
        with less.prems(1) Handshake_1 have "length d1 = ?n - cx_handshake_bytes c"
          by (simp add: handshake_left_def Let_def)
        with False Handshake_1 ne show ?thesis
          by (auto simp: input_handshake_1 store_handshake_full obind_assoc
              dest!: store_handshake_result intro!: obind_cong split: prod.splits)
      qed
    next
      case Handshake_2
      with less.prems ne show ?thesis by (simp add: handshake_left_def)
    qed
  qed
qed

text \<open>A call that returns 0 during the handshake has consumed all of its input.\<close>

lemma input_progress:
  assumes "rtmp_server_input L H now d c = Inr (0, c')"
    and "length d \<le> handshake_left L c" "wf_handshake L c"
  shows "wf_handshake L c' \<and> handshake_left L c' = handshake_left L c - length d"
  using assms
proof (induction "length d" arbitrary: d c rule: less_induct)
  case less
  let ?n = "RTMP_HANDSHAKE_SIZE (lib_consts L)"
  show ?case
  proof (cases d)
    case Nil
    with less.prems show ?thesis by simp
  next
    case d: (Cons x xs)
    show ?thesis
    proof (cases "cx_handshake_state c")
      case Handshake_uninit
      let ?c = "c\<lparr>cx_handshake_state := Handshake_0, cx_handshake_bytes := 0\<rparr>"
      from less.prems(1) Handshake_uninit have "rtmp_server_input L H now xs ?c = Inr (0, c')"
        by (auto simp: d input_uninit obind_eq_Inr)
      then have "wf_handshake L c' \<and> handshake_left L c' = handshake_left L ?c - length xs"
        using less.prems(2,3) Handshake_uninit
        by (intro less.hyps) (auto simp: d handshake_left_def wf_handshake_def Let_def)
      with Handshake_uninit show ?thesis by (simp add: d handshake_left_def Let_def)
    next
      case Handshake_0
      with less.prems(1) d obtain n c1 where st: "store_handshake L d c = Inr (n, c1)"
        by (auto simp: input_handshake_0 obind_eq_Inr)
      from store_handshake_result [OF st] Handshake_0 less.prems(3)
      have c1: "cx_handshake_state c1 = Handshake_0" "cx_handshake_bytes c1 = cx_handshake_bytes c + n"
        and n: "n = min (?n - cx_handshake_bytes c) (length d)" "cx_handshake_bytes c < ?n"
        by (auto simp: wf_handshake_def)
      from n d have "0 < n" by auto
      have rest: "wf_handshake L c' \<and> handshake_left L c' = handshake_left L c2 - length (drop n d)"
        if "rtmp_server_input L H now (drop n d) c2 = Inr (0, c')"
          "length (drop n d) \<le> handshake_left L c2" "wf_handshake L c2" for c2
        using that \<open>0 < n\<close> d by (intro less.hyps) auto
      show ?thesis
      proof (cases "cx_handshake_bytes c1 = ?n")
        case True
        with less.prems(1) Handshake_0 d st obtain c2 where
          "rtmp_server_send_handshake L H now
             (c1\<lparr>cx_handshake_state := Handshake_1, cx_handshake_bytes := 0\<rparr>) = Inr (0, c2)"
          and c': "rtmp_server_input L H now (drop n d) c2 = Inr (0, c')"
          by (auto simp: input_handshake_0 obind_eq_Inr split: if_splits)
        from send_handshake_state [OF this(1)] rest [OF c'] less.prems(2,3) n c1 True Handshake_0
        show ?thesis by (auto simp: handshake_left_def wf_handshake_def Let_def)
      next
        case False
        with less.prems(1) Handshake_0 d st have "rtmp_server_input L H now (drop n d) c1 = Inr (0, c')"
          by (auto simp: input_handshake_0 obind_eq_Inr)
        from rest [OF this] less.prems(2,3) n c1 False Handshake_0
        show ?thesis by (auto simp: handshake_left_def wf_handshake_def Let_def)
      qed
    next
      case Handshake_1
      with less.prems(1) d obtain n c1 where st: "store_handshake L d c = Inr (n, c1)"
        by (auto simp: input_handshake_1 obind_eq_Inr)
      from store_handshake_result [OF st] Handshake_1 less.prems(2,3)
      have "n = length d" "cx_handshake_state c1 = Handshake_1"
        "cx_handshake_bytes c1 = cx_handshake_bytes c + n"
        by (auto simp: wf_handshake_def handshake_left_def)
      with less.prems Handshake_1 d st show ?thesis
        by (auto simp: input_handshake_1 handshake_left_def wf_handshake_def Let_def split: if_splits)
    next
      case Handshake_2
      with less.prems d show ?thesis by (simp add: handshake_left_def)
    qed
  qed
qed

text \<open>A sequence of calls, one for every read of the socket, that stops at an error.\<close>

fun feed_inputs ::
  "('l, 'h) rtmp_lib \<Rightarrow> 'h rtmp_server_context_handler \<Rightarrow> u32 \<times> u32 \<Rightarrow> bytes list \<Rightarrow> ('l, 'h) ctx_step" where
  "feed_inputs L H now [] c = Inr (0, c)"
| "feed_inputs L H now (d # ds) c =
     obind (rtmp_server_input L H now d c)
       (\<lambda>(r, c1). if r \<noteq> 0 then Inr (r, c1) else feed_inputs L H now ds c1)"

lemma feed_inputs_concat:
  assumes "length (concat ds) \<le> handshake_left L c" "wf_handshake L c"
  shows "feed_inputs L H now ds c = rtmp_server_input L H now (concat ds) c"
  using assms
proof (induction ds arbitrary: c)
  case Nil
  then show ?case by simp
next
  case (Cons d ds)
  have "rtmp_server_input L H now (d @ concat ds) c =
      obind (rtmp_server_input L H now d c) (then_input L H now (concat ds))"
    using Cons.prems by (intro input_append) simp_all
  also have "\<dots> = feed_inputs L H now (d # ds) c"
  proof -
    have "feed_inputs L H now ds c1 = rtmp_server_input L H now (concat ds) c1"
      if "rtmp_server_input L H now d c = Inr (0, c1)" for c1
      using input_progress [OF that] Cons.prems by (intro Cons.IH) auto
    then show ?thesis by (auto simp: then_input_def intro!: obind_cong)
  qed
  finally show ?case by simp
qed

subsection \<open>A complete handshake\<close>

text \<open>The lengths that the RTMP specification gives the three answers.\<close>

definition handshake_sizes :: "('l, 'h) rtmp_lib \<Rightarrow> bool" where
  "handshake_sizes L \<longleftrightarrow>
     (let n = RTMP_HANDSHAKE_SIZE (lib_consts L)
      in 0 < n \<and> (\<forall>v. length (rtmp_handshake_s0 (lib_writers L) v) = 1)
         \<and> (\<forall>t p. length p = n \<longrightarrow> length (rtmp_handshake_s1 (lib_writers L) t p) = n)
         \<and> (\<forall>t p. length p = n \<longrightarrow> length (rtmp_handshake_s2 (lib_writers L) t p) = n))"

lemma handshake_run:
  assumes "logs_frames H" "handshake_sizes L" "cx_handshake_state c = Handshake_uninit"
    and "RTMP_HANDSHAKE_SIZE (lib_consts L) \<le> length (cx_payload c)"
    and "v \<le> RTMP_VERSION (lib_consts L)"
    and "length C1 = RTMP_HANDSHAKE_SIZE (lib_consts L)" "length C2 = RTMP_HANDSHAKE_SIZE (lib_consts L)"
  shows "\<exists>c'. rtmp_server_input L H now (v # C1 @ C2) c = Inr (0, c')
     \<and> cx_handshake_state c' = Handshake_2
     \<and> cx_user c' = cx_user c @ [rtmp_handshake_s0 (lib_writers L) (RTMP_VERSION (lib_consts L))
          @ rtmp_handshake_s1 (lib_writers L) (fst now) C1
          @ rtmp_handshake_s2 (lib_writers L) (snd now) C1]"
proof -
  let ?n = "RTMP_HANDSHAKE_SIZE (lib_consts L)"
  let ?c0 = "c\<lparr>cx_handshake_state := Handshake_0, cx_handshake_bytes := 0\<rparr>"
  let ?c1 = "c\<lparr>cx_handshake_state := Handshake_0, cx_handshake_bytes := ?n,
                cx_payload := C1 @ drop ?n (cx_payload c)\<rparr>"
  let ?c2 = "?c1\<lparr>cx_handshake_state := Handshake_1, cx_handshake_bytes := 0\<rparr>"
  let ?reply = "rtmp_handshake_s0 (lib_writers L) (RTMP_VERSION (lib_consts L))
          @ rtmp_handshake_s1 (lib_writers L) (fst now) C1
          @ rtmp_handshake_s2 (lib_writers L) (snd now) C1"
  from assms(2) have n: "0 < ?n" by (simp add: handshake_sizes_def Let_def)
  with assms(6,7) have ne: "C1 \<noteq> []" "C2 \<noteq> []" by auto
  have reply: "length ?reply = 1 + ?n + ?n"
    using assms(2,6) by (simp add: handshake_sizes_def Let_def)
  have st0: "store_handshake L (C1 @ C2) ?c0 = Inr (?n, ?c1)"
    using assms(4,6,7) n by (simp add: store_handshake_def Let_def)
  obtain c3 where hs: "rtmp_server_send_handshake L H now ?c2 = Inr (0, c3)"
    and c3: "cx_handshake_state c3 = Handshake_1" "cx_handshake_bytes c3 = 0"
      "cx_payload c3 = C1 @ drop ?n (cx_payload c)" "cx_user c3 = cx_user c @ [?reply]"
    using assms(1,6) reply
    by (simp add: rtmp_server_send_handshake_def Let_def ctx_send_logs fixed_append_data_def)
  have st1: "store_handshake L C2 c3 = Inr (?n, c3\<lparr>cx_handshake_bytes := ?n,
      cx_payload := C2 @ drop ?n (cx_payload c3)\<rparr>)"
    using assms(4,6,7) n c3 by (simp add: store_handshake_def Let_def)
  have "rtmp_server_input L H now (v # C1 @ C2) c = rtmp_server_input L H now C2 c3"
    using assms(3,5,6) ne st0 hs by (simp add: input_uninit input_handshake_0)
  also have "\<dots> = Inr (0, c3\<lparr>cx_payload := C2 @ drop ?n (cx_payload c3),
      cx_handshake_state := Handshake_2, cx_handshake_bytes := 0\<rparr>)"
    using c3 ne st1 assms(7) by (simp add: input_handshake_1)
  finally show ?thesis using c3 by simp
qed

text \<open>
  C3. A client whose version byte is acceptable is served the handshake however its bytes
  arrive: for every way to cut C0 C1 C2 into reads, all calls return 0, the server answers
  exactly once, with S0 S1 S2 built from C1, and it then reads chunks.
\<close>

theorem handshake_served:
  assumes "logs_frames H" "handshake_sizes L" "cx_handshake_state c = Handshake_uninit"
    and "RTMP_HANDSHAKE_SIZE (lib_consts L) \<le> length (cx_payload c)"
    and "v \<le> RTMP_VERSION (lib_consts L)"
    and "length C1 = RTMP_HANDSHAKE_SIZE (lib_consts L)" "length C2 = RTMP_HANDSHAKE_SIZE (lib_consts L)"
    and "concat ds = v # C1 @ C2"
  shows "\<exists>c'. feed_inputs L H now ds c = Inr (0, c')
     \<and> cx_handshake_state c' = Handshake_2
     \<and> cx_user c' = cx_user c @ [rtmp_handshake_s0 (lib_writers L) (RTMP_VERSION (lib_consts L))
          @ rtmp_handshake_s1 (lib_writers L) (fst now) C1
          @ rtmp_handshake_s2 (lib_writers L) (snd now) C1]"
proof -
  have "feed_inputs L H now ds c = rtmp_server_input L H now (concat ds) c"
    using assms
    by (intro feed_inputs_concat)
      (simp_all add: handshake_left_def wf_handshake_def handshake_sizes_def Let_def)
  with handshake_run [OF assms(1-7)] assms(8) show ?thesis by simp
qed

lemma handshake_sizes_demo: "handshake_sizes demo_lib"
  by (simp add: handshake_sizes_def demo_lib_def demo_consts_def demo_writers_def)

theorem handshake_served_witness:
  "\<exists>c'. feed_inputs demo_lib demo_handler (7, 8) [[3, 1], [2, 3], [], [4, 9, 9, 9], [9]]
          (ctx_init demo_lib () []) = Inr (0, c')
     \<and> cx_handshake_state c' = Handshake_2 \<and> cx_user c' = [[3, 1, 2, 3, 4, 1, 2, 3, 4]]"
  using handshake_served [of demo_handler demo_lib "ctx_init demo_lib () []" 3 "[1, 2, 3, 4]"
      "[9, 9, 9, 9]" "[[3, 1], [2, 3], [], [4, 9, 9, 9], [9]]" "(7, 8)"] handshake_sizes_demo
  by (simp add: demo_lib_def demo_consts_def demo_writers_def ctx_init_def Let_def)

lemma put_payload_simps [simp]:
  "cx_rtmp (put_payload enc c) = cx_rtmp c" "cx_user (put_payload enc c) = cx_user c"
  "cx_info (put_payload enc c) = cx_info c" "cx_stream_id (put_payload enc c) = cx_stream_id c"
  "cx_recv_bytes0 (put_payload enc c) = cx_recv_bytes0 c"
  "cx_recv_bytes1 (put_payload enc c) = cx_recv_bytes1 c"
  "cx_start_play (put_payload enc c) = cx_start_play c"
  by (simp_all add: put_payload_def)

lemma send_payload_logs:
  "logs_frames H \<Longrightarrow>
   send_payload H enc c = Inr (0, (put_payload enc c)\<lparr>cx_user := cx_user c @ [enc]\<rparr>)"
  by (simp add: send_payload_def ctx_send_logs fixed_append_data_def)

subsection \<open>The acknowledgement window\<close>



subsection \<open>The answer to connect\<close>

text \<open>
  C17. A \<^verbatim>\<open>connect\<close> in either AMF encoding and with transaction id 1 is answered in the
  order the protocol asks for: window acknowledgement size, peer bandwidth, chunk size,
  and then the reply, which is written by a writer that already uses the announced chunk
  size; the application name is remembered.
\<close>

theorem connect_answer:
  assumes "logs_frames H" "trunc t = 1"
    and "ci_encoding info = RTMP_ENCODING_AMF_0 (lib_consts L)
       \<or> ci_encoding info = RTMP_ENCODING_AMF_3 (lib_consts L)"
  shows "\<exists>c'. rtmp_server_onconnect L H 0 t info c =
       (let enc = rtmp_netconnection_connect_reply (lib_writers L) t ''FMS/3,0,1,123'' 31
                    ''NetConnection.Connect.Success'' (RTMP_LEVEL_STATUS (lib_consts L))
                    ''Connection Succeeded.'' (ci_encoding info)
        in rtmp_server_send_control L H enc 0 (put_payload enc c'))
     \<and> cx_info c' = info \<and> out_chunk_size (cx_rtmp c') = RTMP_OUTPUT_CHUNK_SIZE
     \<and> out_packets (cx_rtmp c') = out_packets (cx_rtmp c)
     \<and> cx_user c' = cx_user c @
        [rtmp_window_acknowledgement_size (lib_writers L) (window_size (cx_rtmp c)),
         rtmp_set_peer_bandwidth (lib_writers L) (peer_bandwidth (cx_rtmp c))
           (RTMP_BANDWIDTH_LIMIT_DYNAMIC (lib_consts L)),
         rtmp_set_chunk_size (lib_writers L) RTMP_OUTPUT_CHUNK_SIZE]"
proof -
  let ?W = "lib_writers L" and ?c0 = "c\<lparr>cx_info := info\<rparr>"
  define c1 where "c1 = (let enc = rtmp_window_acknowledgement_size ?W (window_size (cx_rtmp c))
    in (put_payload enc ?c0)\<lparr>cx_user := cx_user c @ [enc]\<rparr>)"
  define c2 where "c2 = (let enc = rtmp_set_peer_bandwidth ?W (peer_bandwidth (cx_rtmp c))
      (RTMP_BANDWIDTH_LIMIT_DYNAMIC (lib_consts L))
    in (put_payload enc c1)\<lparr>cx_user := cx_user c1 @ [enc]\<rparr>)"
  define c3 where "c3 = (let enc = rtmp_set_chunk_size ?W RTMP_OUTPUT_CHUNK_SIZE;
      c' = (put_payload enc c2)\<lparr>cx_user := cx_user c2 @ [enc]\<rparr>
    in c'\<lparr>cx_rtmp := (cx_rtmp c')\<lparr>out_chunk_size := RTMP_OUTPUT_CHUNK_SIZE\<rparr>\<rparr>)"
  have "rtmp_server_send_server_bandwidth L H ?c0 = Inr (0, c1)"
    "rtmp_server_send_client_bandwidth L H c1 = Inr (0, c2)"
    "rtmp_server_send_set_chunk_size L H c2 = Inr (0, c3)"
    using assms(1)
    by (simp_all add: rtmp_server_send_server_bandwidth_def rtmp_server_send_client_bandwidth_def
        rtmp_server_send_set_chunk_size_def send_payload_logs c1_def c2_def c3_def Let_def)
  with assms(2,3) show ?thesis
    by (intro exI [of _ c3])
      (auto simp: rtmp_server_onconnect_def if_ok_def Let_def c1_def c2_def c3_def)
qed

theorem connect_answer_witness:
  "\<exists>c'. rtmp_server_onconnect demo_lib demo_handler 0 1
         \<lparr>ci_app = ''live'', ci_encoding = 3\<rparr> demo_ctx =
       rtmp_server_send_control demo_lib demo_handler (bytes_of ''NetConnection.Connect.Success'') 0
         (put_payload (bytes_of ''NetConnection.Connect.Success'') c')
     \<and> out_chunk_size (cx_rtmp c') = 65535
     \<and> cx_user c' = [[5], [6, 2], [1]]"
  using connect_answer [of demo_handler 1 "\<lparr>ci_app = ''live'', ci_encoding = 3\<rparr>" demo_lib demo_ctx]
  by (auto simp: demo_writers_def demo_consts_def trunc_def RTMP_OUTPUT_CHUNK_SIZE_def Let_def)

subsection \<open>Inputs that end the process\<close>



subsection \<open>Play and publish\<close>

lemma start_onplay_clears:
  "start_onplay L H r msg c = Inr (0, c') \<Longrightarrow> cx_start_play c' = Start_none"
  by (auto simp: start_onplay_def obind_eq_Inr Let_def split: if_splits)

lemma start_onpublish_clears:
  "start_onpublish L H r msg c = Inr (0, c') \<Longrightarrow> cx_start_play c' = Start_none"
  by (auto simp: start_onpublish_def obind_eq_Inr Let_def split: if_splits)


lemma rtmp_server_send_logs:
  "logs_frames H \<Longrightarrow> rtmp_server_send H header payload c =
     Inr (0, c\<lparr>cx_user := cx_user c @ [header @ payload]\<rparr>)"
  by (simp add: rtmp_server_send_def ctx_send_logs fixed_append_data_def)


text \<open>
  An empty message is recorded but not sent: the writer replaces the slot of the chunk
  stream, with which it compresses the next header, and hands nothing to the owner. The
  receiver therefore loses the difference of the time stamps.
\<close>

theorem empty_message_recorded:
  assumes "logs_frames H" "rtmp_chunk_header_zip_help (cx_rtmp c) header = Inr (h, rt)"
    and "hdr_length header = 0" and "0 < unat (out_chunk_size (cx_rtmp c))"
  shows "rtmp_chunk_write_help L H header frame c = Inr (0, c\<lparr>cx_rtmp := rt\<rparr>)
     \<and> (\<exists>i < length (out_packets rt). out_packets rt ! i =
          \<lparr>pkt_header = h, pkt_clock = hdr_timestamp header\<rparr>)"
proof -
  obtain i where "i < length (out_packets (cx_rtmp c))"
    and "rt = (cx_rtmp c)\<lparr>out_packets := (out_packets (cx_rtmp c))
           [i := \<lparr>pkt_header = h, pkt_clock = hdr_timestamp header\<rparr>]\<rparr>"
    and h: "h = compress_header (out_packets (cx_rtmp c) ! i) header"
    using assms(2) by (elim zip_help_result) blast
  then have "\<exists>i < length (out_packets rt). out_packets rt ! i =
          \<lparr>pkt_header = h, pkt_clock = hdr_timestamp header\<rparr>" by auto
  with chunk_write_help_logs [OF assms(1,2)] assms(3,4) show ?thesis
    by (simp add: chunk_plan_def)
qed

definition demo_empty_header :: chunk_header where
  "demo_empty_header = demo_header\<lparr>hdr_timestamp := 60, hdr_length := 0\<rparr>"

text \<open>
  Three messages, at 40, 60 and 80 ms, the second empty: the headers of the first and the
  third reach the receiver, which takes the third for a message of 60 ms.
\<close>

theorem empty_message_recorded_witness:
  "\<exists>c1 w1 w2 w3 rt3. rtmp_chunk_write_help demo_lib demo_handler demo_empty_header
        (Fixed fixed_create) demo_ctx = Inr (0, c1) \<and> cx_user c1 = []
     \<and> send_headers [demo_header, demo_empty_header, demo_header\<lparr>hdr_timestamp := 80\<rparr>] demo_rtmp
         = Inr ([w1, w2, w3], rt3)
     \<and> receive_headers [w1, w3] (\<lambda>_. zero_receiver) = [(40, 5, 9, 1), (60, 5, 9, 1)]"
proof -
  obtain h rt where zip: "rtmp_chunk_header_zip_help demo_rtmp demo_empty_header = Inr (h, rt)"
    by (simp add: rtmp_chunk_header_zip_help_def rtmp_packet_find_help_def demo_empty_header_def
      demo_header_def demo_rtmp_def empty_header_def slot_of_def compress_header_def upt_rec Let_def)
  have "rtmp_chunk_write_help demo_lib demo_handler demo_empty_header (Fixed fixed_create) demo_ctx
      = Inr (0, demo_ctx\<lparr>cx_rtmp := rt\<rparr>)"
    using empty_message_recorded [of demo_handler demo_ctx demo_empty_header h rt demo_lib] zip
    by (simp add: demo_empty_header_def)
  moreover have "\<exists>w1 w2 w3 rt3. send_headers
      [demo_header, demo_empty_header, demo_header\<lparr>hdr_timestamp := 80\<rparr>] demo_rtmp
         = Inr ([w1, w2, w3], rt3)
     \<and> receive_headers [w1, w3] (\<lambda>_. zero_receiver) = [(40, 5, 9, 1), (60, 5, 9, 1)]"
    by (simp add: rtmp_chunk_header_zip_help_def rtmp_packet_find_help_def demo_empty_header_def
      demo_header_def demo_rtmp_def empty_header_def slot_of_def compress_header_def wire_of_def
      message_of_def zero_receiver_def upt_rec Let_def)
  ultimately show ?thesis by auto
qed

end
