(* ===== verification/Registry.thy ===== *)
theory Registry
  imports Rtmp_Codec
begin

text \<open>
  Channels (\<^verbatim>\<open>channel.h\<close>, \<^verbatim>\<open>channel.cc\<close>) and the process-wide registry of sinks
  (\<^verbatim>\<open>sink.h\<close>, \<^verbatim>\<open>sink.cpp\<close>), which connects a publisher to the sessions that forward
  its stream: a source adds its sinks under \<^verbatim>\<open>rtmp_app_stream\<close> and
  \<^verbatim>\<open>rtsp_app_stream\<close>, a forward session looks one up by that name.

  Every operation of the registry holds \<^verbatim>\<open>sinks_mutex_\<close> for its whole body, so an
  execution is a sequence of these operations.
\<close>

subsection \<open>Channels\<close>

text \<open>A channel is its output callback, if one was set.\<close>

type_synonym 's output_cb = "frame_ptr \<Rightarrow> error_code option \<Rightarrow> 's \<Rightarrow> 's"

record 's channel =
  ch_output :: "'s output_cb option"

definition channel_set_output :: "'s output_cb \<Rightarrow> 's channel \<Rightarrow> 's channel" where
  "channel_set_output out ch = ch\<lparr>ch_output := Some out\<rparr>"

definition channel_write :: "'s channel \<Rightarrow> frame_ptr \<Rightarrow> error_code option \<Rightarrow> 's \<Rightarrow> 's" where
  "channel_write ch frame ec s =
     (case ch_output ch of None \<Rightarrow> s | Some out \<Rightarrow> out frame ec s)"

lemma channel_write_unset [simp]: "ch_output ch = None \<Longrightarrow> channel_write ch frame ec s = s"
  by (simp add: channel_write_def)

lemma channel_write_set [simp]:
  "channel_write (channel_set_output out ch) frame ec s = out frame ec s"
  by (simp add: channel_write_def channel_set_output_def)

subsection \<open>Tables by name\<close>

text \<open>
  The contract of a table that is filled by name and looked up by name, and of one from
  which names are also removed.
\<close>

locale name_table =
  fixes find :: "'m \<Rightarrow> 'k \<Rightarrow> 'v option"
    and put :: "'k \<Rightarrow> 'v \<Rightarrow> 'm \<Rightarrow> 'm"
  assumes find_put: "find (put k v m) k' = (if k' = k then Some v else find m k')"
begin

lemma find_put_same: "find (put k v m) k = Some v"
  by (simp add: find_put)

lemma find_put_other: "k' \<noteq> k \<Longrightarrow> find (put k v m) k' = find m k'"
  by (simp add: find_put)

lemma put_put: "find (put k v (put k w m)) = find (put k v m)"
  by (rule ext) (simp add: find_put)

lemma put_commute: "k \<noteq> l \<Longrightarrow> find (put k v (put l w m)) = find (put l w (put k v m))"
  by (rule ext) (auto simp: find_put)

text \<open>After a series of entries, a name is found with the last value entered for it.\<close>

lemma find_puts:
  "find (fold (\<lambda>(k, v). put k v) kvs m) k =
     (case map_of (rev kvs) k of None \<Rightarrow> find m k | Some v \<Rightarrow> Some v)"
proof (induction kvs arbitrary: m)
  case Nil
  then show ?case by simp
next
  case (Cons kv kvs)
  then show ?case
    by (cases kv) (simp add: map_add_def find_put split: option.splits)
qed

end

locale name_registry = name_table find put
    for find :: "'m \<Rightarrow> 'k \<Rightarrow> 'v option" and put :: "'k \<Rightarrow> 'v \<Rightarrow> 'm \<Rightarrow> 'm" +
  fixes del :: "'k \<Rightarrow> 'm \<Rightarrow> 'm"
  assumes find_del: "find (del k m) k' = (if k' = k then None else find m k')"
begin

lemma find_del_same: "find (del k m) k = None"
  by (simp add: find_del)

lemma find_del_other: "k' \<noteq> k \<Longrightarrow> find (del k m) k' = find m k'"
  by (simp add: find_del)

lemma del_put: "find (del k (put k v m)) = find (del k m)"
  by (rule ext) (simp add: find_put find_del)

end

subsection \<open>The registry of sinks\<close>

type_synonym 's sinks = "string \<rightharpoonup> 's"

definition sink_get :: "'s sinks \<Rightarrow> string \<Rightarrow> 's option" where
  "sink_get sinks sid = sinks sid"

text \<open>\<^verbatim>\<open>sink::add\<close> files the sink under its own \<^verbatim>\<open>id()\<close>.\<close>

definition sink_add :: "('s \<Rightarrow> string) \<Rightarrow> 's \<Rightarrow> 's sinks \<Rightarrow> 's sinks" where
  "sink_add ident s sinks = sinks(ident s \<mapsto> s)"

definition sink_del :: "string \<Rightarrow> 's sinks \<Rightarrow> 's sinks" where
  "sink_del sid sinks = sinks(sid := None)"

interpretation sinks: name_registry
  "sink_get" "\<lambda>k v. sink_add (\<lambda>_. k) v" "sink_del"
  by unfold_locales (simp_all add: sink_get_def sink_add_def sink_del_def)

lemma sink_get_add: "sink_get (sink_add ident s sinks) sid =
    (if sid = ident s then Some s else sink_get sinks sid)"
  by (simp add: sink_get_def sink_add_def)

subsection \<open>Sets of channels\<close>

text \<open>
  \<^verbatim>\<open>std::set<channel::ptr>\<close> is ordered by address and is walked in that order: a
  sorted list without repetitions of channel addresses.
\<close>

type_synonym channel_ref = nat

definition chs_insert :: "channel_ref \<Rightarrow> channel_ref list \<Rightarrow> channel_ref list" where
  "chs_insert ch chs = insort_insert ch chs"

definition chs_erase :: "channel_ref \<Rightarrow> channel_ref list \<Rightarrow> channel_ref list" where
  "chs_erase ch chs = remove1 ch chs"

definition wf_chs :: "channel_ref list \<Rightarrow> bool" where
  "wf_chs chs \<longleftrightarrow> sorted chs \<and> distinct chs"

lemma wf_chs_Nil [simp]: "wf_chs []"
  by (simp add: wf_chs_def)

lemma wf_chs_insert [wf_intros]: "wf_chs chs \<Longrightarrow> wf_chs (chs_insert ch chs)"
  by (simp add: wf_chs_def chs_insert_def sorted_insort_insert distinct_insort_insert)

lemma wf_chs_erase [wf_intros]: "wf_chs chs \<Longrightarrow> wf_chs (chs_erase ch chs)"
  by (simp add: wf_chs_def chs_erase_def sorted_remove1)

lemma set_chs_insert [simp]: "set (chs_insert ch chs) = insert ch (set chs)"
  by (simp add: chs_insert_def set_insort_insert)

lemma set_chs_erase [simp]: "wf_chs chs \<Longrightarrow> set (chs_erase ch chs) = set chs - {ch}"
  by (simp add: chs_erase_def wf_chs_def)

end
