(* ===== verification/Frame_Filter.thy ===== *)
theory Frame_Filter
  imports Registry
begin

text \<open>
  What the decoders and encoders of a stream have in common (\<^verbatim>\<open>rtmp_decoder.h\<close>,
  \<^verbatim>\<open>rtmp_encoder.h\<close>, \<^verbatim>\<open>rtsp_encoder.h\<close>): an object with a channel as its output,
  whose \<^verbatim>\<open>write\<close> takes a frame with an error code and writes any number of frames to the
  channel. One call is a step that returns what was written and the new state.

  The classes share a contract that their sources and sinks rely on, the locale
  \<open>frame_filter\<close>: an error code is handed on at once with its frame, the output is not
  changed, and nothing is written while no output is set. An encoder makes no error codes
  of its own (\<open>frame_encoder\<close>).
\<close>

type_synonym 's frame_step = "'s \<Rightarrow> delivery \<Rightarrow> (delivery list \<times> 's) outcome"

text \<open>\<^verbatim>\<open>on_frame\<close>: write to the channel if there is one.\<close>

definition on_frame :: "channel_ref option \<Rightarrow> frame_ptr \<Rightarrow> error_code option \<Rightarrow> delivery list" where
  "on_frame ch frame ec = (if ch = None then [] else [(frame, ec)])"

lemma on_frame_simps [simp, frame_simps]:
  "on_frame None f ec = []" "on_frame (Some c) f ec = [(f, ec)]"
  by (simp_all add: on_frame_def)

lemma on_frame_eq_Nil [simp]: "on_frame ch f ec = [] \<longleftrightarrow> ch = None"
  by (simp add: on_frame_def)

text \<open>The calls of \<^verbatim>\<open>on_frame\<close> of a loop that makes one frame after the other.\<close>

definition on_frames :: "channel_ref option \<Rightarrow> frame_buffer list \<Rightarrow> delivery list" where
  "on_frames ch fs = concat (map (\<lambda>f. on_frame ch (Some f) None) fs)"

lemma on_frames_simps [simp, frame_simps]:
  "on_frames None fs = []" "on_frames ch [] = []"
  "on_frames ch (f # fs) = on_frame ch (Some f) None @ on_frames ch fs"
  by (simp_all add: on_frames_def)

lemma on_frames_Some: "on_frames (Some c) fs = map (\<lambda>f. (Some f, None)) fs"
  by (induction fs) simp_all

definition failed :: "delivery \<Rightarrow> bool" where
  "failed d \<longleftrightarrow> snd d \<noteq> None"

lemma failed_simps [simp]: "failed (f, Some e)" "\<not> failed (f, None)"
  by (simp_all add: failed_def)

fun run_frames :: "'s frame_step \<Rightarrow> 's \<Rightarrow> delivery list \<Rightarrow> (delivery list \<times> 's) outcome" where
  "run_frames step s [] = Inr ([], s)"
| "run_frames step s (d # ds) =
     obind (step s d) (\<lambda>(os, s1). obind (run_frames step s1 ds) (\<lambda>(os', s2). Inr (os @ os', s2)))"

lemma run_frames_Cons:
  "run_frames step s (d # ds) = Inr (os, s') \<longleftrightarrow>
     (\<exists>os1 s1 os2. step s d = Inr (os1, s1) \<and> run_frames step s1 ds = Inr (os2, s') \<and> os = os1 @ os2)"
  by (auto simp: obind_eq_Inr)

lemma run_frames_ConsE:
  assumes "run_frames step s (d # ds) = Inr (os, s')"
  obtains os1 s1 os2 where "step s d = Inr (os1, s1)" "run_frames step s1 ds = Inr (os2, s')"
    "os = os1 @ os2"
  using assms by (auto simp: obind_eq_Inr)

lemma run_frames_append:
  "run_frames step s (ds @ ds') =
     obind (run_frames step s ds) (\<lambda>(os, s1).
     obind (run_frames step s1 ds') (\<lambda>(os', s2). Inr (os @ os', s2)))"
  by (induction ds arbitrary: s) (auto simp: obind_assoc split_def intro!: obind_cong)

lemma failed_on_frame [simp]: "d \<in> set (on_frame ch f None) \<Longrightarrow> \<not> failed d"
  by (auto simp: on_frame_def split: if_splits)

lemma failed_on_frames [simp]: "d \<in> set (on_frames ch fs) \<Longrightarrow> \<not> failed d"
  by (cases ch) (auto simp: on_frames_Some)

locale frame_filter =
  fixes step :: "'s frame_step" and chan :: "'s \<Rightarrow> channel_ref option"
  assumes error_passes: "step s (f, Some e) = Inr (on_frame (chan s) f (Some e), s)"
    and chan_kept: "step s d = Inr (os, s') \<Longrightarrow> chan s' = chan s"
    and silent: "step s d = Inr (os, s') \<Longrightarrow> chan s = None \<Longrightarrow> os = []"
begin

lemma run_chan: "run_frames step s ds = Inr (os, s') \<Longrightarrow> chan s' = chan s"
proof (induction ds arbitrary: s os)
  case Nil
  then show ?case by simp
next
  case (Cons d ds)
  then obtain os1 s1 os2 where "step s d = Inr (os1, s1)" "run_frames step s1 ds = Inr (os2, s')"
    by (elim run_frames_ConsE)
  with Cons.IH show ?case by (metis chan_kept)
qed

lemma run_silent: "run_frames step s ds = Inr (os, s') \<Longrightarrow> chan s = None \<Longrightarrow> os = []"
proof (induction ds arbitrary: s os)
  case Nil
  then show ?case by simp
next
  case (Cons d ds)
  then obtain os1 s1 os2 where 1: "step s d = Inr (os1, s1)"
    and 2: "run_frames step s1 ds = Inr (os2, s')" and os: "os = os1 @ os2"
    by (elim run_frames_ConsE)
  from 1 Cons.prems(2) have "os1 = []" "chan s1 = None" by (auto dest: silent chan_kept)
  with Cons.IH 2 os show ?case by simp
qed

text \<open>Errors alone never abort, and come out as they went in.\<close>

lemma run_errors:
  assumes "\<forall>d \<in> set ds. failed d" "chan s = Some c"
  shows "run_frames step s ds = Inr (ds, s)"
  using assms(1)
proof (induction ds)
  case Nil
  then show ?case by simp
next
  case (Cons d ds)
  then obtain f e where "d = (f, Some e)" by (cases d) (auto simp: failed_def)
  with Cons assms(2) show ?case by (simp add: error_passes)
qed

end

locale frame_encoder = frame_filter +
  assumes no_own_errors: "step s (f, None) = Inr (os, s') \<Longrightarrow> \<not> (\<exists>d \<in> set os. failed d)"
begin

text \<open>The error codes that leave an encoder are those that entered, in their order.\<close>

lemma run_failed:
  "run_frames step s ds = Inr (os, s') \<Longrightarrow> chan s = Some c \<Longrightarrow> filter failed os = filter failed ds"
proof (induction ds arbitrary: s os)
  case Nil
  then show ?case by simp
next
  case (Cons d ds)
  then obtain os1 s1 os2 where 1: "step s d = Inr (os1, s1)"
    and 2: "run_frames step s1 ds = Inr (os2, s')" and os: "os = os1 @ os2"
    by (elim run_frames_ConsE)
  from 1 Cons.prems(2) have "chan s1 = Some c" by (simp add: chan_kept)
  with Cons.IH 2 have rest: "filter failed os2 = filter failed ds" by simp
  obtain f ec where d: "d = (f, ec)" by (cases d)
  show ?case
  proof (cases ec)
    case None
    with 1 d have "\<not> (\<exists>d \<in> set os1. failed d)" by (auto dest: no_own_errors)
    then have "filter failed os1 = []" by (simp add: filter_empty_conv)
    with None d rest os show ?thesis by simp
  next
    case (Some e)
    with 1 d Cons.prems(2) have "os1 = [(f, Some e)]" by (simp add: error_passes)
    with Some d rest os show ?thesis by simp
  qed
qed

end

end
