(* ===== verification/Rtmp_Decoders.thy ===== *)
theory Rtmp_Decoders
  imports Frame_Filter
begin

text \<open>
  The decoders that turn the media messages of an RTMP publisher into elementary stream
  frames (\<^verbatim>\<open>rtmp_h264_decoder.cc\<close>, \<^verbatim>\<open>rtmp_hevc_decoder.cc\<close>,
  \<^verbatim>\<open>rtmp_aac_decoder.cc\<close>).

  The FLV tag readers and the AVC, HEVC and AAC configuration records come from
  libflv and libmov, outside the repository; they are the fields of \<open>flv_lib\<close>,
  \<open>avc_lib\<close>, \<open>hevc_lib\<close> and \<open>aac_lib\<close>. A reader of a tag returns the length of the
  header, or \<open>- 1\<close>. A writer that fills a caller's buffer returns its result code and the
  bytes it put at the front of the buffer.
\<close>

record video_tag =
  vt_avpacket :: int
  vt_cts :: int
  vt_keyframe :: int

record audio_tag =
  at_codecid :: int
  at_rate :: int
  at_bits :: int
  at_channels :: int
  at_avpacket :: int

record flv_lib =
  flv_video_tag_header_read :: "bytes \<Rightarrow> int \<times> video_tag"
  flv_audio_tag_header_read :: "bytes \<Rightarrow> int \<times> audio_tag"
  flv_audio_tag_header_write :: "audio_tag \<Rightarrow> nat \<Rightarrow> int \<times> bytes"

record 'a avc_lib =
  avc_nalu :: "'a \<Rightarrow> nat"
  avc_sps_bytes :: "'a \<Rightarrow> nat list"
  avc_pps_bytes :: "'a \<Rightarrow> nat list"
  avc_record_load :: "bytes \<Rightarrow> 'a"
  avc_record_save :: "'a \<Rightarrow> nat \<Rightarrow> int \<times> bytes"
  mpeg4_avc_to_nalu :: "'a \<Rightarrow> nat \<Rightarrow> int \<times> bytes"
  h264_annexbtomp4 :: "'a \<Rightarrow> bytes \<Rightarrow> nat \<Rightarrow> int \<times> int \<Rightarrow> int \<times> bytes \<times> 'a \<times> int \<times> int"
  avc_zero :: 'a
  avc_sizeof :: nat

record 'a hevc_lib =
  hevc_lengthSizeMinusOne :: "'a \<Rightarrow> nat"
  hevc_nalu_bytes :: "'a \<Rightarrow> nat list"
  hevc_record_load :: "bytes \<Rightarrow> 'a"
  hevc_record_save :: "'a \<Rightarrow> nat \<Rightarrow> int \<times> bytes"
  mpeg4_hevc_to_nalu :: "'a \<Rightarrow> nat \<Rightarrow> int \<times> bytes"
  h265_annexbtomp4 :: "'a \<Rightarrow> bytes \<Rightarrow> nat \<Rightarrow> int \<times> int \<Rightarrow> int \<times> bytes \<times> 'a \<times> int \<times> int"
  hevc_zero :: 'a
  hevc_sizeof :: nat

definition sequence_header :: int where "sequence_header = 0"
definition avpacket :: int where "avpacket = 1"
definition end_of_sequence :: int where "end_of_sequence = 2"

text \<open>What a writer leaves in a zeroed buffer of \<open>n\<close> bytes.\<close>

definition filled :: "nat \<Rightarrow> bytes \<Rightarrow> bytes" where
  "filled n bs = bs @ replicate (n - length bs) 0"

text \<open>
  A frame of an elementary stream, \<^verbatim>\<open>create\<close> and the five setters. The time stamps are
  64 bits wide in the source and far from their ends.
\<close>

definition es_frame :: "rtmp_tag \<Rightarrow> rtmp_codec \<Rightarrow> int \<Rightarrow> int \<Rightarrow> int \<Rightarrow> bytes \<Rightarrow> frame_buffer" where
  "es_frame tag codec flag pts dts bs =
     Fixed \<lparr>ff_media = tag_code tag, ff_codec = codec_code codec, ff_flag = flag,
            ff_pts = pts, ff_dts = dts, ff_payload = bs\<rparr>"

lemma fb_data_es_frame [simp, frame_simps]: "fb_data (es_frame t k g p d bs) = bs"
  by (simp add: es_frame_def)

subsection \<open>A big-endian length, as the decoders read it\<close>

text \<open>\<^verbatim>\<open>(n << 8) + data[i]\<close> on a 32-bit \<^verbatim>\<open>int\<close>\<close>

definition read_length :: "bytes \<Rightarrow> int" where
  "read_length bs = sint (foldl (\<lambda>acc b. push_bit 8 acc + ucast b) (0 :: 32 word) bs)"

lemma foldl_length: "foldl (\<lambda>acc b. push_bit 8 acc + ucast b) (0 :: 32 word) bs = of_nat (be_value bs)"
proof (induction bs rule: rev_induct)
  case Nil
  then show ?case by simp
next
  case (snoc b bs)
  have "push_bit 8 (of_nat (be_value bs) :: 32 word) + ucast b = of_nat (256 * be_value bs) + of_nat (unat b)"
    by (simp add: push_bit_eq_mult mult.commute)
  with snoc.IH show ?case by (simp add: be_value_snoc)
qed

lemma read_length_value: "be_value bs < 2 ^ 31 \<Longrightarrow> read_length bs = int (be_value bs)"
  by (simp add: read_length_def foldl_length sint_of_nat_small)

fun be_bytes :: "nat \<Rightarrow> nat \<Rightarrow> bytes" where
  "be_bytes 0 n = []"
| "be_bytes (Suc k) n = be_bytes k (n div 256) @ [of_nat n]"

lemma length_be_bytes [simp]: "length (be_bytes k n) = k"
  by (induction k arbitrary: n) simp_all

lemma be_value_be_bytes: "n < 256 ^ k \<Longrightarrow> be_value (be_bytes k n) = n"
proof (induction k arbitrary: n)
  case 0
  then show ?case by simp
next
  case (Suc k)
  then have "n div 256 < 256 ^ k" by (simp add: less_mult_imp_div_less mult.commute)
  with Suc.IH show ?case
    by (simp add: be_value_snoc unsigned_of_nat take_bit_eq_mod)
qed

lemma read_length_be_bytes:
  "n < 256 ^ k \<Longrightarrow> n < 2 ^ 31 \<Longrightarrow> read_length (be_bytes k n) = int n"
  by (simp add: read_length_value be_value_be_bytes)

subsection \<open>H.264\<close>

record 'a rtmp_h264_decoder =
  h4_ch :: "channel_ref option"
  h4_args :: "('a \<times> int) option"

definition h264_sps_pps_size :: "'a avc_lib \<Rightarrow> 'a \<Rightarrow> nat" where
  "h264_sps_pps_size L avc =
     sum_list (map (\<lambda>n. n + 4) (avc_sps_bytes L avc)) + sum_list (map (\<lambda>n. n + 4) (avc_pps_bytes L avc))"

text \<open>The frame of the parameter sets; none if libmov cannot write it.\<close>

definition h264_parameter_sets :: "'a avc_lib \<Rightarrow> 'a \<Rightarrow> int \<Rightarrow> int \<Rightarrow> int \<Rightarrow> frame_ptr" where
  "h264_parameter_sets L avc key pts dts =
     (let avc_length = h264_sps_pps_size L avc;
          (r, bs) = mpeg4_avc_to_nalu L avc avc_length
      in if r \<le> 0 then None else Some (es_frame Video H264 key pts dts (filled avc_length bs)))"

text \<open>
  \<^verbatim>\<open>append(data, n)\<close> of a NAL unit: a negative length is a huge one when it reaches
  \<^verbatim>\<open>std::vector\<close>, which throws.
\<close>

definition read_nalu :: "bytes \<Rightarrow> nat \<Rightarrow> int \<Rightarrow> bytes outcome" where
  "read_nalu data off n = (if n < 0 then Inl Length_error else slice data off (nat n))"

definition start_code :: bytes where
  "start_code = [0x00, 0x00, 0x00, 0x01]"

text \<open>The loop of \<^verbatim>\<open>demuxer_avpacket\<close>; \<open>off\<close> is \<^verbatim>\<open>offset\<close>; the result is the
  frames that are passed to \<^verbatim>\<open>on_frame\<close>.\<close>

function h264_demuxer_avpacket ::
  "'a avc_lib \<Rightarrow> bytes \<Rightarrow> int \<Rightarrow> int \<Rightarrow> int \<Rightarrow> nat \<Rightarrow> 'a \<times> int
   \<Rightarrow> (frame_buffer list \<times> ('a \<times> int)) outcome" where
  "h264_demuxer_avpacket L data timestamp cts key off (avc, flag) =
     (if length data \<le> off
      then obind (oassert (off = length data)) (\<lambda>_. Inr ([], (avc, flag)))
      else obind (slice data off (avc_nalu L avc)) (\<lambda>len.
        if read_length len = 0
        then obind (oassert (off = length data)) (\<lambda>_. Inr ([], (avc, flag)))
        else obind (byte_at data (off + avc_nalu L avc)) (\<lambda>b.
          let idr = (b AND 0x1f = 5 \<and> flag = 0);
              ps = h264_parameter_sets L avc key (timestamp + cts) timestamp
          in if idr \<and> ps = None then Inr ([], (avc, flag))
             else obind (read_nalu data (off + avc_nalu L avc) (read_length len)) (\<lambda>nal.
               let fs = (if idr then [the ps] else [])
                        @ [es_frame Video H264 key (timestamp + cts) timestamp (start_code @ nal)]
               in obind (h264_demuxer_avpacket L data timestamp cts key
                           (off + avc_nalu L avc + nat (read_length len))
                           (avc, if idr then 1 else flag))
                    (\<lambda>(os, a). Inr (fs @ os, a))))))"
  by pat_completeness auto
termination
  by (relation "measure (\<lambda>(L, data, timestamp, cts, key, off, avc, flag). length data - off)")
     (auto simp: read_nalu_def split: if_splits)

declare h264_demuxer_avpacket.simps [simp del]

definition rtmp_h264_decoder_write :: "flv_lib \<Rightarrow> 'a avc_lib \<Rightarrow> 'a rtmp_h264_decoder frame_step" where
  "rtmp_h264_decoder_write F L s d =
     (case d of
        (f, Some e) \<Rightarrow> Inr (on_frame (h4_ch s) f (Some e), s)
      | (None, None) \<Rightarrow> Inl Null_deref
      | (Some frame, None) \<Rightarrow>
          let (n, video) = flv_video_tag_header_read F (fb_data frame);
              data = drop (nat n) (fb_data frame)
          in if n < 0 then Inr ([], s)
             else if vt_avpacket video = sequence_header
             then Inr ([], s\<lparr>h4_args := Some (avc_record_load L data, 0)\<rparr>)
             else case h4_args s of
               None \<Rightarrow> Inr ([], s)
             | Some args \<Rightarrow>
                 if vt_avpacket video = end_of_sequence
                 then Inr (on_frame (h4_ch s) None (Some Ec_eof), s)
                 else if vt_avpacket video \<noteq> avpacket then Inr ([], s)
                 else obind (h264_demuxer_avpacket L data (fb_pts frame) (vt_cts video)
                               (if vt_keyframe video = 1 then 1 else 0) 0 args)
                        (\<lambda>(fs, args'). Inr (on_frames (h4_ch s) fs, s\<lparr>h4_args := Some args'\<rparr>)))"

subsection \<open>H.265\<close>

record 'a rtmp_h265_decoder =
  h5_ch :: "channel_ref option"
  h5_args :: "('a \<times> int) option"

definition h265_vps_sps_pps_size :: "'a hevc_lib \<Rightarrow> 'a \<Rightarrow> nat" where
  "h265_vps_sps_pps_size L hevc = sum_list (map (\<lambda>n. n + 4) (hevc_nalu_bytes L hevc))"

text \<open>
  The loop of \<^verbatim>\<open>demuxer_avpacket\<close>: \<open>p\<close> is \<^verbatim>\<open>data_offset\<close> as an index into
  \<^verbatim>\<open>data\<close>, \<open>off\<close> is \<^verbatim>\<open>offset\<close>. Both advance, \<open>p\<close> by \<open>off\<close>.
\<close>

function h265_demuxer_avpacket ::
  "'a hevc_lib \<Rightarrow> bytes \<Rightarrow> int \<Rightarrow> int \<Rightarrow> int \<Rightarrow> nat \<Rightarrow> nat \<Rightarrow> 'a \<times> int
   \<Rightarrow> (frame_buffer list \<times> ('a \<times> int)) outcome" where
  "h265_demuxer_avpacket L data timestamp cts key p off (hevc, flag) =
     (let k = hevc_lengthSizeMinusOne L hevc + 1
      in obind (slice data p k) (\<lambda>len.
           let n = read_length len
           in if k = 1 \<or> (n = 1 \<and> (k = 3 \<or> k = 4)) then Inr ([], (hevc, flag))
              else if n < 0 \<or> length data < p + nat n then Inr ([], (hevc, flag))
              else obind (byte_at data (p + (off + k))) (\<lambda>b.
                let nalu_type = unat (drop_bit 1 b AND 0x3f);
                    flag1 = (if nalu_type = 32 \<or> nalu_type = 33 \<or> nalu_type = 34 then 1 else flag);
                    irap = (16 \<le> nalu_type \<and> nalu_type \<le> 23 \<and> flag1 = 0);
                    sz = h265_vps_sps_pps_size L hevc;
                    (r, bs) = mpeg4_hevc_to_nalu L hevc sz
                in obind (if irap then slice data p sz else Inr []) (\<lambda>old.
                   if irap \<and> r \<le> 0 then Inr ([], (hevc, flag1))
                   else let ps = take (nat r) (filled (nat r) (bs @ drop (length bs) old));
                            fs = (if irap then [es_frame Video H265 key (timestamp + cts) timestamp ps]
                                  else []);
                            off2 = (if irap then off + k + nat r else off + k)
                        in obind (slice data (p + off2) (nat n)) (\<lambda>nal.
                             obind (h265_demuxer_avpacket L data timestamp cts key
                                      (p + off2 + (off2 + nat n)) (off2 + nat n)
                                      (hevc, if irap then 1 else flag1))
                               (\<lambda>(os, a). Inr (fs @ es_frame Video H265 key (timestamp + cts) timestamp nal
                                       # os, a)))))))"
  by pat_completeness auto
termination
proof (relation "measure (\<lambda>(L, data, timestamp, cts, key, p, off, hevc, flag). length data - p)",
    goal_cases)
  case 1
  then show ?case by simp
next
  case (2 L data timestamp cts key p off hevc flag k x)
  then have "p < length data" by (simp add: slice_eq_Inr)
  with 2 show ?case by (simp add: diff_less_mono2)
qed

declare h265_demuxer_avpacket.simps [simp del]

definition rtmp_h265_decoder_write :: "flv_lib \<Rightarrow> 'a hevc_lib \<Rightarrow> 'a rtmp_h265_decoder frame_step" where
  "rtmp_h265_decoder_write F L s d =
     (case d of
        (f, Some e) \<Rightarrow> Inr (on_frame (h5_ch s) f (Some e), s)
      | (None, None) \<Rightarrow> Inl Null_deref
      | (Some frame, None) \<Rightarrow>
          let (n, video) = flv_video_tag_header_read F (fb_data frame);
              data = drop (nat n) (fb_data frame)
          in if n < 0 then Inr ([], s)
             else if vt_avpacket video = sequence_header
             then Inr ([], s\<lparr>h5_args := Some (hevc_record_load L data, 0)\<rparr>)
             else case h5_args s of
               None \<Rightarrow> Inr ([], s)
             | Some args \<Rightarrow>
                 if vt_avpacket video = end_of_sequence
                 then Inr (on_frame (h5_ch s) None (Some Ec_eof), s)
                 else if vt_avpacket video \<noteq> avpacket then Inr ([], s)
                 else obind (h265_demuxer_avpacket L data (fb_pts frame) (vt_cts video)
                               (if vt_keyframe video = 1 then 1 else 0) 0 0 args)
                        (\<lambda>(fs, args'). Inr (on_frames (h5_ch s) fs, s\<lparr>h5_args := Some args'\<rparr>)))"

subsection \<open>AAC\<close>

record 'a aac_lib =
  MPEG4_AAC_LC :: int
  MPEG4_AAC_44100 :: int
  aac_npce :: "'a \<Rightarrow> nat"
  aac_set_npce :: "nat \<Rightarrow> 'a \<Rightarrow> 'a"
  aac_set_fields :: "int \<Rightarrow> int \<Rightarrow> int \<Rightarrow> int \<Rightarrow> int \<Rightarrow> int \<Rightarrow> 'a \<Rightarrow> 'a"
  aac_config_load :: "bytes \<Rightarrow> 'a \<Rightarrow> 'a"
  aac_config_save :: "'a \<Rightarrow> nat \<Rightarrow> int \<times> bytes"
  aac_adts_save :: "'a \<Rightarrow> u16 \<Rightarrow> nat \<Rightarrow> int \<times> bytes"
  aac_adts_load :: "bytes \<Rightarrow> 'a \<Rightarrow> int \<times> 'a"

record 'a rtmp_aac_decoder =
  ad_ch :: "channel_ref option"
  ad_aac :: 'a

text \<open>
  The bytes from \<^verbatim>\<open>data + n\<close> to the end. The result of the tag reader is not checked, so
  \<open>n\<close> may be \<open>- 1\<close>.
\<close>

definition tail_from :: "bytes \<Rightarrow> int \<Rightarrow> bytes outcome" where
  "tail_from data n =
     (if n < 0 \<or> int (length data) < n then Inl Out_of_bounds else Inr (drop (nat n) data))"

definition rtmp_aac_decoder_write :: "flv_lib \<Rightarrow> 'a aac_lib \<Rightarrow> 'a rtmp_aac_decoder frame_step" where
  "rtmp_aac_decoder_write F L s d =
     (case d of
        (f, Some e) \<Rightarrow> Inr (on_frame (ad_ch s) f (Some e), s)
      | (None, None) \<Rightarrow> Inl Null_deref
      | (Some frame, None) \<Rightarrow>
          let data = fb_data frame;
              (n, audio) = flv_audio_tag_header_read F data
          in if at_avpacket audio = sequence_header
             then obind (tail_from data n) (\<lambda>config.
               Inr ([], s\<lparr>ad_aac := aac_config_load L config
                 (aac_set_fields L (MPEG4_AAC_LC L) (MPEG4_AAC_44100 L) 2 2 44100 44100 (ad_aac s))\<rparr>))
             else let room = aac_npce L (ad_aac s) + 7 + 1;
                      (ret, adts) = aac_adts_save L (ad_aac s)
                                      (word_of_int (int (length data) - n)) room
                  in if ret < 7 then Inr ([], s)
                     else obind (tail_from data n) (\<lambda>raw.
                       Inr (on_frame (ad_ch s) (Some (es_frame Audio Aac 0 (fb_pts frame) (fb_dts frame)
                              (take (nat ret) (filled (max room (nat ret)) adts) @ raw))) None,
                            s\<lparr>ad_aac := aac_set_npce L 0 (ad_aac s)\<rparr>)))"

subsection \<open>The decoders are frame filters\<close>

interpretation h264_decoder: frame_filter "rtmp_h264_decoder_write F L" h4_ch for F L
  by unfold_locales
    (auto simp: rtmp_h264_decoder_write_def Let_def obind_eq_Inr
      split: prod.splits option.splits if_splits)

interpretation h265_decoder: frame_filter "rtmp_h265_decoder_write F L" h5_ch for F L
  by unfold_locales
    (auto simp: rtmp_h265_decoder_write_def Let_def obind_eq_Inr
      split: prod.splits option.splits if_splits)

interpretation aac_decoder: frame_filter "rtmp_aac_decoder_write F L" ad_ch for F L
  by unfold_locales
    (auto simp: rtmp_aac_decoder_write_def Let_def obind_eq_Inr
      split: prod.splits option.splits if_splits)

end
