(* ===== verification/Rtmp_Encoders.thy ===== *)
theory Rtmp_Encoders
  imports Rtmp_Decoders
begin

text \<open>
  The encoders that turn elementary stream frames into the media messages of an RTMP or
  FLV player (\<^verbatim>\<open>rtmp_h264_encoder.cc\<close>, \<^verbatim>\<open>rtmp_hevc_encoder.cc\<close>,
  \<^verbatim>\<open>rtmp_aac_encoder.cc\<close>). Their \<^verbatim>\<open>args\<close> structures are value-initialised, so all
  flags start at 0. The conversion of a frame and the configuration records are libmov's,
  the fields of \<open>avc_lib\<close>, \<open>hevc_lib\<close> and \<open>aac_lib\<close>.
\<close>

definition resized :: "nat \<Rightarrow> bytes \<Rightarrow> bytes" where
  "resized n bs = take n bs @ replicate (n - length bs) 0"

lemma resized_self [simp]: "n = length bs \<Longrightarrow> resized n bs = bs"
  by (simp add: resized_def)

text \<open>The five bytes of a video tag; the composition time is 0.\<close>

definition video_tag_bytes :: "byte \<Rightarrow> byte \<Rightarrow> int \<Rightarrow> bytes" where
  "video_tag_bytes keyframe codec packet =
     [push_bit 4 keyframe OR (codec AND 0x0F), word_of_int packet, 0, 0, 0]"

definition kBufferSize :: nat where "kBufferSize = 4096"
definition kVideoTagSize :: nat where "kVideoTagSize = 5"

text \<open>The frame of a configuration record of \<open>ret\<close> bytes, written behind the tag into \<^verbatim>\<open>buf\<close>.\<close>

definition video_config_frame ::
  "rtmp_codec \<Rightarrow> int \<Rightarrow> int \<Rightarrow> int \<Rightarrow> bytes \<Rightarrow> frame_buffer outcome" where
  "video_config_frame codec pts dts ret record_bytes =
     obind (slice (filled kBufferSize
              (video_tag_bytes 1 (word_of_int (codec_code codec)) sequence_header @ record_bytes))
              0 (nat ret + kVideoTagSize))
       (\<lambda>bs. Inr (es_frame Video codec 1 pts dts bs))"

text \<open>The frame of a converted access unit, with its tag.\<close>

definition video_packet_frame ::
  "rtmp_codec \<Rightarrow> int \<Rightarrow> int \<Rightarrow> int \<Rightarrow> bytes \<Rightarrow> frame_buffer" where
  "video_packet_frame codec pts dts vcl unit_bytes =
     (let keyframe = (if vcl = 1 then 1 else 2);
          header = video_tag_bytes keyframe (word_of_int (codec_code codec)) avpacket;
          header_frame = es_frame Video codec 0 pts dts header;
          avc_frame = es_frame Video codec 0 pts dts unit_bytes;
          encode_frame = fixed_append_frame (Some avc_frame)
                           (fixed_append_frame (Some header_frame) fixed_create)
      in Fixed (encode_frame\<lparr>ff_flag := if keyframe = 1 then 1 else 0\<rparr>))"

subsection \<open>H.264\<close>

record 'a rtmp_h264_encoder =
  e4_ch :: "channel_ref option"
  e4_avc :: 'a
  e4_vcl :: int
  e4_update :: int
  e4_video_sequence_header :: int

definition rtmp_h264_encoder_create :: "'a avc_lib \<Rightarrow> 'a rtmp_h264_encoder" where
  "rtmp_h264_encoder_create L =
     \<lparr>e4_ch = None, e4_avc = avc_zero L, e4_vcl = 0, e4_update = 0, e4_video_sequence_header = 0\<rparr>"

definition rtmp_h264_encoder_write :: "'a avc_lib \<Rightarrow> 'a rtmp_h264_encoder frame_step" where
  "rtmp_h264_encoder_write L s d =
     (case d of
        (f, Some e) \<Rightarrow> Inr (on_frame (e4_ch s) f (Some e), s)
      | (None, None) \<Rightarrow> Inl Null_deref
      | (Some frame, None) \<Rightarrow>
          let room = fb_size frame + avc_sizeof L;
              (ret, out, avc, vcl, update) =
                h264_annexbtomp4 L (e4_avc s) (fb_data frame) room (e4_vcl s, e4_update s);
              s1 = s\<lparr>e4_avc := avc, e4_vcl := vcl, e4_update := update\<rparr>;
              pts = fb_pts frame; dts = fb_dts frame
          in if ret \<le> 0 then Inr ([], s1)
             else let config = (update \<noteq> 0 \<and> 0 < length (avc_sps_bytes L avc) \<and> 0 < length (avc_pps_bytes L avc));
                      (ret2, rec) = avc_record_save L avc (kBufferSize - kVideoTagSize)
                  in if config \<and> ret2 \<le> 0 then Inr ([], s1)
                     else obind (if config
                            then obind (video_config_frame H264 pts dts ret2 rec) (\<lambda>cf.
                                   Inr ([cf], s1\<lparr>e4_video_sequence_header := 1\<rparr>))
                            else Inr ([], s1)) (\<lambda>(fs, s2).
                          Inr (on_frames (e4_ch s2) (fs @
                                 (if vcl \<noteq> 0 \<and> e4_video_sequence_header s2 \<noteq> 0
                                  then [video_packet_frame H264 pts dts vcl
                                          (resized (nat ret) (filled room out))]
                                  else [])), s2)))"

subsection \<open>H.265\<close>

record 'a rtmp_hevc_encoder =
  e5_ch :: "channel_ref option"
  e5_hevc :: 'a
  e5_vcl :: int
  e5_update :: int
  e5_video_sequence_header :: int

definition rtmp_hevc_encoder_create :: "'a hevc_lib \<Rightarrow> 'a rtmp_hevc_encoder" where
  "rtmp_hevc_encoder_create L =
     \<lparr>e5_ch = None, e5_hevc = hevc_zero L, e5_vcl = 0, e5_update = 0, e5_video_sequence_header = 0\<rparr>"

definition rtmp_hevc_encoder_write :: "'a hevc_lib \<Rightarrow> 'a rtmp_hevc_encoder frame_step" where
  "rtmp_hevc_encoder_write L s d =
     (case d of
        (f, Some e) \<Rightarrow> Inr (on_frame (e5_ch s) f (Some e), s)
      | (None, None) \<Rightarrow> Inl Null_deref
      | (Some frame, None) \<Rightarrow>
          let room = fb_size frame + hevc_sizeof L;
              (ret, out, hevc, vcl, update) =
                h265_annexbtomp4 L (e5_hevc s) (fb_data frame) room (e5_vcl s, e5_update s);
              s1 = s\<lparr>e5_hevc := hevc, e5_vcl := vcl, e5_update := update\<rparr>;
              pts = fb_pts frame; dts = fb_dts frame
          in if ret \<le> 0 then Inr ([], s1)
             else let config = (update \<noteq> 0 \<and> 3 \<le> length (hevc_nalu_bytes L hevc));
                      (ret2, rec) = hevc_record_save L hevc (kBufferSize - kVideoTagSize)
                  in if config \<and> ret2 \<le> 0 then Inr ([], s1)
                     else obind (if config
                            then obind (video_config_frame H265 pts dts ret2 rec) (\<lambda>cf.
                                   Inr ([cf], s1\<lparr>e5_video_sequence_header := 1\<rparr>))
                            else Inr ([], s1)) (\<lambda>(fs, s2).
                          Inr (on_frames (e5_ch s2) (fs @
                                 (if vcl \<noteq> 0 \<and> e5_video_sequence_header s2 \<noteq> 0
                                  then [video_packet_frame H265 pts dts vcl
                                          (resized (nat ret) (filled room out))]
                                  else [])), s2)))"

subsection \<open>AAC\<close>

record 'a rtmp_aac_encoder =
  ea_ch :: "channel_ref option"
  ea_aac :: 'a
  ea_audio_sequence_header :: int

definition aac_tag :: "int \<Rightarrow> audio_tag" where
  "aac_tag packet = \<lparr>at_codecid = codec_code Aac, at_rate = 3, at_bits = 1, at_channels = 1,
                     at_avpacket = packet\<rparr>"

text \<open>
  \<open>n\<close> is the length of the ADTS header that was read, and the variable is assigned again
  by the writer of the configuration.
\<close>

definition aac_config_frame ::
  "flv_lib \<Rightarrow> 'a aac_lib \<Rightarrow> 'a \<Rightarrow> frame_buffer \<Rightarrow> (int \<times> frame_buffer) outcome" where
  "aac_config_frame F L aac frame =
     (let room = fb_size frame + 4;
          (_, tag) = flv_audio_tag_header_write F (aac_tag sequence_header) room;
          (n, config) = aac_config_save L aac (room - 2)
      in obind (write_at 0 tag (replicate room 0)) (\<lambda>buf.
         obind (write_at 2 config buf) (\<lambda>buf.
           if n + 2 < 0 then Inl Length_error
           else Inr (n, es_frame Audio Aac 0 (fb_pts frame) (fb_dts frame)
                          (resized (nat (n + 2)) buf)))))"

definition rtmp_aac_encoder_write :: "flv_lib \<Rightarrow> 'a aac_lib \<Rightarrow> 'a rtmp_aac_encoder frame_step" where
  "rtmp_aac_encoder_write F L s d =
     (case d of
        (f, Some e) \<Rightarrow> Inr (on_frame (ea_ch s) f (Some e), s)
      | (None, None) \<Rightarrow> Inl Null_deref
      | (Some frame, None) \<Rightarrow>
          let (n, aac) = aac_adts_load L (fb_data frame) (ea_aac s);
              s1 = s\<lparr>ea_aac := aac\<rparr>
          in if n \<le> 0 then Inr ([], s1)
             else obind (if ea_audio_sequence_header s1 = 0
                    then obind (aac_config_frame F L aac frame) (\<lambda>(n', cf).
                           Inr (n', [cf], s1\<lparr>ea_audio_sequence_header := 1\<rparr>))
                    else Inr (n, [], s1)) (\<lambda>(n, fs, s2).
               let room = fb_size frame + 4;
                   (m, tag) = flv_audio_tag_header_write F (aac_tag avpacket) room
               in if m = - 1 then Inr (on_frames (ea_ch s2) fs, s2)
                  else obind (tail_from (fb_data frame) n) (\<lambda>raw.
                    Inr (on_frames (ea_ch s2) (fs @
                           [es_frame Audio Aac 0 (fb_pts frame) (fb_dts frame)
                              (resized (nat m) (filled room tag) @ raw)]), s2))))"

subsection \<open>An encoder that announces its configuration first\<close>

locale config_first_encoder = frame_encoder +
  fixes ready :: "'a \<Rightarrow> bool" and is_config :: "frame_buffer \<Rightarrow> bool"
  assumes first_frame: "step s (f, None) = Inr (os, s') \<Longrightarrow> \<not> ready s \<Longrightarrow> chan s = Some c \<Longrightarrow>
      (os = [] \<and> \<not> ready s') \<or> (\<exists>cf os'. os = (Some cf, None) # os' \<and> is_config cf)"
begin

lemma run_config_first:
  assumes "run_frames step s ds = Inr (os, s')" "\<not> ready s" "chan s = Some c"
    and "filter (\<lambda>d. \<not> failed d) os = d # os'"
  shows "\<exists>cf. d = (Some cf, None) \<and> is_config cf"
  using assms
proof (induction ds arbitrary: s os)
  case Nil
  then show ?case by simp
next
  case (Cons x ds)
  from Cons.prems(1) obtain os1 s1 os2 where 1: "step s x = Inr (os1, s1)"
    and 2: "run_frames step s1 ds = Inr (os2, s')" and os: "os = os1 @ os2"
    by (elim run_frames_ConsE)
  from 1 Cons.prems(3) have c: "chan s1 = Some c" by (simp add: chan_kept)
  obtain f ec where x: "x = (f, ec)" by (cases x)
  show ?case
  proof (cases ec)
    case (Some e)
    with 1 x Cons.prems(3) have "s1 = s" "os1 = [(f, Some e)]" by (auto simp: error_passes)
    with Cons.IH [OF 2] Cons.prems(2-4) os show ?thesis by simp
  next
    case None
    with first_frame 1 x Cons.prems(2,3)
    consider "os1 = []" "\<not> ready s1" | cf ys where "os1 = (Some cf, None) # ys" "is_config cf"
      by blast
    then show ?thesis
    proof cases
      case 1
      with Cons.IH [OF 2] c Cons.prems(4) os show ?thesis by simp
    next
      case 2
      with Cons.prems(4) os show ?thesis by auto
    qed
  qed
qed

end

text \<open>A video message whose packet type is the sequence header, marked as a key frame.\<close>

definition is_video_config :: "rtmp_codec \<Rightarrow> frame_buffer \<Rightarrow> bool" where
  "is_video_config codec f \<longleftrightarrow> fb_media f = tag_code Video \<and> fb_codec f = codec_code codec
     \<and> fb_flag f = 1
     \<and> (\<exists>rest. fb_data f = [push_bit 4 1 OR (word_of_int (codec_code codec) AND 0x0F), 0, 0, 0, 0] @ rest)"

lemma video_config_frame_is_config:
  "video_config_frame codec pts dts ret rec = Inr f \<Longrightarrow> is_video_config codec f"
  by (auto simp: video_config_frame_def obind_eq_Inr slice_eq_Inr is_video_config_def es_frame_def
      video_tag_bytes_def sequence_header_def kVideoTagSize_def filled_def take_Cons' numeral_eq_Suc)

interpretation h264_encoder: config_first_encoder "rtmp_h264_encoder_write L" e4_ch
    "\<lambda>s. e4_video_sequence_header s \<noteq> 0" "is_video_config H264" for L
  by unfold_locales
    (auto simp: rtmp_h264_encoder_write_def Let_def obind_eq_Inr dest!: video_config_frame_is_config
      split: prod.splits option.splits if_splits)

interpretation hevc_encoder: config_first_encoder "rtmp_hevc_encoder_write L" e5_ch
    "\<lambda>s. e5_video_sequence_header s \<noteq> 0" "is_video_config H265" for L
  by unfold_locales
    (auto simp: rtmp_hevc_encoder_write_def Let_def obind_eq_Inr dest!: video_config_frame_is_config
      split: prod.splits option.splits if_splits)

interpretation aac_encoder: frame_encoder "rtmp_aac_encoder_write F L" ea_ch for F L
  by unfold_locales
    (auto simp: rtmp_aac_encoder_write_def Let_def obind_eq_Inr case_prod_unfold
      split: option.splits if_splits)

end
