(* ===== verification/Rtmp_Encoder_Proofs.thy ===== *)
theory Rtmp_Encoder_Proofs
  imports Rtmp_Encoders Rtmp_Decoder_Proofs
begin

text \<open>
  Correctness of the RTMP encoders: a player gets the configuration before any picture, the
  end of a stream passes through, and what the AAC encoder makes of an ADTS frame.
\<close>

text \<open>
  C15. A new video encoder announces its configuration first: whatever frames it is given,
  the first message it writes is a sequence header marked as a key frame, so that a player
  never sees a picture it cannot decode.
\<close>

theorem rtmp_video_config_first:
  "(run_frames (rtmp_h264_encoder_write L) ((rtmp_h264_encoder_create L)\<lparr>e4_ch := Some ch\<rparr>) ds
        = Inr (os, s) \<and> filter (\<lambda>d. \<not> failed d) os = d # os'
      \<longrightarrow> (\<exists>cf. d = (Some cf, None) \<and> is_video_config H264 cf))
   \<and> (run_frames (rtmp_hevc_encoder_write L5) ((rtmp_hevc_encoder_create L5)\<lparr>e5_ch := Some ch\<rparr>) ds
        = Inr (os, s5) \<and> filter (\<lambda>d. \<not> failed d) os = d # os'
      \<longrightarrow> (\<exists>cf. d = (Some cf, None) \<and> is_video_config H265 cf))"
proof (intro conjI impI; elim conjE)
  let ?s = "(rtmp_h264_encoder_create L)\<lparr>e4_ch := Some ch\<rparr>"
  assume "run_frames (rtmp_h264_encoder_write L) ?s ds = Inr (os, s)"
    "filter (\<lambda>d. \<not> failed d) os = d # os'"
  then show "\<exists>cf. d = (Some cf, None) \<and> is_video_config H264 cf"
    using h264_encoder.run_config_first [of L ?s ds os s ch d os']
    by (simp add: rtmp_h264_encoder_create_def)
next
  let ?s = "(rtmp_hevc_encoder_create L5)\<lparr>e5_ch := Some ch\<rparr>"
  assume "run_frames (rtmp_hevc_encoder_write L5) ?s ds = Inr (os, s5)"
    "filter (\<lambda>d. \<not> failed d) os = d # os'"
  then show "\<exists>cf. d = (Some cf, None) \<and> is_video_config H265 cf"
    using hevc_encoder.run_config_first [of L5 ?s ds os s5 ch d os']
    by (simp add: rtmp_hevc_encoder_create_def)
qed

text \<open>An access unit given to a new H.264 encoder: the sequence header and the picture.\<close>

lemma demo_h264_run:
  "run_frames (rtmp_h264_encoder_write demo_avc) ((rtmp_h264_encoder_create demo_avc)\<lparr>e4_ch := Some 0\<rparr>)
     [(Some (demo_media 40 [0, 0, 0, 1, 0x65]), None), (None, Some Ec_eof)] =
   Inr ([(Some (es_frame Video H264 1 40 40 [0x17, 0, 0, 0, 0, 1, 2, 3]), None),
         (Some (es_frame Video H264 1 40 40 [0x17, 1, 0, 0, 0, 0, 0, 0, 1, 0x65]), None),
         (None, Some Ec_eof)],
        \<lparr>e4_ch = Some 0, e4_avc = (), e4_vcl = 1, e4_update = 1, e4_video_sequence_header = 1\<rparr>)"
  by (simp add: rtmp_h264_encoder_write_def rtmp_h264_encoder_create_def demo_avc_def demo_media_def
      video_config_frame_def video_packet_frame_def video_tag_bytes_def filled_def kBufferSize_def
      kVideoTagSize_def sequence_header_def avpacket_def es_frame_def fixed_append_frame_def
      fixed_append_data_def fixed_create_def resized_def slice_def)

theorem rtmp_video_config_first_witness:
  "\<exists>os s d. run_frames (rtmp_h264_encoder_write demo_avc)
       ((rtmp_h264_encoder_create demo_avc)\<lparr>e4_ch := Some 0\<rparr>)
       [(Some (demo_media 40 [0, 0, 0, 1, 0x65]), None), (None, Some Ec_eof)] = Inr (os, s)
     \<and> hd (filter (\<lambda>d. \<not> failed d) os) = d \<and> (\<exists>cf. d = (Some cf, None) \<and> is_video_config H264 cf)"
  using rtmp_video_config_first [of demo_avc 0
      "[(Some (demo_media 40 [0, 0, 0, 1, 0x65]), None), (None, Some Ec_eof)]"] demo_h264_run
  by fastforce

text \<open>
  The end of a stream, and any other error, passes through every RTMP encoder in its
  place: the failed deliveries that leave are those that entered, in their order, and none
  is added; errors alone never change the state of an encoder or end the process.
\<close>

theorem rtmp_encoders_pass_errors:
  "(run_frames (rtmp_h264_encoder_write L4) s4 ds = Inr (os4, t4) \<and> e4_ch s4 = Some c
      \<longrightarrow> filter failed os4 = filter failed ds)
   \<and> (run_frames (rtmp_hevc_encoder_write L5) s5 ds = Inr (os5, t5) \<and> e5_ch s5 = Some c
      \<longrightarrow> filter failed os5 = filter failed ds)
   \<and> (run_frames (rtmp_aac_encoder_write F La) sa ds = Inr (osa, ta) \<and> ea_ch sa = Some c
      \<longrightarrow> filter failed osa = filter failed ds)
   \<and> (e4_ch s4 = Some c \<longrightarrow>
      run_frames (rtmp_h264_encoder_write L4) s4 (filter failed ds) = Inr (filter failed ds, s4))"
  using h264_encoder.run_failed [of L4 s4 ds os4 t4 c] hevc_encoder.run_failed [of L5 s5 ds os5 t5 c]
    aac_encoder.run_failed [of F La sa ds osa ta c]
    h264_encoder.run_errors [of "filter failed ds" s4 c L4]
  by auto

theorem rtmp_encoders_pass_errors_witness:
  "\<exists>os s. run_frames (rtmp_h264_encoder_write demo_avc)
       ((rtmp_h264_encoder_create demo_avc)\<lparr>e4_ch := Some 0\<rparr>)
       [(Some (demo_media 40 [0, 0, 0, 1, 0x65]), None), (None, Some Ec_eof)] = Inr (os, s)
     \<and> filter failed os = [(None, Some Ec_eof)]"
  using rtmp_encoders_pass_errors [of demo_avc "(rtmp_h264_encoder_create demo_avc)\<lparr>e4_ch := Some 0\<rparr>"
      "[(Some (demo_media 40 [0, 0, 0, 1, 0x65]), None), (None, Some Ec_eof)]"] demo_h264_run
  by fastforce

text \<open>
  The first raw message of the AAC encoder starts at the wrong place: the variable with
  the length of the ADTS header is overwritten by the length of the configuration, so that
  the first message drops as many bytes as the configuration has; every later message drops
  the ADTS header.
\<close>

theorem aac_first_packet_offset:
  assumes "aac_adts_load L (fb_data frame) (ea_aac s) = (int n, aac)" "0 < n"
    and "n \<le> length (fb_data frame)" "ea_ch s = Some ch"
    and "\<And>packet room. 2 \<le> room \<Longrightarrow> flv_audio_tag_header_write F (aac_tag packet) room = (2, tag packet)"
    and "\<And>packet. length (tag packet) = 2"
    and "\<And>room. aac_config_save L aac room = (int (length config), config)"
    and "length config \<le> fb_size frame + 2" "length config \<le> length (fb_data frame)"
  shows "rtmp_aac_encoder_write F L s (Some frame, None) =
    Inr (if ea_audio_sequence_header s = 0
         then ([(Some (es_frame Audio Aac 0 (fb_pts frame) (fb_dts frame)
                        (tag sequence_header @ config)), None),
                (Some (es_frame Audio Aac 0 (fb_pts frame) (fb_dts frame)
                        (tag avpacket @ drop (length config) (fb_data frame))), None)],
               s\<lparr>ea_aac := aac, ea_audio_sequence_header := 1\<rparr>)
         else ([(Some (es_frame Audio Aac 0 (fb_pts frame) (fb_dts frame)
                        (tag avpacket @ drop n (fb_data frame))), None)],
               s\<lparr>ea_aac := aac\<rparr>))"
  using assms
  by (auto simp: rtmp_aac_encoder_write_def aac_config_frame_def Let_def tail_from_def filled_def
      resized_def)

theorem aac_first_packet_offset_witness:
  "\<exists>adts. adts = [0xFF, 0xF1, 0x50, 0x80, 0, 0, 0xFC] \<and>
     rtmp_aac_encoder_write demo_flv demo_aac
       \<lparr>ea_ch = Some 0, ea_aac = 0, ea_audio_sequence_header = 0\<rparr>
       (Some (demo_media 40 (adts @ [0x21, 0x10])), None) =
     Inr ([(Some (es_frame Audio Aac 0 40 40 [0xAF, 0, 0x12, 0x10]), None),
           (Some (es_frame Audio Aac 0 40 40 ([0xAF, 1] @ drop 2 adts @ [0x21, 0x10])), None)],
          \<lparr>ea_ch = Some 0, ea_aac = 0, ea_audio_sequence_header = 1\<rparr>)"
  using aac_first_packet_offset [of demo_aac
      "demo_media 40 ([0xFF, 0xF1, 0x50, 0x80, 0, 0, 0xFC] @ [0x21, 0x10])"
      "\<lparr>ea_ch = Some 0, ea_aac = 0, ea_audio_sequence_header = 0\<rparr>" 7 0 0 demo_flv
      "\<lambda>packet. [0xAF, word_of_int packet]" "[0x12, 0x10]"]
  by (simp add: demo_aac_def demo_flv_def demo_media_def aac_tag_def sequence_header_def avpacket_def)

end
