(* ===== verification/Media_Sink.thy ===== *)
theory Media_Sink
  imports Frame_Filter
begin

text \<open>
  What the RTMP sink and the RTSP sink share (class \<^verbatim>\<open>sink\<close> of \<^verbatim>\<open>sink.h\<close>): a set of
  channels, one for every session that forwards the stream, to which each frame is written.
  Operations that are posted to the executor of the sink run one after the other, so an
  execution is a sequence of them.

  A step returns what was written, each delivery with the channel it went to, and the new
  state. The locale \<open>media_sink\<close> states the contract; its lemmas say what a session sees of
  the stream, whatever the other sessions do.
\<close>

type_synonym routed = "(channel_ref \<times> delivery) list"

definition broadcast :: "channel_ref list \<Rightarrow> delivery \<Rightarrow> routed" where
  "broadcast chs d = map (\<lambda>ch. (ch, d)) chs"

definition received :: "channel_ref \<Rightarrow> routed \<Rightarrow> delivery list" where
  "received ch os = map snd (filter (\<lambda>o'. fst o' = ch) os)"

lemma received_simps [simp]:
  "received ch [] = []"
  "received ch (os @ os') = received ch os @ received ch os'"
  "received ch ((c, d) # os) = (if c = ch then d # received ch os else received ch os)"
  by (simp_all add: received_def)

lemma received_to_one [simp]: "received ch (map (\<lambda>d. (c, f d)) ds) = (if c = ch then map f ds else [])"
  by (induction ds) auto

lemma received_broadcast:
  "wf_chs chs \<Longrightarrow> received ch (broadcast chs d) = (if ch \<in> set chs then [d] else [])"
proof -
  have "distinct chs \<Longrightarrow> received ch (map (\<lambda>c. (c, d)) chs) = (if ch \<in> set chs then [d] else [])"
    by (induction chs) auto
  then show "wf_chs chs \<Longrightarrow> received ch (broadcast chs d) = (if ch \<in> set chs then [d] else [])"
    by (simp add: broadcast_def wf_chs_def)
qed

text \<open>What sessions and the source do to a sink.\<close>

datatype sink_event = Frame delivery | Join channel_ref | Leave channel_ref

text \<open>The frames among the events.\<close>

definition frames_of :: "sink_event list \<Rightarrow> delivery list" where
  "frames_of es = concat (map (\<lambda>e. case e of Frame d \<Rightarrow> [d] | _ \<Rightarrow> []) es)"

lemma frames_of_simps [simp]:
  "frames_of [] = []" "frames_of (Frame d # es) = d # frames_of es"
  "frames_of (Join c # es) = frames_of es" "frames_of (Leave c # es) = frames_of es"
  by (simp_all add: frames_of_def)

locale media_sink =
  fixes chs :: "'s \<Rightarrow> channel_ref list"
    and step :: "sink_event \<Rightarrow> 's \<Rightarrow> (routed \<times> 's) outcome"
  assumes frame_broadcast: "step (Frame d) s = Inr (os, s') \<Longrightarrow> os = broadcast (chs s) d \<and> chs s' = chs s"
    and join_inserts: "step (Join ch) s = Inr (os, s') \<Longrightarrow> chs s' = chs_insert ch (chs s)"
    and join_private: "step (Join ch) s = Inr (os, s') \<Longrightarrow> c \<noteq> ch \<Longrightarrow> received c os = []"
    and leave_erases: "step (Leave ch) s = Inr (os, s') \<Longrightarrow> os = [] \<and> chs s' = chs_erase ch (chs s)"
begin

lemma event_wf: "step e s = Inr (os, s') \<Longrightarrow> wf_chs (chs s) \<Longrightarrow> wf_chs (chs s')"
  by (cases e) (auto dest!: frame_broadcast join_inserts leave_erases intro: wf_intros)

lemma run_wf: "run_steps step es s = Inr (os, s') \<Longrightarrow> wf_chs (chs s) \<Longrightarrow> wf_chs (chs s')"
  using run_steps_invariant [where I = "\<lambda>s. wf_chs (chs s)" and Q = "\<lambda>_. True"] event_wf by blast

text \<open>
  A session that has joined and neither joins again nor leaves receives every frame, once
  and in order; one that is not there receives nothing.
\<close>

lemma member_sees_all:
  assumes "run_steps step es s = Inr (os, s')" "wf_chs (chs s)"
    and "Join ch \<notin> set es" "Leave ch \<notin> set es"
  shows "received ch os = (if ch \<in> set (chs s) then frames_of es else [])
    \<and> (ch \<in> set (chs s') \<longleftrightarrow> ch \<in> set (chs s))"
  using assms
proof (induction es arbitrary: s os)
  case Nil
  then show ?case by simp
next
  case (Cons e es)
  from Cons.prems(1) obtain os1 s1 os2 where 1: "step e s = Inr (os1, s1)"
    and 2: "run_steps step es s1 = Inr (os2, s')" and os: "os = os1 @ os2"
    by (elim run_steps_ConsE)
  from 1 Cons.prems(2) have wf: "wf_chs (chs s1)" by (rule event_wf)
  have IH: "received ch os2 = (if ch \<in> set (chs s1) then frames_of es else [])
    \<and> (ch \<in> set (chs s') \<longleftrightarrow> ch \<in> set (chs s1))"
    using Cons.prems(3,4) by (intro Cons.IH [OF 2 wf]) simp_all
  show ?case
  proof (cases e)
    case (Frame d)
    with 1 have "os1 = broadcast (chs s) d" "chs s1 = chs s" by (auto dest: frame_broadcast)
    with IH Frame Cons.prems(2) os show ?thesis by (simp add: received_broadcast)
  next
    case (Join c)
    with 1 have "chs s1 = chs_insert c (chs s)" by (auto dest: join_inserts)
    moreover from Join Cons.prems(3) have "c \<noteq> ch" by auto
    moreover from this 1 Join have "received ch os1 = []" by (auto dest: join_private)
    ultimately show ?thesis using IH os Join by simp
  next
    case (Leave c)
    with 1 have "os1 = []" "chs s1 = chs_erase c (chs s)" by (auto dest: leave_erases)
    moreover from Leave Cons.prems(4) have "c \<noteq> ch" by auto
    ultimately show ?thesis using IH os Leave Cons.prems(2) by simp
  qed
qed

lemma gone_after_leave:
  assumes "run_steps step (Leave ch # es) s = Inr (os, s')" "wf_chs (chs s)"
    and "Join ch \<notin> set es" "Leave ch \<notin> set es"
  shows "received ch os = []"
proof -
  from assms(1) obtain os1 s1 os2 where 1: "step (Leave ch) s = Inr (os1, s1)" and 2: "run_steps step es s1 = Inr (os2, s')"
    and os: "os = os1 @ os2" by (elim run_steps_ConsE)
  from leave_erases [OF 1] member_sees_all [OF 2] os assms(2-4) show ?thesis by (simp add: wf_chs_erase)
qed

end

end
