(* ===== verification/Rtmp_Sink.thy ===== *)
theory Rtmp_Sink
  imports Media_Sink Rtmp_Encoders
begin

text \<open>
  The RTMP sink of a stream (\<^verbatim>\<open>rtmp_sink.cc\<close>): it runs the encoders, keeps the last
  configuration messages and the messages since the last key frame, and gives them to a
  session that joins before anything else.
\<close>

record ('v, 'a) rtmp_sink =
  rk_id :: string
  rk_chs :: "channel_ref list"
  rk_video_config :: frame_ptr
  rk_audio_config :: frame_ptr
  rk_gop_cache :: "frame_buffer list"
  rk_video_encoder :: "'v rtmp_h264_encoder option"
  rk_audio_encoder :: "'a rtmp_aac_encoder option"

definition rtmp_sink_create :: "string \<Rightarrow> ('v, 'a) rtmp_sink" where
  "rtmp_sink_create sid =
     \<lparr>rk_id = sid, rk_chs = [], rk_video_config = None, rk_audio_config = None, rk_gop_cache = [],
      rk_video_encoder = None, rk_audio_encoder = None\<rparr>"

text \<open>The channel of an encoder leads back to the sink; its name does not matter.\<close>

definition encoder_channel :: channel_ref where
  "encoder_channel = 0"

definition rtmp_sink_add_codec ::
  "'v avc_lib \<Rightarrow> 'a \<Rightarrow> int \<Rightarrow> ('v, 'a) rtmp_sink \<Rightarrow> ('v, 'a) rtmp_sink" where
  "rtmp_sink_add_codec L aac0 codec s =
     (if codec = codec_code H264
      then s\<lparr>rk_video_encoder := Some ((rtmp_h264_encoder_create L)\<lparr>e4_ch := Some encoder_channel\<rparr>)\<rparr>
      else if codec = codec_code Aac
      then s\<lparr>rk_audio_encoder := Some \<lparr>ea_ch = Some encoder_channel, ea_aac = aac0,
                                        ea_audio_sequence_header = 0\<rparr>\<rparr>
      else s)"

definition audio_config_frame :: "frame_buffer \<Rightarrow> bool outcome" where
  "audio_config_frame frame =
     (if fb_codec frame = codec_code Aac \<or> fb_codec frame = codec_code Opus
      then obind (byte_at (fb_data frame) 1) (\<lambda>b. Inr (b = 0)) else Inr False)"

definition video_config_frame_p :: "frame_buffer \<Rightarrow> bool outcome" where
  "video_config_frame_p frame = obind (byte_at (fb_data frame) 1) (\<lambda>b. Inr (b = 0))"

definition rtmp_sink_on_video_frame ::
  "frame_buffer \<Rightarrow> ('v, 'a) rtmp_sink \<Rightarrow> ('v, 'a) rtmp_sink outcome" where
  "rtmp_sink_on_video_frame frame s =
     obind (video_config_frame_p frame) (\<lambda>config.
       Inr (if config then s\<lparr>rk_video_config := Some frame\<rparr>
            else if fb_flag frame = 1 then s\<lparr>rk_gop_cache := [frame]\<rparr>
            else if rk_gop_cache s \<noteq> [] then s\<lparr>rk_gop_cache := rk_gop_cache s @ [frame]\<rparr>
            else s))"

definition rtmp_sink_on_audio_frame ::
  "frame_buffer \<Rightarrow> ('v, 'a) rtmp_sink \<Rightarrow> ('v, 'a) rtmp_sink outcome" where
  "rtmp_sink_on_audio_frame frame s =
     obind (audio_config_frame frame) (\<lambda>config.
       Inr (if config then s\<lparr>rk_audio_config := Some frame\<rparr> else s))"

definition rtmp_sink_on_frame ::
  "delivery \<Rightarrow> ('v, 'a) rtmp_sink \<Rightarrow> (routed \<times> ('v, 'a) rtmp_sink) outcome" where
  "rtmp_sink_on_frame d s =
     (case d of
        (f, Some e) \<Rightarrow> Inr (broadcast (rk_chs s) d, s)
      | (None, None) \<Rightarrow> Inl Null_deref
      | (Some frame, None) \<Rightarrow>
          obind (if fb_media frame = tag_code Video then rtmp_sink_on_video_frame frame s
                 else if fb_media frame = tag_code Audio then rtmp_sink_on_audio_frame frame s
                 else Inr s)
            (\<lambda>s'. Inr (broadcast (rk_chs s') d, s')))"

definition rtmp_sink_safe_del_channel :: "channel_ref \<Rightarrow> ('v, 'a) rtmp_sink \<Rightarrow> ('v, 'a) rtmp_sink" where
  "rtmp_sink_safe_del_channel ch s = s\<lparr>rk_chs := chs_erase ch (rk_chs s)\<rparr>"

definition rtmp_sink_safe_add_channel ::
  "channel_ref \<Rightarrow> ('v, 'a) rtmp_sink \<Rightarrow> routed \<times> ('v, 'a) rtmp_sink" where
  "rtmp_sink_safe_add_channel ch s =
     (map (\<lambda>f. (ch, (Some f, None)))
        ((case rk_video_config s of None \<Rightarrow> [] | Some f \<Rightarrow> [f])
         @ (case rk_audio_config s of None \<Rightarrow> [] | Some f \<Rightarrow> [f])
         @ rk_gop_cache s),
      s\<lparr>rk_chs := chs_insert ch (rk_chs s)\<rparr>)"

text \<open>Frames that an encoder wrote to its channel.\<close>

definition on_deliveries ::
  "(delivery \<Rightarrow> 's \<Rightarrow> (routed \<times> 's) outcome) \<Rightarrow> delivery list \<Rightarrow> 's \<Rightarrow> (routed \<times> 's) outcome" where
  "on_deliveries step ds s =
     ofold (\<lambda>d (os, s). obind (step d s) (\<lambda>(os', s'). Inr (os @ os', s'))) ds ([], s)"

definition sink_video_write ::
  "'v avc_lib \<Rightarrow> delivery \<Rightarrow> ('v, 'a) rtmp_sink \<Rightarrow> (routed \<times> ('v, 'a) rtmp_sink) outcome" where
  "sink_video_write L d s =
     (case rk_video_encoder s of
        None \<Rightarrow> Inr ([], s)
      | Some e \<Rightarrow> obind (rtmp_h264_encoder_write L e d) (\<lambda>(ds, e').
          on_deliveries rtmp_sink_on_frame ds (s\<lparr>rk_video_encoder := Some e'\<rparr>)))"

definition sink_audio_write ::
  "flv_lib \<Rightarrow> 'a aac_lib \<Rightarrow> delivery \<Rightarrow> ('v, 'a) rtmp_sink \<Rightarrow> (routed \<times> ('v, 'a) rtmp_sink) outcome" where
  "sink_audio_write F L d s =
     (case rk_audio_encoder s of
        None \<Rightarrow> Inr ([], s)
      | Some e \<Rightarrow> obind (rtmp_aac_encoder_write F L e d) (\<lambda>(ds, e').
          on_deliveries rtmp_sink_on_frame ds (s\<lparr>rk_audio_encoder := Some e'\<rparr>)))"

definition rtmp_sink_write ::
  "flv_lib \<Rightarrow> 'v avc_lib \<Rightarrow> 'a aac_lib \<Rightarrow> delivery \<Rightarrow> ('v, 'a) rtmp_sink
   \<Rightarrow> (routed \<times> ('v, 'a) rtmp_sink) outcome" where
  "rtmp_sink_write F Lv La d s =
     (case d of
        (f, Some e) \<Rightarrow>
          obind (sink_video_write Lv d s) (\<lambda>(os, s1).
          obind (sink_audio_write F La d s1) (\<lambda>(os', s2). Inr (os @ os', s2)))
      | (None, None) \<Rightarrow> Inl Null_deref
      | (Some frame, None) \<Rightarrow>
          obind (if fb_media frame = tag_code Video then sink_video_write Lv d s else Inr ([], s)) (\<lambda>(os, s1).
          obind (if fb_media frame = tag_code Audio then sink_audio_write F La d s1 else Inr ([], s1)) (\<lambda>(os', s2).
            Inr (os @ os', s2))))"

subsection \<open>The contract\<close>

lemma on_video_frame_chs: "rtmp_sink_on_video_frame f s = Inr s' \<Longrightarrow> rk_chs s' = rk_chs s"
  by (auto simp: rtmp_sink_on_video_frame_def obind_eq_Inr)

lemma on_audio_frame_chs: "rtmp_sink_on_audio_frame f s = Inr s' \<Longrightarrow> rk_chs s' = rk_chs s"
  by (auto simp: rtmp_sink_on_audio_frame_def obind_eq_Inr)

lemma rtmp_on_frame_broadcast:
  "rtmp_sink_on_frame d s = Inr (os, s') \<Longrightarrow> os = broadcast (rk_chs s) d \<and> rk_chs s' = rk_chs s"
  by (cases d)
    (auto simp: rtmp_sink_on_frame_def obind_eq_Inr dest: on_video_frame_chs on_audio_frame_chs
      split: option.splits if_splits)

text \<open>
  What is posted to the executor of the sink: an encoder's frame, and the sessions that join and leave
  (\<^verbatim>\<open>add_channel\<close>, \<^verbatim>\<open>del_channel\<close>).
\<close>

fun rtmp_sink_event :: "sink_event \<Rightarrow> ('v, 'a) rtmp_sink \<Rightarrow> (routed \<times> ('v, 'a) rtmp_sink) outcome" where
  "rtmp_sink_event (Frame d) s = rtmp_sink_on_frame d s"
| "rtmp_sink_event (Join ch) s = Inr (rtmp_sink_safe_add_channel ch s)"
| "rtmp_sink_event (Leave ch) s = Inr ([], rtmp_sink_safe_del_channel ch s)"

interpretation rtmp_sinks: media_sink rk_chs rtmp_sink_event
  by unfold_locales
    (auto simp: rtmp_on_frame_broadcast rtmp_sink_safe_add_channel_def rtmp_sink_safe_del_channel_def
      received_def dest: rtmp_on_frame_broadcast)

subsection \<open>What is kept for a session that joins\<close>

definition video_message :: "frame_buffer \<Rightarrow> bool" where
  "video_message f \<longleftrightarrow> fb_media f = tag_code Video"

definition config_message :: "frame_buffer \<Rightarrow> bool" where
  "config_message f \<longleftrightarrow> fb_data f ! 1 = 0
     \<and> (video_message f
        \<or> fb_media f = tag_code Audio \<and> fb_codec f \<in> {codec_code Aac, codec_code Opus})"

definition last_such :: "(frame_buffer \<Rightarrow> bool) \<Rightarrow> frame_buffer list \<Rightarrow> frame_ptr" where
  "last_such P fs = (if filter P fs = [] then None else Some (last (filter P fs)))"

lemma last_such_snoc [simp]:
  "last_such P [] = None"
  "last_such P (fs @ [f]) = (if P f then Some f else last_such P fs)"
  by (auto simp: last_such_def)

text \<open>The pictures from the last key frame on; nothing before the first key frame.\<close>

definition pictures :: "frame_buffer list \<Rightarrow> frame_buffer list" where
  "pictures = filter (\<lambda>f. video_message f \<and> \<not> config_message f)"

definition group_of_pictures :: "frame_buffer list \<Rightarrow> frame_buffer list \<Rightarrow> bool" where
  "group_of_pictures vs gop \<longleftrightarrow>
     (if \<exists>v \<in> set vs. fb_flag v = 1
      then \<exists>before key after. vs = before @ key # after \<and> gop = key # after \<and> fb_flag key = 1
             \<and> (\<forall>v \<in> set after. fb_flag v \<noteq> 1)
      else gop = [])"

lemma group_of_pictures_snoc:
  assumes "group_of_pictures vs gop"
  shows "group_of_pictures (vs @ [v]) (if fb_flag v = 1 then [v] else if gop \<noteq> [] then gop @ [v] else gop)"
proof (cases "fb_flag v = 1")
  case True
  then show ?thesis by (auto simp: group_of_pictures_def)
next
  case False
  show ?thesis
  proof (cases "\<exists>v \<in> set vs. fb_flag v = 1")
    case True
    with assms obtain before key after where "vs = before @ key # after" "gop = key # after"
      "fb_flag key = 1" "\<forall>v \<in> set after. fb_flag v \<noteq> 1"
      by (auto simp: group_of_pictures_def)
    with False True show ?thesis
      by (auto simp: group_of_pictures_def intro!: exI [of _ before] exI [of _ key] exI [of _ "after @ [v]"])
  next
    case none: False
    with assms have "gop = []" by (simp add: group_of_pictures_def)
    with False none show ?thesis by (simp add: group_of_pictures_def)
  qed
qed

definition remembers :: "frame_buffer list \<Rightarrow> ('v, 'a) rtmp_sink \<Rightarrow> bool" where
  "remembers fs s \<longleftrightarrow>
     rk_video_config s = last_such (\<lambda>f. video_message f \<and> config_message f) fs
     \<and> rk_audio_config s = last_such (\<lambda>f. \<not> video_message f \<and> config_message f) fs
     \<and> group_of_pictures (pictures fs) (rk_gop_cache s)"

lemma remembers_frame:
  assumes "remembers fs s" "rtmp_sink_on_frame (Some f, None) s = Inr (os, s')"
  shows "remembers (fs @ [f]) s'"
proof (cases "fb_media f = tag_code Video")
  case True
  with assms(2) obtain b where b: "byte_at (fb_data f) 1 = Inr b"
    and s': "s' = (if b = 0 then s\<lparr>rk_video_config := Some f\<rparr>
            else if fb_flag f = 1 then s\<lparr>rk_gop_cache := [f]\<rparr>
            else if rk_gop_cache s \<noteq> [] then s\<lparr>rk_gop_cache := rk_gop_cache s @ [f]\<rparr>
            else s)"
    by (auto simp: rtmp_sink_on_frame_def rtmp_sink_on_video_frame_def video_config_frame_p_def
        obind_eq_Inr)
  from b have conf: "config_message f \<longleftrightarrow> b = 0" "video_message f"
    using True by (auto simp: byte_at_eq_Inr config_message_def video_message_def)
  from assms(1) group_of_pictures_snoc [of "pictures fs" "rk_gop_cache s" f] conf
  show ?thesis by (auto simp: remembers_def s' pictures_def)
next
  case False
  then have nv: "\<not> video_message f" by (simp add: video_message_def)
  with False assms(2) have "s' = (if config_message f then s\<lparr>rk_audio_config := Some f\<rparr> else s)"
    by (auto simp: rtmp_sink_on_frame_def rtmp_sink_on_audio_frame_def audio_config_frame_def
        obind_eq_Inr byte_at_eq_Inr config_message_def split: if_splits)
  with assms(1) nv show ?thesis by (auto simp: remembers_def pictures_def)
qed

lemma remembers_error: "rtmp_sink_on_frame (f, Some e) s = Inr (os, s') \<Longrightarrow> s' = s"
  by (auto simp: rtmp_sink_on_frame_def split: option.splits)

lemma remembers_channels:
  "remembers fs (snd (rtmp_sink_safe_add_channel ch s)) = remembers fs s"
  "remembers fs (rtmp_sink_safe_del_channel ch s) = remembers fs s"
  by (simp_all add: remembers_def rtmp_sink_safe_add_channel_def rtmp_sink_safe_del_channel_def)

text \<open>The messages that came without an error.\<close>

definition messages :: "sink_event list \<Rightarrow> frame_buffer list" where
  "messages es = concat (map (\<lambda>e. case e of Frame (Some f, None) \<Rightarrow> [f] | _ \<Rightarrow> []) es)"

lemma remembers_run:
  assumes "run_steps rtmp_sink_event es s = Inr (os, s')" "remembers fs s"
  shows "remembers (fs @ messages es) s'"
  using assms
proof (induction es arbitrary: s os fs)
  case Nil
  then show ?case by (simp add: messages_def)
next
  case (Cons e es)
  from Cons.prems(1) obtain os1 s1 os2 where 1: "rtmp_sink_event e s = Inr (os1, s1)"
    and 2: "run_steps rtmp_sink_event es s1 = Inr (os2, s')"
    by (elim run_steps_ConsE)
  have split: "messages (e # es) = messages [e] @ messages es" by (simp add: messages_def)
  have "remembers (fs @ messages [e]) s1"
  proof (cases e)
    case (Frame d)
    obtain f ec where d: "d = (f, ec)" by (cases d)
    show ?thesis
    proof (cases ec)
      case (Some x)
      with 1 Frame d Cons.prems(2) show ?thesis
        by (auto simp: messages_def dest: remembers_error split: option.splits)
    next
      case None
      with 1 Frame d obtain g where "f = Some g"
        by (cases f) (auto simp: rtmp_sink_on_frame_def)
      with None 1 Frame d Cons.prems(2) show ?thesis
        by (auto simp: messages_def intro: remembers_frame)
    qed
  next
    case (Join c)
    with 1 Cons.prems(2) remembers_channels(1) [of fs c s] show ?thesis by (simp add: messages_def)
  next
    case (Leave c)
    with 1 Cons.prems(2) show ?thesis by (auto simp: messages_def remembers_channels)
  qed
  from Cons.IH [OF 2 this] show ?case by (simp add: split)
qed

lemma remembers_create [simp]: "remembers [] (rtmp_sink_create sid)"
  by (simp add: remembers_def rtmp_sink_create_def group_of_pictures_def pictures_def)

definition option_list :: "'b option \<Rightarrow> 'b list" where
  "option_list x = (case x of None \<Rightarrow> [] | Some y \<Rightarrow> [y])"

lemma received_join:
  "received ch (fst (rtmp_sink_safe_add_channel ch s)) =
     map (\<lambda>f. (Some f, None))
       (option_list (rk_video_config s) @ option_list (rk_audio_config s) @ rk_gop_cache s)"
  by (simp add: rtmp_sink_safe_add_channel_def option_list_def received_to_one [where f = "\<lambda>f. (Some f, None)"]
      del: map_append split: option.splits)

text \<open>
  C4. A session that joins a running stream can decode it: whatever happened before, it is
  given the latest video configuration, the latest audio configuration and then the pictures
  from the last key frame on, and after that every message of the stream, in order, until it
  leaves, whatever the other sessions do.
\<close>

theorem rtmp_late_joiner:
  assumes "run_steps rtmp_sink_event es (rtmp_sink_create sid) = Inr (os, s)"
    and "run_steps rtmp_sink_event (Join ch # later) s = Inr (os', s')"
    and "Join ch \<notin> set later" "Leave ch \<notin> set later"
  shows "\<exists>gop. group_of_pictures (pictures (messages es)) gop
     \<and> received ch os' =
         map (\<lambda>f. (Some f, None))
           (option_list (last_such (\<lambda>f. video_message f \<and> config_message f) (messages es))
            @ option_list (last_such (\<lambda>f. \<not> video_message f \<and> config_message f) (messages es))
            @ gop)
         @ frames_of later"
proof -
  have rem: "remembers (messages es) s"
    using remembers_run [OF assms(1), of "[]"] by simp
  have "wf_chs (rk_chs s)"
    using rtmp_sinks.run_wf [OF assms(1)] by (simp add: rtmp_sink_create_def)
  let ?s = "snd (rtmp_sink_safe_add_channel ch s)"
  from assms(2) obtain os2 where run: "run_steps rtmp_sink_event later ?s = Inr (os2, s')"
    and os': "os' = fst (rtmp_sink_safe_add_channel ch s) @ os2"
    by (elim run_steps_ConsE) (auto simp: prod_eq_iff)
  have chs: "rk_chs ?s = chs_insert ch (rk_chs s)" by (simp add: rtmp_sink_safe_add_channel_def)
  have "received ch os2 = frames_of later"
    using rtmp_sinks.member_sees_all [OF run _ assms(3,4)] \<open>wf_chs (rk_chs s)\<close>
    by (simp add: chs wf_chs_insert)
  with rem show ?thesis
    by (intro exI [of _ "rk_gop_cache s"]) (simp add: os' received_join remembers_def)
qed

theorem rtmp_late_joiner_witness:
  "\<exists>vc ac k p os s os' s' gop. vc = es_frame Video H264 1 0 0 [0x17, 0] \<and> ac = es_frame Audio Aac 0 0 0 [0xAF, 0]
     \<and> k = es_frame Video H264 1 40 40 [0x17, 1] \<and> p = es_frame Video H264 0 80 80 [0x27, 1]
     \<and> run_steps rtmp_sink_event [Frame (Some vc, None), Frame (Some p, None), Frame (Some k, None), Join 7,
           Frame (Some ac, None), Frame (Some p, None)] (rtmp_sink_create ''rtmp_live_a'')
         = Inr (os, s :: (unit, unit) rtmp_sink)
     \<and> run_steps rtmp_sink_event (Join 9 # [Leave 7, Frame (Some k, None)]) s = Inr (os', s')
     \<and> received 9 os' = map (\<lambda>f. (Some f, None)) ([vc, ac] @ gop @ [k])
     \<and> group_of_pictures [p, k, p] gop"
proof -
  let ?vc = "es_frame Video H264 1 0 0 [0x17, 0]" and ?ac = "es_frame Audio Aac 0 0 0 [0xAF, 0]"
  let ?k = "es_frame Video H264 1 40 40 [0x17, 1]" and ?p = "es_frame Video H264 0 80 80 [0x27, 1]"
  let ?es = "[Frame (Some ?vc, None), Frame (Some ?p, None), Frame (Some ?k, None), Join 7,
           Frame (Some ?ac, None), Frame (Some ?p, None)]"
  let ?later = "[Leave 7, Frame (Some ?k, None)]"
  note evals = rtmp_sink_create_def rtmp_sink_on_frame_def rtmp_sink_on_video_frame_def
      rtmp_sink_on_audio_frame_def video_config_frame_p_def audio_config_frame_def es_frame_def
      rtmp_sink_safe_add_channel_def rtmp_sink_safe_del_channel_def
  obtain os s where 1: "run_steps rtmp_sink_event ?es (rtmp_sink_create ''rtmp_live_a'')
      = Inr (os, s :: (unit, unit) rtmp_sink)"
    by (simp add: evals)
  obtain os' s' where 2: "run_steps rtmp_sink_event (Join 9 # ?later) s = Inr (os', s')"
    using 1 by (auto simp: evals)
  have msgs: "messages ?es = [?vc, ?p, ?k, ?ac, ?p]" by (simp add: messages_def)
  have sort: "config_message ?vc" "config_message ?ac" "\<not> config_message ?k" "\<not> config_message ?p"
    "video_message ?vc" "video_message ?k" "video_message ?p" "\<not> video_message ?ac"
    by (simp_all add: config_message_def video_message_def es_frame_def)
  from rtmp_late_joiner [OF 1 2] obtain gop where
    "group_of_pictures [?p, ?k, ?p] gop"
    "received 9 os' = map (\<lambda>f. (Some f, None)) ([?vc, ?ac] @ gop @ [?k])"
    by (auto simp: msgs last_such_def pictures_def sort option_list_def)
  with 1 2 show ?thesis by blast
qed

end
