(* ===== verification/Rtsp_Encoders.thy ===== *)
theory Rtsp_Encoders
  imports Frame_Filter Rtmp_Decoders "HOL-Library.Signed_Division"
begin

text \<open>
  The encoders that turn elementary stream frames into RTP packets, and the tracks that
  describe them to a player (\<^verbatim>\<open>rtsp_track.cc\<close>, \<^verbatim>\<open>rtsp_h264_track.cc\<close>,
  \<^verbatim>\<open>rtsp_hevc_track.cc\<close>, \<^verbatim>\<open>rtsp_aac_track.cc\<close>, \<^verbatim>\<open>rtsp_h264_encoder.cc\<close>,
  \<^verbatim>\<open>rtsp_hevc_encoder.cc\<close>, \<^verbatim>\<open>rtsp_aac_encoder.cc\<close>).

  The RTP packetizer is librtp's: \<open>rtp_payload_input\<close> returns the packets that it passes to
  \<^verbatim>\<open>rtp_encode_packet\<close>, each with its time stamp and flags. The base64 coder is Boost's.
\<close>

record ('a, 'c) rtp_lib =
  rtp_payload_create :: "int \<Rightarrow> string \<Rightarrow> u32 \<Rightarrow> 'c option"
  rtp_payload_input :: "'c \<Rightarrow> bytes \<Rightarrow> u32 \<Rightarrow> (bytes \<times> u32 \<times> int) list \<times> 'c"
  base64_encode :: "bytes \<Rightarrow> string"
  aac_frequency :: "'a \<Rightarrow> int"
  aac_channel_configuration :: "'a \<Rightarrow> int"
  aac_zeroed :: 'a

subsection \<open>Tracks\<close>

text \<open>The process-wide counters of \<^verbatim>\<open>audio_ssrc\<close> and \<^verbatim>\<open>video_ssrc\<close>.\<close>

record ssrc_counters =
  sc_audio :: u32
  sc_video :: u32

definition ssrc_start :: ssrc_counters where
  "ssrc_start = \<lparr>sc_audio = 0xff1, sc_video = 0xff2\<rparr>"

definition audio_ssrc :: "ssrc_counters \<Rightarrow> u32 \<times> ssrc_counters" where
  "audio_ssrc g = (sc_audio g + 2, g\<lparr>sc_audio := sc_audio g + 2\<rparr>)"

definition video_ssrc :: "ssrc_counters \<Rightarrow> u32 \<times> ssrc_counters" where
  "video_ssrc g = (sc_video g + 2, g\<lparr>sc_video := sc_video g + 2\<rparr>)"

record rtsp_track =
  tk_id :: string
  tk_sdp :: string
  tk_ssrc :: u32
  tk_sample_rate :: int

definition kRtspVideoTrackId :: string where "kRtspVideoTrackId = ''track1''"
definition kRtspAudioTrackId :: string where "kRtspAudioTrackId = ''track2''"

definition NL :: string where "NL = [CHR 0x0A]"
definition CRLF :: string where "CRLF = [CHR 0x0D, CHR 0x0A]"

definition profile_level_id :: "bytes \<Rightarrow> nat" where
  "profile_level_id sps = (if 4 \<le> length sps then be_value (take 3 (drop 1 sps)) else 0)"

definition rtsp_h264_track ::
  "(bytes \<Rightarrow> string) \<Rightarrow> bytes \<Rightarrow> bytes \<Rightarrow> ssrc_counters \<Rightarrow> rtsp_track \<times> ssrc_counters" where
  "rtsp_h264_track b64 sps pps g =
     (let (ssrc, g') = video_ssrc g
      in (\<lparr>tk_id = kRtspVideoTrackId,
           tk_sdp = ''m=video 0 RTP/AVP 96'' @ CRLF @ ''c=IN IP4 0.0.0.0'' @ NL
             @ ''a=rtpmap:96 H264/90000'' @ CRLF
             @ ''a=fmtp:96 packetization-mode=1; profile-level-id='' @ show_hex_pad 6 (profile_level_id sps)
             @ ''; sprop-parameter-sets='' @ b64 sps @ '','' @ b64 pps @ CRLF
             @ ''a=control:'' @ kRtspVideoTrackId @ CRLF,
           tk_ssrc = ssrc, tk_sample_rate = 90000\<rparr>, g'))"

definition rtsp_hevc_track ::
  "(bytes \<Rightarrow> string) \<Rightarrow> bytes \<Rightarrow> bytes \<Rightarrow> bytes \<Rightarrow> ssrc_counters \<Rightarrow> rtsp_track \<times> ssrc_counters" where
  "rtsp_hevc_track b64 vps sps pps g =
     (let (ssrc, g') = video_ssrc g
      in (\<lparr>tk_id = kRtspVideoTrackId,
           tk_sdp = ''m=video 0 RTP/AVP 96'' @ CRLF @ ''c=IN IP4 0.0.0.0'' @ NL
             @ ''a=rtpmap:96 H265/90000'' @ CRLF @ ''a=fmtp:96 ''
             @ ''sprop-vps='' @ b64 vps @ ''; '' @ ''sprop-sps='' @ b64 sps @ ''; ''
             @ ''sprop-pps='' @ b64 pps @ CRLF
             @ ''a=control:'' @ kRtspVideoTrackId @ CRLF,
           tk_ssrc = ssrc, tk_sample_rate = 90000\<rparr>, g'))"

definition rtsp_aac_track ::
  "bytes \<Rightarrow> int \<Rightarrow> int \<Rightarrow> int \<Rightarrow> ssrc_counters \<Rightarrow> rtsp_track \<times> ssrc_counters" where
  "rtsp_aac_track cfg sample_rate channels bitrate g =
     (let (ssrc, g') = audio_ssrc g;
          config = concat (map (\<lambda>b. show_hex_pad 2 (unat b)) cfg)
      in (\<lparr>tk_id = kRtspAudioTrackId,
           tk_sdp = ''m=audio 0 RTP/AVP 98'' @ CRLF @ ''c=IN IP4 0.0.0.0'' @ CRLF
             @ (if bitrate \<noteq> 0 then ''b=AS:'' @ show_int bitrate @ CRLF else [])
             @ ''a=rtpmap:98 mpeg4-generic/'' @ show_int sample_rate @ ''/'' @ show_int channels @ CRLF
             @ ''a=fmtp:98 streamtype=5;profile-level-id=1;mode=AAC-hbr;''
             @ ''sizelength=13;indexlength=3;indexdeltalength=3;config='' @ config @ CRLF
             @ ''a=control:'' @ kRtspAudioTrackId @ CRLF,
           tk_ssrc = ssrc, tk_sample_rate = sample_rate\<rparr>, g'))"

subsection \<open>NAL units of an Annex B byte stream\<close>

text \<open>
  \<^verbatim>\<open>h264_startcode\<close>: the index after the first \<open>00 00 01\<close> that another byte follows.
\<close>

fun h264_startcode :: "bytes \<Rightarrow> nat option" where
  "h264_startcode (a # b # c # d # rest) =
     (if a = 0 \<and> b = 0 \<and> c = 1 then Some 3 else map_option Suc (h264_startcode (b # c # d # rest)))"
| "h264_startcode _ = None"

lemma h264_startcode_bounds: "h264_startcode xs = Some k \<Longrightarrow> 3 \<le> k \<and> k < length xs"
  by (induction xs arbitrary: k rule: h264_startcode.induct) (fastforce split: if_splits)+

definition strip_zeros :: "bytes \<Rightarrow> bytes" where
  "strip_zeros xs = rev (dropWhile (\<lambda>b. b = 0) (rev xs))"

text \<open>
  The loop over the units; \<open>p\<close> are the bytes after a start code. Each round asserts that
  the unit is not empty.
\<close>

function nal_loop :: "bytes \<Rightarrow> bytes list outcome" where
  "nal_loop p =
     (let nxt = h264_startcode p;
          n = (case nxt of Some k \<Rightarrow> k - 3 | None \<Rightarrow> length p);
          nal = strip_zeros (take n p)
      in obind (oassert (nal \<noteq> [])) (\<lambda>_.
           case nxt of
             None \<Rightarrow> Inr [nal]
           | Some k \<Rightarrow> obind (nal_loop (drop k p)) (\<lambda>nals. Inr (nal # nals))))"
  by pat_completeness auto
termination
  by (relation "measure length") (auto dest!: h264_startcode_bounds [OF sym])

declare nal_loop.simps [simp del]

definition nal_units :: "bytes \<Rightarrow> bytes list outcome" where
  "nal_units data =
     (case h264_startcode data of None \<Rightarrow> Inr [] | Some k \<Rightarrow> nal_loop (drop k data))"

text \<open>The last unit of a type, if there was one, replaces the one that is stored.\<close>

definition last_nal :: "nat \<Rightarrow> bytes list \<Rightarrow> bytes option \<Rightarrow> bytes option" where
  "last_nal ty nals old =
     (case filter (\<lambda>n. unat (hd n AND 0x1f) = ty) nals of [] \<Rightarrow> old | ns \<Rightarrow> Some (last ns))"

subsection \<open>H.264\<close>

record 'c rtsp_h264_encoder =
  r4_ch :: "channel_ref option"
  r4_sps :: "bytes option"
  r4_pps :: "bytes option"
  r4_track :: "rtsp_track option"
  r4_ctx :: "'c option"

definition rtsp_h264_encoder_create :: "'c rtsp_h264_encoder" where
  "rtsp_h264_encoder_create = \<lparr>r4_ch = None, r4_sps = None, r4_pps = None, r4_track = None, r4_ctx = None\<rparr>"

text \<open>\<^verbatim>\<open>rtp_encode_packet\<close>, for each packet of the packetizer; the channel is not tested.\<close>

definition rtp_frame :: "rtmp_tag \<Rightarrow> bytes \<times> u32 \<times> int \<Rightarrow> frame_buffer" where
  "rtp_frame tag p =
     (let (packet, timestamp, flags) = p
      in Fixed \<lparr>ff_media = tag_code tag, ff_codec = 0, ff_flag = flags, ff_pts = uint timestamp,
                ff_dts = uint timestamp, ff_payload = packet\<rparr>)"

definition channel_deliver :: "channel_ref option \<Rightarrow> delivery list \<Rightarrow> delivery list outcome" where
  "channel_deliver ch ds = (if ds \<noteq> [] \<and> ch = None then Inl Null_deref else Inr ds)"

definition encode_rtp ::
  "('a, 'c) rtp_lib \<Rightarrow> rtmp_tag \<Rightarrow> channel_ref option \<Rightarrow> 'c \<Rightarrow> frame_buffer \<Rightarrow> int
   \<Rightarrow> (delivery list \<times> 'c) outcome" where
  "encode_rtp R tag ch ctx frame timestamp =
     (let (packets, ctx') = rtp_payload_input R ctx (fb_data frame) (word_of_int timestamp)
      in obind (channel_deliver ch (map (\<lambda>p. (Some (rtp_frame tag p), None)) packets))
           (\<lambda>ds. Inr (ds, ctx')))"

type_synonym 'e rtsp_step = "delivery \<Rightarrow> 'e \<times> ssrc_counters \<Rightarrow> (delivery list \<times> ('e \<times> ssrc_counters)) outcome"

definition kHz :: int where "kHz = 90"

definition rtsp_h264_encoder_write :: "('a, 'c) rtp_lib \<Rightarrow> 'c rtsp_h264_encoder rtsp_step" where
  "rtsp_h264_encoder_write R d sg =
     (let s = fst sg; g = snd sg
      in case d of
        (f, Some e) \<Rightarrow> obind (channel_deliver (r4_ch s) [d]) (\<lambda>ds. Inr (ds, sg))
      | (None, None) \<Rightarrow> Inl Null_deref
      | (Some frame, None) \<Rightarrow>
          obind (nal_units (fb_data frame)) (\<lambda>nals.
            let s1 = s\<lparr>r4_sps := last_nal 7 nals (r4_sps s), r4_pps := last_nal 8 nals (r4_pps s)\<rparr>;
                (s2, g2) = (case (r4_track s1, r4_sps s1, r4_pps s1) of
                   (None, Some sps, Some pps) \<Rightarrow>
                     let (tk, g') = rtsp_h264_track (base64_encode R) sps pps g
                     in (s1\<lparr>r4_track := Some tk\<rparr>, g')
                 | _ \<Rightarrow> (s1, g));
                s3 = (case (r4_ctx s2, r4_track s2) of
                   (None, Some tk) \<Rightarrow> s2\<lparr>r4_ctx := rtp_payload_create R 96 ''H264'' (tk_ssrc tk)\<rparr>
                 | _ \<Rightarrow> s2)
            in case r4_ctx s3 of
                 None \<Rightarrow> Inr ([], (s3, g2))
               | Some ctx \<Rightarrow>
                   obind (encode_rtp R Video (r4_ch s3) ctx frame (fb_pts frame * kHz)) (\<lambda>(ds, ctx').
                     Inr (ds, (s3\<lparr>r4_ctx := Some ctx'\<rparr>, g2)))))"

subsection \<open>H.265\<close>

record 'c rtsp_hevc_encoder =
  r5_ch :: "channel_ref option"
  r5_vps :: "bytes option"
  r5_sps :: "bytes option"
  r5_pps :: "bytes option"
  r5_track :: "rtsp_track option"
  r5_ctx :: "'c option"

definition rtsp_hevc_encoder_create :: "'c rtsp_hevc_encoder" where
  "rtsp_hevc_encoder_create =
     \<lparr>r5_ch = None, r5_vps = None, r5_sps = None, r5_pps = None, r5_track = None, r5_ctx = None\<rparr>"

definition rtsp_hevc_encoder_write :: "('a, 'c) rtp_lib \<Rightarrow> 'c rtsp_hevc_encoder rtsp_step" where
  "rtsp_hevc_encoder_write R d sg =
     (let s = fst sg; g = snd sg
      in case d of
        (f, Some e) \<Rightarrow> obind (channel_deliver (r5_ch s) [d]) (\<lambda>ds. Inr (ds, sg))
      | (None, None) \<Rightarrow> Inl Null_deref
      | (Some frame, None) \<Rightarrow>
          obind (nal_units (fb_data frame)) (\<lambda>nals.
            let s1 = s\<lparr>r5_vps := last_nal 32 nals (r5_vps s), r5_sps := last_nal 33 nals (r5_sps s),
                       r5_pps := last_nal 34 nals (r5_pps s)\<rparr>;
                (s2, g2) = (case (r5_track s1, r5_vps s1, r5_sps s1, r5_pps s1) of
                   (None, Some vps, Some sps, Some pps) \<Rightarrow>
                     let (tk, g') = rtsp_hevc_track (base64_encode R) vps sps pps g
                     in (s1\<lparr>r5_track := Some tk\<rparr>, g')
                 | _ \<Rightarrow> (s1, g));
                s3 = (case (r5_ctx s2, r5_track s2) of
                   (None, Some tk) \<Rightarrow> s2\<lparr>r5_ctx := rtp_payload_create R 96 ''HEVC'' (tk_ssrc tk)\<rparr>
                 | _ \<Rightarrow> s2)
            in case r5_ctx s3 of
                 None \<Rightarrow> Inr ([], (s3, g2))
               | Some ctx \<Rightarrow>
                   obind (encode_rtp R Video (r5_ch s3) ctx frame (fb_pts frame * kHz)) (\<lambda>(ds, ctx').
                     Inr (ds, (s3\<lparr>r5_ctx := Some ctx'\<rparr>, g2)))))"

subsection \<open>AAC\<close>

record 'c rtsp_aac_encoder =
  ra_ch :: "channel_ref option"
  ra_sample_rate :: int
  ra_channel_count :: int
  ra_track :: "rtsp_track option"
  ra_ctx :: "'c option"

definition rtsp_aac_encoder_create :: "'c rtsp_aac_encoder" where
  "rtsp_aac_encoder_create =
     \<lparr>ra_ch = None, ra_sample_rate = 0, ra_channel_count = 0, ra_track = None, ra_ctx = None\<rparr>"

text \<open>The track is made from the ADTS header of the first frame; none if that fails.\<close>

definition aac_make_track ::
  "('a, 'c) rtp_lib \<Rightarrow> 'a aac_lib \<Rightarrow> bytes \<Rightarrow> 'c rtsp_aac_encoder \<times> ssrc_counters
   \<Rightarrow> ('c rtsp_aac_encoder \<times> ssrc_counters) option" where
  "aac_make_track R La data sg =
     (let (s, g) = sg
      in if ra_track s \<noteq> None then Some sg
         else let (n, aac) = aac_adts_load La data (aac_zeroed R);
                  (len, config) = aac_config_save La aac 32
              in if n < 0 \<or> len < 0 then None
                 else let (tk, g') = rtsp_aac_track (take (nat len) (filled 32 config))
                                       (aac_frequency R aac) (aac_channel_configuration R aac) 0 g
                      in Some (s\<lparr>ra_sample_rate := aac_frequency R aac,
                                 ra_channel_count := aac_channel_configuration R aac,
                                 ra_track := Some tk\<rparr>, g'))"

definition rtsp_aac_encoder_write :: "('a, 'c) rtp_lib \<Rightarrow> 'a aac_lib \<Rightarrow> 'c rtsp_aac_encoder rtsp_step" where
  "rtsp_aac_encoder_write R La d sg =
     (case d of
        (f, Some e) \<Rightarrow> obind (channel_deliver (ra_ch (fst sg)) [(None, Some e)]) (\<lambda>ds. Inr (ds, sg))
      | (None, None) \<Rightarrow> Inl Null_deref
      | (Some frame, None) \<Rightarrow>
          (case aac_make_track R La (fb_data frame) sg of
             None \<Rightarrow> Inr ([], sg)
           | Some (s1, g1) \<Rightarrow>
               let s2 = (case (ra_ctx s1, ra_track s1) of
                     (None, Some tk) \<Rightarrow> s1\<lparr>ra_ctx := rtp_payload_create R 98 ''mpeg4-generic'' (tk_ssrc tk)\<rparr>
                   | _ \<Rightarrow> s1)
               in case ra_ctx s2 of
                    None \<Rightarrow> Inr ([], (s2, g1))
                  | Some ctx \<Rightarrow>
                      obind (encode_rtp R Audio (ra_ch s2) ctx frame
                               ((fb_pts frame * ra_sample_rate s2) sdiv 1000)) (\<lambda>(ds, ctx').
                        Inr (ds, (s2\<lparr>ra_ctx := Some ctx'\<rparr>, g1)))))"

end
