(* ===== verification/Rtsp_Encoder_Proofs.thy ===== *)
theory Rtsp_Encoder_Proofs
  imports Rtsp_Encoders Rtmp_Decoder_Proofs
begin

text \<open>
  Correctness of the RTSP encoders: the scan for NAL units recovers the units of every
  well-formed byte stream, a track appears as soon as the parameter sets were seen and stays
  the same, and the H.265 encoder never gets one.
\<close>

subsection \<open>The scan for NAL units\<close>

fun has_start_code :: "bytes \<Rightarrow> bool" where
  "has_start_code (a # b # c # rest) = (a = 0 \<and> b = 0 \<and> c = 1 \<or> has_start_code (b # c # rest))"
| "has_start_code _ = False"

definition clean_nal :: "bytes \<Rightarrow> bool" where
  "clean_nal nal \<longleftrightarrow> nal \<noteq> [] \<and> last nal \<noteq> 0 \<and> \<not> has_start_code nal"

text \<open>Units with their start codes, each with any number of zero bytes before it.\<close>

definition annexb :: "(nat \<times> bytes) list \<Rightarrow> bytes" where
  "annexb zn = concat (map (\<lambda>(z, nal). replicate z 0 @ [0, 0, 1] @ nal) zn)"

lemma annexb_simps [simp]:
  "annexb [] = []" "annexb ((z, nal) # zn) = replicate z 0 @ [0, 0, 1] @ nal @ annexb zn"
  by (simp_all add: annexb_def)

lemma startcode_Cons3:
  "rest \<noteq> [] \<Longrightarrow> h264_startcode (a # b # c # rest) =
     (if a = 0 \<and> b = 0 \<and> c = 1 then Some 3 else map_option Suc (h264_startcode (b # c # rest)))"
  by (cases rest) simp_all

lemma startcode_nonzero:
  assumes "a \<noteq> 0 \<or> hd xs \<noteq> 0" "3 \<le> length xs"
  shows "h264_startcode (a # xs) = map_option Suc (h264_startcode xs)"
proof -
  obtain b c r where xs: "xs = b # c # r"
    using assms(2) by (cases xs; cases "tl xs") auto
  with assms(2) have "r \<noteq> []" by auto
  with assms(1) xs show ?thesis by (auto simp: startcode_Cons3)
qed

lemma startcode_zeros: "h264_startcode (replicate z 0 @ 0 # 0 # 1 # d # rest) = Some (z + 3)"
proof (induction z)
  case 0
  then show ?case by simp
next
  case (Suc z)
  let ?xs = "replicate z 0 @ 0 # 0 # 1 # d # rest"
  obtain c r where xs: "?xs = 0 # c # r" "c = 0" "r \<noteq> []"
    by (cases z; cases "z - 1") auto
  then have "h264_startcode (0 # ?xs) = map_option Suc (h264_startcode ?xs)"
    by (simp only:) (simp add: startcode_Cons3)
  with Suc.IH show ?case by simp
qed

lemma startcode_skip:
  assumes "nal \<noteq> []" "last nal \<noteq> 0" "\<not> has_start_code nal"
    and "tl1 = replicate z 0 @ 0 # 0 # 1 # d # rest"
  shows "h264_startcode (nal @ tl1) = Some (length nal + z + 3)"
  using assms(1-3)
proof (induction nal rule: has_start_code.induct)
  case (1 a b c rest')
  then have "h264_startcode ((b # c # rest') @ tl1) = Some (length (b # c # rest') + z + 3)"
    by simp
  moreover have "rest' @ tl1 \<noteq> []" using assms(4) by simp
  ultimately show ?case using 1 by (auto simp: startcode_Cons3)
qed (use assms(4) startcode_zeros [of z d rest] in \<open>simp_all add: startcode_nonzero\<close>)

lemma startcode_none: "\<not> has_start_code nal \<Longrightarrow> h264_startcode nal = None"
  by (induction nal rule: h264_startcode.induct) auto

lemma strip_zeros_clean: "nal \<noteq> [] \<Longrightarrow> last nal \<noteq> 0 \<Longrightarrow> strip_zeros (nal @ replicate z 0) = nal"
proof -
  assume "nal \<noteq> []" "last nal \<noteq> 0"
  then obtain xs x where nal: "nal = xs @ [x]" "x \<noteq> 0" by (cases nal rule: rev_cases) auto
  have "dropWhile (\<lambda>b. b = 0) (replicate z (0 :: byte) @ x # rev xs) = x # rev xs"
    using nal(2) by (induction z) simp_all
  with nal show ?thesis by (simp add: strip_zeros_def)
qed

lemma nal_loop_annexb:
  assumes "clean_nal nal" "\<forall>(z, n) \<in> set zn. clean_nal n"
  shows "nal_loop (nal @ annexb zn) = Inr (nal # map snd zn)"
  using assms
proof (induction zn arbitrary: nal)
  case Nil
  then show ?case
    using strip_zeros_clean [of nal 0]
    by (subst nal_loop.simps) (simp add: clean_nal_def startcode_none)
next
  case (Cons zn1 zn)
  obtain z n where zn1: "zn1 = (z, n)" by (cases zn1)
  with Cons.prems have n: "clean_nal n" by simp
  then obtain d r where dr: "n = d # r" by (cases n) (auto simp: clean_nal_def)
  have sc: "h264_startcode (nal @ annexb (zn1 # zn)) = Some (length nal + z + 3)"
    using Cons.prems(1)
    by (intro startcode_skip [of _ _ z d "r @ annexb zn"]) (auto simp: clean_nal_def zn1 dr)
  have unit: "strip_zeros (take (length nal + z) (nal @ annexb (zn1 # zn))) = nal"
    using Cons.prems(1) strip_zeros_clean [of nal z] by (simp add: zn1 clean_nal_def)
  have rest: "drop (length nal + z + 3) (nal @ annexb (zn1 # zn)) = n @ annexb zn"
    by (simp add: zn1)
  have "nal_loop (n @ annexb zn) = Inr (n # map snd zn)"
    using Cons.prems n by (intro Cons.IH) auto
  with sc unit rest Cons.prems(1) show ?case
    by (subst nal_loop.simps) (simp add: zn1 clean_nal_def del: annexb_simps)
qed

lemma nal_units_annexb:
  assumes clean: "\<forall>(z, nal) \<in> set zn. clean_nal nal"
  shows "nal_units (annexb zn) = Inr (map snd zn)"
proof (cases zn)
  case Nil
  then show ?thesis by (simp add: nal_units_def)
next
  case (Cons x xs)
  obtain z n where x: "x = (z, n)" by (cases x)
  with clean Cons have n: "clean_nal n" by simp
  then obtain d r where dr: "n = d # r" by (cases n) (auto simp: clean_nal_def)
  have "h264_startcode (annexb zn) = Some (z + 3)"
    using startcode_zeros [of z d "r @ annexb xs"] by (simp add: Cons x dr)
  moreover have "drop (z + 3) (annexb zn) = n @ annexb xs" by (simp add: Cons x)
  moreover have "nal_loop (n @ annexb xs) = Inr (n # map snd xs)"
    using clean Cons n by (intro nal_loop_annexb) auto
  ultimately show ?thesis by (simp add: nal_units_def Cons x)
qed

text \<open>
  C13. The scan for NAL units recovers exactly the units of a byte stream in Annex B format,
  in order, whatever number of zero bytes precedes each start code; an empty unit, two start
  codes in a row, makes the encoder fail an assertion.
\<close>

theorem annexb_units_recovered:
  "((\<forall>(z, nal) \<in> set zn. clean_nal nal) \<longrightarrow> nal_units (annexb zn) = Inr (map snd zn))
   \<and> nal_units ([0, 0, 1] @ [0, 0, 1] @ b # bs) = Inl Assert_failed"
  using nal_units_annexb [of zn] by (simp add: nal_units_def nal_loop.simps [of "0 # 0 # 1 # b # bs"] strip_zeros_def)

theorem annexb_units_recovered_witness:
  "nal_units ([0, 0, 0, 1, 0x67, 0x42] @ [0, 0, 1, 0x68, 0xCE] @ [0, 0, 0, 1, 0x65])
     = Inr [[0x67, 0x42], [0x68, 0xCE], [0x65]]"
  using annexb_units_recovered [of "[(1, [0x67, 0x42]), (0, [0x68, 0xCE]), (1, [0x65])]"]
  by (simp add: clean_nal_def)

subsection \<open>Tracks\<close>

lemma last_nal_none:
  "(\<forall>n \<in> set nals. unat (hd n AND 0x1f) \<noteq> ty) \<Longrightarrow> last_nal ty nals old = old"
  by (simp add: last_nal_def filter_empty_conv)

lemma nal_type_bound: "unat ((b :: byte) AND 0x1f) < 32"
proof -
  have "b AND 0x1f = take_bit 5 b" using take_bit_eq_mask [of 5 b] by (simp add: mask_eq_exp_minus_1)
  then have "unat (b AND 0x1f) = take_bit 5 (unat b)" by (simp add: unsigned_take_bit_eq)
  also have "\<dots> < 2 ^ 5" by (rule take_bit_nat_less_exp)
  finally show ?thesis by simp
qed

lemma last_nal_big: "32 \<le> ty \<Longrightarrow> last_nal ty nals old = old"
  using nal_type_bound by (intro last_nal_none) (metis not_le)

fun run_rtsp :: "'e rtsp_step \<Rightarrow> delivery list \<Rightarrow> 'e \<times> ssrc_counters
  \<Rightarrow> (delivery list \<times> ('e \<times> ssrc_counters)) outcome" where
  "run_rtsp step [] s = Inr ([], s)"
| "run_rtsp step (d # ds) s =
     obind (step d s) (\<lambda>(os, s1). obind (run_rtsp step ds s1) (\<lambda>(os', s2). Inr (os @ os', s2)))"

lemma run_rtsp_ConsE:
  assumes "run_rtsp step (d # ds) s = Inr (os, s')"
  obtains os1 s1 os2 where "step d s = Inr (os1, s1)" "run_rtsp step ds s1 = Inr (os2, s')"
    "os = os1 @ os2"
  using assms by (auto simp: obind_eq_Inr)

lemma hevc_step_without_track:
  assumes "rtsp_hevc_encoder_write R d (s, g) = Inr (os, s', g')" "r5_track s = None" "r5_ctx s = None"
    and "r5_vps s = None"
  shows "r5_track s' = None \<and> r5_ctx s' = None \<and> r5_vps s' = None \<and> (\<forall>d' \<in> set os. failed d')"
  using assms
  by (cases d) (auto simp: rtsp_hevc_encoder_write_def obind_eq_Inr last_nal_big channel_deliver_def
      failed_def Let_def split: option.splits if_splits)

text \<open>
  C23. The H.265 encoder never produces a packet and never gets a track: it masks the NAL
  unit type with the five bits of H.264, which cannot give 32, 33 or 34, so the parameter
  sets are never found, whatever stream it is given.
\<close>

theorem rtsp_hevc_never_plays:
  assumes "run_rtsp (rtsp_hevc_encoder_write R) ds (rtsp_hevc_encoder_create\<lparr>r5_ch := ch\<rparr>, g)
      = Inr (os, s', g')"
  shows "r5_track s' = None \<and> (\<forall>d \<in> set os. failed d)"
proof -
  have "r5_track s' = None \<and> (\<forall>d \<in> set os. failed d)"
    if "run_rtsp (rtsp_hevc_encoder_write R) ds (s, g) = Inr (os, s', g')"
      "r5_track s = None" "r5_ctx s = None" "r5_vps s = None" for s g os
    using that
  proof (induction ds arbitrary: s g os)
    case Nil
    then show ?case by simp
  next
    case (Cons d ds)
    from Cons.prems(1) obtain os1 s1 os2 where 1: "rtsp_hevc_encoder_write R d (s, g) = Inr (os1, s1)"
      and 2: "run_rtsp (rtsp_hevc_encoder_write R) ds s1 = Inr (os2, s', g')" and os: "os = os1 @ os2"
      by (elim run_rtsp_ConsE)
    obtain t h where s1: "s1 = (t, h)" by (cases s1)
    note step = hevc_step_without_track [OF 1 [unfolded s1] Cons.prems(2-4)]
    from Cons.IH [OF 2 [unfolded s1]] step show ?case by (auto simp: os)
  qed
  with assms show ?thesis by (simp add: rtsp_hevc_encoder_create_def)
qed

definition demo_rtp :: "(nat, unit) rtp_lib" where
  "demo_rtp = \<lparr>rtp_payload_create = (\<lambda>pt enc ssrc. Some ()),
     rtp_payload_input = (\<lambda>c bs ts. ([(0x80 # bs, ts, 1)], c)), base64_encode = (\<lambda>bs. ''AA==''),
     aac_frequency = (\<lambda>_. 44100), aac_channel_configuration = (\<lambda>_. 2), aac_zeroed = 0\<rparr>"

theorem rtsp_hevc_never_plays_witness:
  "\<exists>os s' g'. run_rtsp (rtsp_hevc_encoder_write demo_rtp)
       [(Some (demo_media 40 [0, 0, 1, 0x40, 1, 0, 0, 1, 0x42, 1, 0, 0, 1, 0x44, 1]), None), (None, Some Ec_eof)]
       (rtsp_hevc_encoder_create\<lparr>r5_ch := Some 0\<rparr>, ssrc_start) = Inr (os, s', g')
     \<and> r5_track s' = None \<and> (\<forall>d \<in> set os. failed d)"
proof -
  have scan: "nal_units [0, 0, 1, 0x40, 1, 0, 0, 1, 0x42, 1, 0, 0, 1, 0x44, 1]
      = Inr [[0x40, 1], [0x42, 1], [0x44, 1]]"
    by (simp add: nal_units_def nal_loop.simps strip_zeros_def)
  obtain os s' g' where run: "run_rtsp (rtsp_hevc_encoder_write demo_rtp)
       [(Some (demo_media 40 [0, 0, 1, 0x40, 1, 0, 0, 1, 0x42, 1, 0, 0, 1, 0x44, 1]), None), (None, Some Ec_eof)]
       (rtsp_hevc_encoder_create\<lparr>r5_ch := Some 0\<rparr>, ssrc_start) = Inr (os, s', g')"
    by (simp add: rtsp_hevc_encoder_write_def rtsp_hevc_encoder_create_def demo_media_def scan
        last_nal_big channel_deliver_def Let_def)
  from rtsp_hevc_never_plays [OF run] run show ?thesis by blast
qed

text \<open>A track that was made is kept: later parameter sets do not change what was announced.\<close>

lemma h264_track_kept:
  assumes "rtsp_h264_encoder_write R d (s, g) = Inr (os, s', g')" "r4_track s = Some tk"
  shows "r4_track s' = Some tk \<and> g' = g"
  using assms
  by (cases d) (auto simp: rtsp_h264_encoder_write_def obind_eq_Inr Let_def
      split: option.splits if_splits prod.splits)

lemma run_h264_track_kept:
  assumes "run_rtsp (rtsp_h264_encoder_write R) ds (s, g) = Inr (os, s', g')" "r4_track s = Some tk"
  shows "r4_track s' = Some tk"
  using assms
proof (induction ds arbitrary: s g os)
  case Nil
  then show ?case by simp
next
  case (Cons d ds)
  from Cons.prems(1) obtain os1 s1 os2 where 1: "rtsp_h264_encoder_write R d (s, g) = Inr (os1, s1)"
    and 2: "run_rtsp (rtsp_h264_encoder_write R) ds s1 = Inr (os2, s', g')"
    by (elim run_rtsp_ConsE)
  obtain t h where s1: "s1 = (t, h)" by (cases s1)
  with h264_track_kept [OF 1 [unfolded s1] Cons.prems(2)] Cons.IH [OF 2 [unfolded s1]]
  show ?case by simp
qed

text \<open>
  The H.264 encoder announces its stream from the first parameter sets it sees: the
  frame that completes them creates the track, whose description carries exactly these sets
  and the profile of the first, and no later frame changes the track.
\<close>

theorem rtsp_h264_track_announced:
  assumes "nal_units (fb_data frame) = Inr nals" "r4_track s = None"
    and "last_nal 7 nals (r4_sps s) = Some sps" "last_nal 8 nals (r4_pps s) = Some pps"
    and "run_rtsp (rtsp_h264_encoder_write R) ((Some frame, None) # ds) (s, g) = Inr (os, s', g')"
  shows "\<exists>tk. r4_track s' = Some tk
     \<and> tk = fst (rtsp_h264_track (base64_encode R) sps pps g)
     \<and> tk_ssrc tk = sc_video g + 2 \<and> tk_sample_rate tk = 90000
     \<and> (\<exists>before after. tk_sdp tk = before @ base64_encode R sps @ '','' @ base64_encode R pps @ after)"
proof -
  from assms(5) obtain os1 s1 os2 where 1: "rtsp_h264_encoder_write R (Some frame, None) (s, g) = Inr (os1, s1)"
    and 2: "run_rtsp (rtsp_h264_encoder_write R) ds s1 = Inr (os2, s', g')"
    by (elim run_rtsp_ConsE)
  obtain t h where s1: "s1 = (t, h)" by (cases s1)
  let ?tk = "fst (rtsp_h264_track (base64_encode R) sps pps g)"
  have "r4_track t = Some ?tk"
    using 1 s1 assms(1-4)
    by (auto simp: rtsp_h264_encoder_write_def obind_eq_Inr Let_def
        split: option.splits if_splits prod.splits)
  with run_h264_track_kept [OF 2 [unfolded s1]] have "r4_track s' = Some ?tk" by simp
  moreover have "tk_ssrc ?tk = sc_video g + 2" "tk_sample_rate ?tk = 90000"
    by (simp_all add: rtsp_h264_track_def video_ssrc_def Let_def)
  moreover have "\<exists>before after. tk_sdp ?tk = before @ base64_encode R sps @ '','' @ base64_encode R pps @ after"
    by (intro exI [of _ "''m=video 0 RTP/AVP 96'' @ CRLF @ ''c=IN IP4 0.0.0.0'' @ NL
             @ ''a=rtpmap:96 H264/90000'' @ CRLF
             @ ''a=fmtp:96 packetization-mode=1; profile-level-id='' @ show_hex_pad 6 (profile_level_id sps)
             @ ''; sprop-parameter-sets=''"] exI [of _ "CRLF @ ''a=control:'' @ kRtspVideoTrackId @ CRLF"])
      (simp add: rtsp_h264_track_def video_ssrc_def Let_def)
  ultimately show ?thesis by blast
qed

theorem rtsp_h264_track_announced_witness:
  "\<exists>os s' g' tk. run_rtsp (rtsp_h264_encoder_write demo_rtp)
       [(Some (demo_media 40 [0, 0, 1, 0x67, 0x42, 0xC0, 0x1E, 0, 0, 1, 0x68, 0xCE]), None),
        (Some (demo_media 80 [0, 0, 1, 0x67, 0x4D, 0xC0, 0x1F, 0, 0, 1, 0x68, 0xCF]), None)]
       (rtsp_h264_encoder_create\<lparr>r4_ch := Some 0\<rparr>, ssrc_start) = Inr (os, s', g')
     \<and> r4_track s' = Some tk
     \<and> tk = fst (rtsp_h264_track (base64_encode demo_rtp) [0x67, 0x42, 0xC0, 0x1E] [0x68, 0xCE] ssrc_start)
     \<and> tk_ssrc tk = 0xff4"
proof -
  let ?f1 = "demo_media 40 [0, 0, 1, 0x67, 0x42, 0xC0, 0x1E, 0, 0, 1, 0x68, 0xCE]"
  let ?f2 = "demo_media 80 [0, 0, 1, 0x67, 0x4D, 0xC0, 0x1F, 0, 0, 1, 0x68, 0xCF]"
  let ?e = "rtsp_h264_encoder_create\<lparr>r4_ch := Some 0\<rparr>"
  have scan1: "nal_units (fb_data ?f1) = Inr [[0x67, 0x42, 0xC0, 0x1E], [0x68, 0xCE]]"
    and scan2: "nal_units (fb_data ?f2) = Inr [[0x67, 0x4D, 0xC0, 0x1F], [0x68, 0xCF]]"
    by (simp_all add: demo_media_def nal_units_def nal_loop.simps strip_zeros_def)
  obtain os s' g' where run: "run_rtsp (rtsp_h264_encoder_write demo_rtp)
      ((Some ?f1, None) # [(Some ?f2, None)]) (?e, ssrc_start) = Inr (os, s', g')"
    by (simp add: rtsp_h264_encoder_write_def rtsp_h264_encoder_create_def scan1 scan2 last_nal_def
        rtsp_h264_track_def video_ssrc_def encode_rtp_def channel_deliver_def demo_rtp_def Let_def)
  have none: "r4_track ?e = None" "r4_sps ?e = None" "r4_pps ?e = None"
    by (simp_all add: rtsp_h264_encoder_create_def)
  have sets: "last_nal 7 [[0x67, 0x42, 0xC0, 0x1E], [0x68, 0xCE]] (r4_sps ?e) = Some [0x67, 0x42, 0xC0, 0x1E]"
    "last_nal 8 [[0x67, 0x42, 0xC0, 0x1E], [0x68, 0xCE]] (r4_pps ?e) = Some [0x68, 0xCE]"
    by (simp_all add: last_nal_def)
  have "sc_video ssrc_start + 2 = 0xff4" by (simp add: ssrc_start_def)
  with rtsp_h264_track_announced [OF scan1 none(1) sets run] run show ?thesis
    by metis
qed

end
