(* ===== verification/Rtsp_Sink.thy ===== *)
theory Rtsp_Sink
  imports Media_Sink Rtsp_Encoders Rtmp_Sink
begin

text \<open>
  The RTSP sink of a stream (\<^verbatim>\<open>rtsp_sink.cc\<close>): it runs the RTP encoders, writes every
  packet to every channel and tells a session which tracks there are. It keeps nothing for a
  session that joins later.
\<close>

record 'c rtsp_sink =
  sk_id :: string
  sk_chs :: "channel_ref list"
  sk_video_encoder :: "'c rtsp_h264_encoder option"
  sk_audio_encoder :: "'c rtsp_aac_encoder option"

definition rtsp_sink_create :: "string \<Rightarrow> 'c rtsp_sink" where
  "rtsp_sink_create sid = \<lparr>sk_id = sid, sk_chs = [], sk_video_encoder = None, sk_audio_encoder = None\<rparr>"

definition rtsp_sink_add_codec :: "int \<Rightarrow> 'c rtsp_sink \<Rightarrow> 'c rtsp_sink" where
  "rtsp_sink_add_codec codec s =
     (if codec = codec_code H264
      then s\<lparr>sk_video_encoder := Some (rtsp_h264_encoder_create\<lparr>r4_ch := Some encoder_channel\<rparr>)\<rparr>
      else if codec = codec_code Aac
      then s\<lparr>sk_audio_encoder := Some (rtsp_aac_encoder_create\<lparr>ra_ch := Some encoder_channel\<rparr>)\<rparr>
      else s)"

definition rtsp_sink_on_frame :: "delivery \<Rightarrow> 'c rtsp_sink \<Rightarrow> (routed \<times> 'c rtsp_sink) outcome" where
  "rtsp_sink_on_frame d s = Inr (broadcast (sk_chs s) d, s)"

definition rtsp_sink_add_channel :: "channel_ref \<Rightarrow> 'c rtsp_sink \<Rightarrow> routed \<times> 'c rtsp_sink" where
  "rtsp_sink_add_channel ch s = ([], s\<lparr>sk_chs := chs_insert ch (sk_chs s)\<rparr>)"

definition rtsp_sink_del_channel :: "channel_ref \<Rightarrow> 'c rtsp_sink \<Rightarrow> 'c rtsp_sink" where
  "rtsp_sink_del_channel ch s = s\<lparr>sk_chs := chs_erase ch (sk_chs s)\<rparr>"

definition rtsp_video_write ::
  "('a, 'c) rtp_lib \<Rightarrow> delivery \<Rightarrow> 'c rtsp_sink \<times> ssrc_counters
   \<Rightarrow> (routed \<times> ('c rtsp_sink \<times> ssrc_counters)) outcome" where
  "rtsp_video_write R d sg =
     (case sk_video_encoder (fst sg) of
        None \<Rightarrow> Inr ([], sg)
      | Some e \<Rightarrow> obind (rtsp_h264_encoder_write R d (e, snd sg)) (\<lambda>(ds, e', g').
          obind (on_deliveries rtsp_sink_on_frame ds ((fst sg)\<lparr>sk_video_encoder := Some e'\<rparr>))
            (\<lambda>(os, s'). Inr (os, (s', g')))))"

definition rtsp_audio_write ::
  "('a, 'c) rtp_lib \<Rightarrow> 'a aac_lib \<Rightarrow> delivery \<Rightarrow> 'c rtsp_sink \<times> ssrc_counters
   \<Rightarrow> (routed \<times> ('c rtsp_sink \<times> ssrc_counters)) outcome" where
  "rtsp_audio_write R La d sg =
     (case sk_audio_encoder (fst sg) of
        None \<Rightarrow> Inr ([], sg)
      | Some e \<Rightarrow> obind (rtsp_aac_encoder_write R La d (e, snd sg)) (\<lambda>(ds, e', g').
          obind (on_deliveries rtsp_sink_on_frame ds ((fst sg)\<lparr>sk_audio_encoder := Some e'\<rparr>))
            (\<lambda>(os, s'). Inr (os, (s', g')))))"

definition rtsp_sink_write ::
  "('a, 'c) rtp_lib \<Rightarrow> 'a aac_lib \<Rightarrow> delivery \<Rightarrow> 'c rtsp_sink \<times> ssrc_counters
   \<Rightarrow> (routed \<times> ('c rtsp_sink \<times> ssrc_counters)) outcome" where
  "rtsp_sink_write R La d sg =
     (case d of
        (f, Some e) \<Rightarrow>
          obind (rtsp_video_write R d sg) (\<lambda>(os, sg1).
          obind (rtsp_audio_write R La d sg1) (\<lambda>(os', sg2). Inr (os @ os', sg2)))
      | (None, None) \<Rightarrow> Inl Null_deref
      | (Some frame, None) \<Rightarrow>
          obind (if fb_media frame = tag_code Video then rtsp_video_write R d sg else Inr ([], sg)) (\<lambda>(os, sg1).
          obind (if fb_media frame = tag_code Audio then rtsp_audio_write R La d sg1 else Inr ([], sg1)) (\<lambda>(os', sg2).
            Inr (os @ os', sg2))))"

text \<open>\<^verbatim>\<open>tracks\<close>: a track that was not made yet is the null pointer.\<close>

definition rtsp_sink_tracks :: "'c rtsp_sink \<Rightarrow> rtsp_track option list" where
  "rtsp_sink_tracks s =
     (case sk_video_encoder s of None \<Rightarrow> [] | Some e \<Rightarrow> [r4_track e])
     @ (case sk_audio_encoder s of None \<Rightarrow> [] | Some e \<Rightarrow> [ra_track e])"

text \<open>The events of the RTSP sink, which sessions enter and leave without its executor.\<close>

fun rtsp_sink_event :: "sink_event \<Rightarrow> 'c rtsp_sink \<Rightarrow> (routed \<times> 'c rtsp_sink) outcome" where
  "rtsp_sink_event (Frame d) s = rtsp_sink_on_frame d s"
| "rtsp_sink_event (Join ch) s = Inr (rtsp_sink_add_channel ch s)"
| "rtsp_sink_event (Leave ch) s = Inr ([], rtsp_sink_del_channel ch s)"

interpretation rtsp_sinks: media_sink sk_chs rtsp_sink_event
  by unfold_locales
    (auto simp: rtsp_sink_on_frame_def rtsp_sink_add_channel_def rtsp_sink_del_channel_def)

text \<open>
  C16. Sessions of a stream are independent of each other: in any sequence of frames, joins
  and leaves, a session that is joined to the RTSP or the RTMP sink and stays receives every
  packet exactly once and in order, and one that has left receives nothing.
\<close>

theorem sessions_are_independent:
  "(run_steps rtsp_sink_event es s = Inr (os, s') \<and> wf_chs (sk_chs s)
      \<and> Join ch \<notin> set es \<and> Leave ch \<notin> set es
      \<longrightarrow> received ch os = (if ch \<in> set (sk_chs s) then frames_of es else []))
   \<and> (run_steps rtmp_sink_event es t = Inr (ot, t') \<and> wf_chs (rk_chs t)
      \<and> Join ch \<notin> set es \<and> Leave ch \<notin> set es
      \<longrightarrow> received ch ot = (if ch \<in> set (rk_chs t) then frames_of es else []))
   \<and> (run_steps rtsp_sink_event (Leave ch # es) s = Inr (ol, s'') \<and> wf_chs (sk_chs s)
      \<and> Join ch \<notin> set es \<and> Leave ch \<notin> set es \<longrightarrow> received ch ol = [])"
  using rtsp_sinks.member_sees_all [of es s os s' ch] rtmp_sinks.member_sees_all [of es t ot t' ch]
    rtsp_sinks.gone_after_leave [of ch es s ol s'']
  by auto

theorem sessions_are_independent_witness:
  "\<exists>os s'. run_steps rtsp_sink_event [Frame (None, Some Ec_eof), Join 9, Leave 3, Frame (None, Some Ec_canceled)]
       ((rtsp_sink_create ''rtsp_live_a'')\<lparr>sk_chs := [3, 7]\<rparr> :: unit rtsp_sink) = Inr (os, s')
     \<and> received 7 os = [(None, Some Ec_eof), (None, Some Ec_canceled)]"
proof -
  let ?es = "[Frame (None, Some Ec_eof), Join 9, Leave 3, Frame (None, Some Ec_canceled)]"
  let ?s = "(rtsp_sink_create ''rtsp_live_a'')\<lparr>sk_chs := [3, 7]\<rparr> :: unit rtsp_sink"
  obtain os s' where run: "run_steps rtsp_sink_event ?es ?s = Inr (os, s')"
    by (simp add: rtsp_sink_on_frame_def rtsp_sink_add_channel_def)
  have "wf_chs (sk_chs ?s)" by (simp add: wf_chs_def)
  with run have "received 7 os = (if 7 \<in> set (sk_chs ?s) then frames_of ?es else [])"
    by (intro sessions_are_independent [THEN conjunct1, THEN mp, of ?es ?s os s' 7] conjI) simp_all
  with run show ?thesis by auto
qed

end
