(* ===== verification/Rtmp_Source.thy ===== *)
theory Rtmp_Source
  imports Rtsp_Sink Rtmp_Lib
begin

text \<open>
  The demultiplexer of an RTMP publisher (\<^verbatim>\<open>rtmp_demuxer.cc\<close>) and its source
  (\<^verbatim>\<open>rtmp_source.cc\<close>), which owns the two sinks of the stream: messages are decoded, and
  each decoded frame goes first through the RTMP sink and then through the RTSP sink.
\<close>

subsection \<open>Demultiplexer\<close>

text \<open>
  The AMF reader is librtmp's: \<open>amf_read_string\<close> is \<^verbatim>\<open>AMFReadString\<close> on the bytes after
  the type marker, the string with the rest of the input; \<open>amf_read_items\<close> gives the values
  of the variables after \<^verbatim>\<open>amf_read_items\<close>, whose result the code only reports.
\<close>

record amf_meta =
  md_audiocodecid :: double
  md_audiodatarate :: double
  md_audiosamplesize :: double
  md_videocodecid :: double
  md_videodatarate :: double
  md_framerate :: double
  md_height :: double
  md_width :: double
  md_duration :: double
  md_filesize :: double

record amf_lib =
  AMF_STRING :: byte
  amf_read_string :: "bytes \<Rightarrow> (string \<times> bytes) option"
  amf_read_items :: "bytes \<Rightarrow> amf_meta"

record ('v, 'a) rtmp_demuxer =
  dm_ch :: "channel_ref option"
  dm_codec_cb :: bool
  dm_video_decoder :: "'v rtmp_h264_decoder option"
  dm_audio_decoder :: "'a rtmp_aac_decoder option"

text \<open>The name of the message, after an optional \<^verbatim>\<open>@setDataFrame\<close>, and what follows it.\<close>

definition script_string :: "amf_lib \<Rightarrow> bytes \<Rightarrow> (string \<times> bytes) option outcome" where
  "script_string A data =
     obind (byte_at data 0) (\<lambda>b.
       Inr (if b \<noteq> AMF_STRING A then None else amf_read_string A (drop 1 data)))"

definition script_name :: "amf_lib \<Rightarrow> bytes \<Rightarrow> (string \<times> bytes) option outcome" where
  "script_name A data =
     obind (script_string A data) (\<lambda>r.
       case r of
         None \<Rightarrow> Inr None
       | Some (name, rest) \<Rightarrow>
           if name = ''@setDataFrame'' then script_string A rest else Inr (Some (name, rest)))"

text \<open>The options of the codecs; \<open>co0\<close> is what an uninitialised \<^verbatim>\<open>codec_option\<close> holds.\<close>

definition video_option :: "codec_option \<Rightarrow> amf_meta \<Rightarrow> codec_option" where
  "video_option co0 md =
     (if md_videocodecid md = of_int (codec_code H264)
      then co0\<lparr>co_paylod_type := codec_code H264,
               co_sample_rate := trunc (md_videodatarate md),
               co_config := (co_config co0)
                 (''framerate'' \<mapsto> show_int (trunc (md_framerate md)),
                  ''width'' \<mapsto> show_int (trunc (md_width md)),
                  ''height'' \<mapsto> show_int (trunc (md_height md)),
                  ''duration'' \<mapsto> show_int (trunc (md_duration md)),
                  ''filesize'' \<mapsto> show_int (trunc (md_filesize md)))\<rparr>
      else co0)"

definition audio_codec_id :: "amf_meta \<Rightarrow> int" where
  "audio_codec_id md = push_bit 4 (trunc (md_audiocodecid md))"

definition audio_option :: "codec_option \<Rightarrow> amf_meta \<Rightarrow> codec_option" where
  "audio_option co0 md =
     (if audio_codec_id md = codec_code Aac
      then co0\<lparr>co_paylod_type := codec_code Aac,
               co_sample_rate := trunc (md_audiodatarate md),
               co_config := (co_config co0)
                 (''audiosamplesize'' \<mapsto> show_int (trunc (md_audiosamplesize md)))\<rparr>
      else co0)"

text \<open>The result: the calls of the codec callback, and the new state.\<close>

definition demuxer_script ::
  "amf_lib \<Rightarrow> codec_option \<Rightarrow> 'a \<Rightarrow> frame_buffer \<Rightarrow> ('v, 'a) rtmp_demuxer
   \<Rightarrow> ((int \<times> codec_option) list \<times> ('v, 'a) rtmp_demuxer) outcome" where
  "demuxer_script A co0 aac0 frame s =
     obind (script_name A (fb_data frame)) (\<lambda>r.
       case r of
         None \<Rightarrow> Inr ([], s)
       | Some (name, rest) \<Rightarrow>
           if name \<noteq> ''onMetaData'' then Inr ([], s)
           else let md = amf_read_items A rest;
                    s1 = (if md_videocodecid md = of_int (codec_code H264)
                          then s\<lparr>dm_video_decoder := Some \<lparr>h4_ch = None, h4_args = None\<rparr>\<rparr> else s);
                    s2 = (if audio_codec_id md = codec_code Aac
                          then s1\<lparr>dm_audio_decoder := Some \<lparr>ad_ch = None, ad_aac = aac0\<rparr>\<rparr> else s1);
                    s3 = s2\<lparr>dm_video_decoder := map_option (\<lambda>e. e\<lparr>h4_ch := dm_ch s2\<rparr>) (dm_video_decoder s2),
                            dm_audio_decoder := map_option (\<lambda>e. e\<lparr>ad_ch := dm_ch s2\<rparr>) (dm_audio_decoder s2)\<rparr>
                in Inr (if dm_codec_cb s
                        then [(trunc (md_videocodecid md), video_option co0 md),
                              (audio_codec_id md, audio_option co0 md)] else [],
                        s3))"

record ('v, 'a) source_libs =
  sl_flv :: flv_lib
  sl_avc :: "'v avc_lib"
  sl_aac :: "'a aac_lib"
  sl_amf :: amf_lib
  sl_co0 :: codec_option
  sl_aac0 :: 'a

definition demuxer_video ::
  "('v, 'a) source_libs \<Rightarrow> delivery \<Rightarrow> ('v, 'a) rtmp_demuxer \<Rightarrow> (delivery list \<times> ('v, 'a) rtmp_demuxer) outcome" where
  "demuxer_video S d s =
     (case dm_video_decoder s of
        None \<Rightarrow> Inr ([], s)
      | Some e \<Rightarrow> obind (rtmp_h264_decoder_write (sl_flv S) (sl_avc S) e d) (\<lambda>(ds, e').
          Inr (ds, s\<lparr>dm_video_decoder := Some e'\<rparr>)))"

definition demuxer_audio ::
  "('v, 'a) source_libs \<Rightarrow> delivery \<Rightarrow> ('v, 'a) rtmp_demuxer \<Rightarrow> (delivery list \<times> ('v, 'a) rtmp_demuxer) outcome" where
  "demuxer_audio S d s =
     (case dm_audio_decoder s of
        None \<Rightarrow> Inr ([], s)
      | Some e \<Rightarrow> obind (rtmp_aac_decoder_write (sl_flv S) (sl_aac S) e d) (\<lambda>(ds, e').
          Inr (ds, s\<lparr>dm_audio_decoder := Some e'\<rparr>)))"

definition rtmp_demuxer_write ::
  "('v, 'a) source_libs \<Rightarrow> delivery \<Rightarrow> ('v, 'a) rtmp_demuxer
   \<Rightarrow> ((int \<times> codec_option) list \<times> delivery list \<times> ('v, 'a) rtmp_demuxer) outcome" where
  "rtmp_demuxer_write S d s =
     (case d of
        (f, Some e) \<Rightarrow>
          obind (demuxer_video S d s) (\<lambda>(ds, s1).
          obind (demuxer_audio S d s1) (\<lambda>(ds', s2). Inr ([], ds @ ds', s2)))
      | (None, None) \<Rightarrow> Inl Null_deref
      | (Some frame, None) \<Rightarrow>
          if fb_codec frame = tag_code Script
          then obind (demuxer_script (sl_amf S) (sl_co0 S) (sl_aac0 S) frame s) (\<lambda>(cs, s'). Inr (cs, [], s'))
          else if fb_codec frame = tag_code Video
          then obind (demuxer_video S d s) (\<lambda>(ds, s'). Inr ([], ds, s'))
          else if fb_codec frame = tag_code Audio
          then obind (demuxer_audio S d s) (\<lambda>(ds, s'). Inr ([], ds, s'))
          else Inr ([], [], s))"

subsection \<open>Source\<close>

record ('v, 'a, 'c) rtmp_source =
  so_id :: string
  so_demuxer :: "('v, 'a) rtmp_demuxer"
  so_rtmp_sink :: "('v, 'a) rtmp_sink"
  so_rtsp_sink :: "'c rtsp_sink"
  so_ssrc :: ssrc_counters

text \<open>
  The two sinks are entered into the process-wide registry, the RTSP sink first. An entry
  names the stream that owns the sink and says which of the two it is.
\<close>

datatype sink_kind = Rtmp_kind | Rtsp_kind

definition rtmp_source_register ::
  "nat \<Rightarrow> string \<Rightarrow> (nat \<times> sink_kind) sinks \<Rightarrow> (nat \<times> sink_kind) sinks" where
  "rtmp_source_register owner sid sinks =
     sink_add (\<lambda>_. ''rtmp_'' @ sid) (owner, Rtmp_kind)
       (sink_add (\<lambda>_. ''rtsp_'' @ sid) (owner, Rtsp_kind) sinks)"

definition rtmp_source_create :: "string \<Rightarrow> ssrc_counters \<Rightarrow> ('v, 'a, 'c) rtmp_source" where
  "rtmp_source_create sid g =
     \<lparr>so_id = sid,
      so_demuxer = \<lparr>dm_ch = Some encoder_channel, dm_codec_cb = True, dm_video_decoder = None,
                    dm_audio_decoder = None\<rparr>,
      so_rtmp_sink = rtmp_sink_create (''rtmp_'' @ sid),
      so_rtsp_sink = rtsp_sink_create (''rtsp_'' @ sid),
      so_ssrc = g\<rparr>"

definition rtmp_source_on_codec ::
  "('v, 'a) source_libs \<Rightarrow> int \<Rightarrow> ('v, 'a, 'c) rtmp_source \<Rightarrow> ('v, 'a, 'c) rtmp_source" where
  "rtmp_source_on_codec S codec s =
     s\<lparr>so_rtmp_sink := rtmp_sink_add_codec (sl_avc S) (sl_aac0 S) codec (so_rtmp_sink s),
       so_rtsp_sink := rtsp_sink_add_codec codec (so_rtsp_sink s)\<rparr>"

text \<open>What the sessions of the two sinks receive, in the order in which it is written.\<close>

datatype source_out = To_rtmp channel_ref delivery | To_rtsp channel_ref delivery

definition rtmp_source_on_frame ::
  "('v, 'a) source_libs \<Rightarrow> ('a, 'c) rtp_lib \<Rightarrow> delivery \<Rightarrow> ('v, 'a, 'c) rtmp_source
   \<Rightarrow> (source_out list \<times> ('v, 'a, 'c) rtmp_source) outcome" where
  "rtmp_source_on_frame S R d s =
     obind (rtmp_sink_write (sl_flv S) (sl_avc S) (sl_aac S) d (so_rtmp_sink s)) (\<lambda>(os, rk).
     obind (rtsp_sink_write R (sl_aac S) d (so_rtsp_sink s, so_ssrc s)) (\<lambda>(os', (sk, g)).
       Inr (map (\<lambda>(c, x). To_rtmp c x) os @ map (\<lambda>(c, x). To_rtsp c x) os',
            s\<lparr>so_rtmp_sink := rk, so_rtsp_sink := sk, so_ssrc := g\<rparr>)))"

definition rtmp_source_write ::
  "('v, 'a) source_libs \<Rightarrow> ('a, 'c) rtp_lib \<Rightarrow> delivery \<Rightarrow> ('v, 'a, 'c) rtmp_source
   \<Rightarrow> (source_out list \<times> ('v, 'a, 'c) rtmp_source) outcome" where
  "rtmp_source_write S R d s =
     obind (rtmp_demuxer_write S d (so_demuxer s)) (\<lambda>(codecs, ds, dm).
       let s1 = fold (\<lambda>(codec, op). rtmp_source_on_codec S codec) codecs (s\<lparr>so_demuxer := dm\<rparr>)
       in ofold (\<lambda>x (os, t). obind (rtmp_source_on_frame S R x t) (\<lambda>(os', t'). Inr (os @ os', t')))
            ds ([], s1))"

subsection \<open>The end of a stream\<close>

definition wf_source :: "('v, 'a, 'c) rtmp_source \<Rightarrow> bool" where
  "wf_source s \<longleftrightarrow>
     (\<forall>e. dm_video_decoder (so_demuxer s) = Some e \<longrightarrow> h4_ch e \<noteq> None)
     \<and> (\<forall>e. dm_audio_decoder (so_demuxer s) = Some e \<longrightarrow> ad_ch e \<noteq> None)
     \<and> (\<forall>e. rk_video_encoder (so_rtmp_sink s) = Some e \<longrightarrow> e4_ch e \<noteq> None)
     \<and> (\<forall>e. rk_audio_encoder (so_rtmp_sink s) = Some e \<longrightarrow> ea_ch e \<noteq> None)
     \<and> (\<forall>e. sk_video_encoder (so_rtsp_sink s) = Some e \<longrightarrow> r4_ch e \<noteq> None)
     \<and> (\<forall>e. sk_audio_encoder (so_rtsp_sink s) = Some e \<longrightarrow> ra_ch e \<noteq> None)"

definition present :: "'b option \<Rightarrow> nat" where
  "present x = (if x = None then 0 else 1)"

definition decoders :: "('v, 'a, 'c) rtmp_source \<Rightarrow> nat" where
  "decoders s = present (dm_video_decoder (so_demuxer s)) + present (dm_audio_decoder (so_demuxer s))"

definition rtmp_encoders :: "('v, 'a, 'c) rtmp_source \<Rightarrow> nat" where
  "rtmp_encoders s = present (rk_video_encoder (so_rtmp_sink s)) + present (rk_audio_encoder (so_rtmp_sink s))"

definition rtsp_encoders :: "('v, 'a, 'c) rtmp_source \<Rightarrow> nat" where
  "rtsp_encoders s = present (sk_video_encoder (so_rtsp_sink s)) + present (sk_audio_encoder (so_rtsp_sink s))"

definition copies :: "nat \<Rightarrow> 'b list \<Rightarrow> 'b list" where
  "copies n xs = concat (replicate n xs)"

lemma copies_simps [simp]: "copies 0 xs = []" "copies (Suc n) xs = xs @ copies n xs"
  by (simp_all add: copies_def)

lemma copies_add: "copies (m + n) xs = copies m xs @ copies n xs"
  by (simp add: copies_def replicate_add)

lemma count_copies: "count_list (copies n xs) x = n * count_list xs x"
  by (induction n) (simp_all add: count_list_append)

lemma rtmp_sink_eof:
  assumes "\<forall>e. rk_video_encoder s = Some e \<longrightarrow> e4_ch e \<noteq> None"
    "\<forall>e. rk_audio_encoder s = Some e \<longrightarrow> ea_ch e \<noteq> None"
  shows "rtmp_sink_write F Lv La (None, Some e) s =
    Inr (copies (present (rk_video_encoder s) + present (rk_audio_encoder s))
           (broadcast (rk_chs s) (None, Some e)), s)"
  using assms
  by (auto simp: rtmp_sink_write_def sink_video_write_def sink_audio_write_def on_deliveries_def
      h264_encoder.error_passes aac_encoder.error_passes rtmp_sink_on_frame_def present_def
      split: option.splits)

lemma rtsp_sink_eof:
  assumes "\<forall>e. sk_video_encoder s = Some e \<longrightarrow> r4_ch e \<noteq> None"
    "\<forall>e. sk_audio_encoder s = Some e \<longrightarrow> ra_ch e \<noteq> None"
  shows "rtsp_sink_write R La (None, Some e) (s, g) =
    Inr (copies (present (sk_video_encoder s) + present (sk_audio_encoder s))
           (broadcast (sk_chs s) (None, Some e)), (s, g))"
  using assms
  by (auto simp: rtsp_sink_write_def rtsp_video_write_def rtsp_audio_write_def on_deliveries_def
      rtsp_h264_encoder_write_def rtsp_aac_encoder_write_def channel_deliver_def
      rtsp_sink_on_frame_def present_def Let_def split: option.splits)

definition eof_round :: "('v, 'a, 'c) rtmp_source \<Rightarrow> error_code \<Rightarrow> source_out list" where
  "eof_round s e =
     map (\<lambda>(c, x). To_rtmp c x) (copies (rtmp_encoders s) (broadcast (rk_chs (so_rtmp_sink s)) (None, Some e)))
     @ map (\<lambda>(c, x). To_rtsp c x) (copies (rtsp_encoders s) (broadcast (sk_chs (so_rtsp_sink s)) (None, Some e)))"

lemma source_frame_eof:
  "wf_source s \<Longrightarrow> rtmp_source_on_frame S R (None, Some e) s = Inr (eof_round s e, s)"
  by (simp add: rtmp_source_on_frame_def wf_source_def rtmp_sink_eof rtsp_sink_eof eof_round_def
      rtmp_encoders_def rtsp_encoders_def)

lemma demuxer_eof:
  "wf_source s \<Longrightarrow> rtmp_demuxer_write S (None, Some e) (so_demuxer s) =
     Inr ([], replicate (decoders s) (None, Some e), so_demuxer s)"
  by (auto simp: rtmp_demuxer_write_def demuxer_video_def demuxer_audio_def wf_source_def
      h264_decoder.error_passes aac_decoder.error_passes decoders_def present_def numeral_2_eq_2
      split: option.splits)

lemma source_eof:
  assumes "wf_source s"
  shows "rtmp_source_write S R (None, Some e) s = Inr (copies (decoders s) (eof_round s e), s)"
proof -
  have "ofold (\<lambda>x (os, t). obind (rtmp_source_on_frame S R x t) (\<lambda>(os', t'). Inr (os @ os', t')))
      (replicate n (None, Some e)) (os, s) = Inr (os @ copies n (eof_round s e), s)" for n os
    by (induction n arbitrary: os) (simp_all add: source_frame_eof [OF assms])
  with assms show ?thesis by (simp add: rtmp_source_write_def demuxer_eof Let_def)
qed

lemma count_to_rtmp:
  "distinct chs \<Longrightarrow> ch \<in> set chs \<Longrightarrow>
   count_list (map (\<lambda>(c, x). To_rtmp c x) (broadcast chs d)) (To_rtmp ch d) = 1"
  by (induction chs) (auto simp: broadcast_def count_list_0_iff)

lemma count_to_rtsp:
  "distinct chs \<Longrightarrow> ch \<in> set chs \<Longrightarrow>
   count_list (map (\<lambda>(c, x). To_rtsp c x) (broadcast chs d)) (To_rtsp ch d) = 1"
  by (induction chs) (auto simp: broadcast_def count_list_0_iff)

lemma count_other:
  "count_list (map (\<lambda>(c, x). To_rtsp c x) (broadcast chs d)) (To_rtmp ch d') = 0"
  "count_list (map (\<lambda>(c, x). To_rtmp c x) (broadcast chs d)) (To_rtsp ch d') = 0"
  by (auto simp: broadcast_def count_list_0_iff)

lemma map_copies: "map f (copies n xs) = copies n (map f xs)"
  by (induction n) simp_all

lemma count_eof_round:
  "distinct (rk_chs (so_rtmp_sink s)) \<Longrightarrow> ch \<in> set (rk_chs (so_rtmp_sink s)) \<Longrightarrow>
     count_list (eof_round s e) (To_rtmp ch (None, Some e)) = rtmp_encoders s"
  "distinct (sk_chs (so_rtsp_sink s)) \<Longrightarrow> ch \<in> set (sk_chs (so_rtsp_sink s)) \<Longrightarrow>
     count_list (eof_round s e) (To_rtsp ch (None, Some e)) = rtsp_encoders s"
  by (auto simp: eof_round_def count_list_append map_copies count_copies count_to_rtmp count_to_rtsp
      count_other)

text \<open>
  C21. When a publisher ends, every session of its stream is told, but not once: a session
  is told as many times as there are decoders times encoders on its side of the stream, and
  not at all while the stream has no decoder, that is before its metadata arrived.
\<close>

theorem end_of_stream_told:
  assumes "wf_source s" "distinct (rk_chs (so_rtmp_sink s))" "distinct (sk_chs (so_rtsp_sink s))"
  shows "\<exists>os. rtmp_source_write S R (None, Some e) s = Inr (os, s)
     \<and> (\<forall>ch. ch \<in> set (rk_chs (so_rtmp_sink s)) \<longrightarrow>
          count_list os (To_rtmp ch (None, Some e)) = decoders s * rtmp_encoders s)
     \<and> (\<forall>ch. ch \<in> set (sk_chs (so_rtsp_sink s)) \<longrightarrow>
          count_list os (To_rtsp ch (None, Some e)) = decoders s * rtsp_encoders s)"
  using source_eof [OF assms(1)] count_eof_round [of s] assms(2,3)
  by (simp add: count_copies)

theorem end_of_stream_told_witness:
  "\<exists>S R. \<exists>s :: (unit, nat, unit) rtmp_source. \<exists>os.
     rk_chs (so_rtmp_sink s) = [4] \<and> decoders s = 2 \<and> rtmp_encoders s = 2
     \<and> rtmp_source_write S R (None, Some Ec_eof) s = Inr (os, s)
     \<and> count_list os (To_rtmp 4 (None, Some Ec_eof)) = 4"
proof -
  fix Lv La R S
  let ?dm = "\<lparr>dm_ch = Some 0, dm_codec_cb = True,
      dm_video_decoder = Some \<lparr>h4_ch = Some 0, h4_args = None\<rparr>,
      dm_audio_decoder = Some \<lparr>ad_ch = Some 0, ad_aac = 0\<rparr>\<rparr> :: (unit, nat) rtmp_demuxer"
  let ?rk = "\<lparr>rk_id = ''rtmp_live_a'', rk_chs = [4], rk_video_config = None, rk_audio_config = None,
      rk_gop_cache = [],
      rk_video_encoder = Some \<lparr>e4_ch = Some 0, e4_avc = (), e4_vcl = 0, e4_update = 0,
                                e4_video_sequence_header = 0\<rparr>,
      rk_audio_encoder = Some \<lparr>ea_ch = Some 0, ea_aac = 0, ea_audio_sequence_header = 0\<rparr>\<rparr>
      :: (unit, nat) rtmp_sink"
  let ?s = "(rtmp_source_create ''live_a'' ssrc_start :: (unit, nat, unit) rtmp_source)
      \<lparr>so_demuxer := ?dm, so_rtmp_sink := ?rk\<rparr>"
  have wf: "wf_source ?s" "distinct (rk_chs (so_rtmp_sink ?s))" "distinct (sk_chs (so_rtsp_sink ?s))"
    by (simp_all add: wf_source_def rtmp_source_create_def rtsp_sink_create_def)
  obtain os where os: "rtmp_source_write S R (None, Some Ec_eof) ?s = Inr (os, ?s)"
    and n: "\<forall>ch. ch \<in> set (rk_chs (so_rtmp_sink ?s)) \<longrightarrow>
          count_list os (To_rtmp ch (None, Some Ec_eof)) = decoders ?s * rtmp_encoders ?s"
    using end_of_stream_told [OF wf] by blast
  have two: "decoders ?s = 2" "rtmp_encoders ?s = 2"
    by (simp_all add: decoders_def rtmp_encoders_def present_def)
  with n have "count_list os (To_rtmp 4 (None, Some Ec_eof)) = 4" by simp
  with os two show ?thesis
    by (intro exI [of _ S] exI [of _ R] exI [of _ ?s] exI [of _ os]) simp
qed

text \<open>
  A publisher is found by its players: the source of a stream is registered under the
  two names that RTMP and RTSP sessions look up, and the registration leaves the names of
  all other streams alone; the last publisher of a name wins.
\<close>

theorem publisher_is_found:
  "sink_get (rtmp_source_register owner (app @ ''_'' @ stream) sinks) (''rtmp_'' @ app @ ''_'' @ stream)
     = Some (owner, Rtmp_kind)
   \<and> sink_get (rtmp_source_register owner (app @ ''_'' @ stream) sinks) (''rtsp_'' @ app @ ''_'' @ stream)
     = Some (owner, Rtsp_kind)
   \<and> (name \<noteq> ''rtmp_'' @ app @ ''_'' @ stream \<and> name \<noteq> ''rtsp_'' @ app @ ''_'' @ stream \<longrightarrow>
      sink_get (rtmp_source_register owner (app @ ''_'' @ stream) sinks) name = sink_get sinks name)"
  by (simp add: rtmp_source_register_def sinks.find_put)

theorem publisher_is_found_witness:
  "sink_get (rtmp_source_register 2 (''live'' @ ''_'' @ ''a'')
     (rtmp_source_register 1 (''live'' @ ''_'' @ ''b'') Map.empty)) (''rtmp_'' @ ''live_b'')
     = Some (1, Rtmp_kind)"
  using publisher_is_found [of 2 "''live''" "''a''" "rtmp_source_register 1 (''live'' @ ''_'' @ ''b'') Map.empty"
      "''rtmp_live_b''"]
    publisher_is_found [of 1 "''live''" "''b''" Map.empty "''x''"]
  by simp

end
