(* ===== verification/Tcp_Connection.thy ===== *)
theory Tcp_Connection
  imports Rtmp_Codec
begin

text \<open>
  A TCP connection (\<^verbatim>\<open>tcp_connection.cc\<close>): frames are queued and written in batches,
  with at most one asynchronous write outstanding. The socket is Boost's. Handlers run one
  after the other on the connection's executor, so an execution is a sequence of them: the
  inductive relation \<open>conn_step\<close>, whose labels are the handlers.

  \<open>tc_outstanding\<close>, \<open>tc_started\<close> and \<open>tc_accepted\<close> are not in the code: the batches
  that the socket is writing, all frames ever passed to \<^verbatim>\<open>async_write\<close> and all frames ever
  passed to \<^verbatim>\<open>write_frame\<close>. \<open>tc_reads\<close> counts the outstanding reads.
\<close>

record tcp_connection =
  tc_open :: bool
  tc_read_cb :: bool
  tc_write_cb :: bool
  tc_write_queue :: "frame_buffer list"
  tc_writing_queue :: "frame_buffer list"
  tc_shutdowns :: nat
  tc_reads :: nat
  tc_outstanding :: "frame_buffer list list"
  tc_started :: "frame_buffer list"
  tc_accepted :: "frame_buffer list"

text \<open>What a handler calls of its owner.\<close>

datatype conn_event =
    Read_cb frame_buffer "error_code option"
  | Write_cb "error_code option" nat

definition tcp_create :: tcp_connection where
  "tcp_create = \<lparr>tc_open = True, tc_read_cb = False, tc_write_cb = False, tc_write_queue = [],
     tc_writing_queue = [], tc_shutdowns = 0, tc_reads = 0, tc_outstanding = [], tc_started = [],
     tc_accepted = []\<rparr>"

definition tcp_do_read :: "tcp_connection \<Rightarrow> tcp_connection" where
  "tcp_do_read s = s\<lparr>tc_reads := tc_reads s + 1\<rparr>"

text \<open>Set both callbacks, then start.\<close>

definition tcp_start :: "tcp_connection \<Rightarrow> tcp_connection" where
  "tcp_start s = tcp_do_read (s\<lparr>tc_read_cb := True, tc_write_cb := True\<rparr>)"

definition tcp_safe_do_write :: "tcp_connection \<Rightarrow> tcp_connection" where
  "tcp_safe_do_write s =
     (if tc_writing_queue s \<noteq> [] then s
      else if tc_write_queue s = [] then s
      else s\<lparr>tc_writing_queue := tc_write_queue s, tc_write_queue := [],
             tc_outstanding := tc_outstanding s @ [tc_write_queue s],
             tc_started := tc_started s @ tc_write_queue s\<rparr>)"

definition tcp_safe_write_frame :: "frame_buffer \<Rightarrow> tcp_connection \<Rightarrow> tcp_connection" where
  "tcp_safe_write_frame frame s =
     tcp_safe_do_write (s\<lparr>tc_write_queue := tc_write_queue s @ [frame],
                          tc_accepted := tc_accepted s @ [frame]\<rparr>)"

text \<open>\<^verbatim>\<open>safe_on_write\<close>: the outstanding batch is done, with an error or not.\<close>

definition tcp_safe_on_write ::
  "error_code option \<Rightarrow> nat \<Rightarrow> tcp_connection \<Rightarrow> conn_event list \<times> tcp_connection" where
  "tcp_safe_on_write ec n s =
     (let s1 = s\<lparr>tc_writing_queue := [], tc_outstanding := tl (tc_outstanding s)\<rparr>
      in if tc_write_cb s1 then ([Write_cb ec n], tcp_safe_do_write s1)
         else if ec \<noteq> None then ([], s1\<lparr>tc_shutdowns := tc_shutdowns s1 + 1\<rparr>)
         else ([], tcp_safe_do_write s1))"

definition tcp_on_read ::
  "error_code option \<Rightarrow> bytes \<Rightarrow> tcp_connection \<Rightarrow> conn_event list \<times> tcp_connection" where
  "tcp_on_read ec buf s =
     (let s1 = s\<lparr>tc_reads := tc_reads s - 1\<rparr>;
          frame = Fixed (if ec = None then fixed_append_data (Some buf) fixed_create else fixed_create)
      in if tc_read_cb s1 then ([Read_cb frame ec], tcp_do_read s1)
         else if ec \<noteq> None then ([], s1\<lparr>tc_shutdowns := tc_shutdowns s1 + 1\<rparr>)
         else ([], tcp_do_read s1))"

definition tcp_safe_shutdown :: "tcp_connection \<Rightarrow> tcp_connection" where
  "tcp_safe_shutdown s = s\<lparr>tc_open := False, tc_read_cb := False, tc_write_cb := False\<rparr>"

text \<open>
  The handlers: a posted frame, the end of the outstanding write, the end of the outstanding
  read, and a posted shutdown, which the owner may ask for at any time.
\<close>

datatype conn_label =
    Post_frame frame_buffer
  | Write_done "error_code option" nat
  | Read_done "error_code option" bytes
  | Post_shutdown

inductive conn_step :: "tcp_connection \<Rightarrow> conn_label \<Rightarrow> conn_event list \<Rightarrow> tcp_connection \<Rightarrow> bool" where
  post_frame: "conn_step s (Post_frame f) [] (tcp_safe_write_frame f s)"
| write_done: "tc_outstanding s \<noteq> [] \<Longrightarrow> tcp_safe_on_write ec n s = (evs, s') \<Longrightarrow>
    conn_step s (Write_done ec n) evs s'"
| read_done: "0 < tc_reads s \<Longrightarrow> tcp_on_read ec buf s = (evs, s') \<Longrightarrow>
    conn_step s (Read_done ec buf) evs s'"
| shutdown: "conn_step s Post_shutdown [] (tcp_safe_shutdown s)"

inductive_cases conn_stepE: "conn_step s l evs s'"

inductive conn_run :: "tcp_connection \<Rightarrow> conn_label list \<Rightarrow> conn_event list \<Rightarrow> tcp_connection \<Rightarrow> bool" where
  run_Nil: "conn_run s [] [] s"
| run_Cons: "conn_step s l evs s1 \<Longrightarrow> conn_run s1 ls evs' s2 \<Longrightarrow> conn_run s (l # ls) (evs @ evs') s2"

subsection \<open>The queue\<close>

definition conn_inv :: "tcp_connection \<Rightarrow> bool" where
  "conn_inv s \<longleftrightarrow>
     tc_started s @ tc_write_queue s = tc_accepted s
     \<and> tc_outstanding s = (if tc_writing_queue s = [] then [] else [tc_writing_queue s])
     \<and> (tc_writing_queue s = [] \<longrightarrow> tc_write_queue s = [] \<or> \<not> tc_write_cb s)
     \<and> tc_reads s \<le> 1"

lemma conn_inv_start [wf_intros]: "conn_inv (tcp_start tcp_create)"
  by (simp add: conn_inv_def tcp_start_def tcp_create_def tcp_do_read_def)

lemma do_write_inv:
  assumes "tc_started s @ tc_write_queue s = tc_accepted s"
    "tc_outstanding s = (if tc_writing_queue s = [] then [] else [tc_writing_queue s])" "tc_reads s \<le> 1"
  shows "conn_inv (tcp_safe_do_write s)"
  using assms by (auto simp: conn_inv_def tcp_safe_do_write_def)

lemma conn_step_inv: "conn_step s l evs s' \<Longrightarrow> conn_inv s \<Longrightarrow> conn_inv s'"
proof (elim conn_stepE)
  fix f assume inv: "conn_inv s" and s': "s' = tcp_safe_write_frame f s"
  show "conn_inv s'"
    unfolding s' tcp_safe_write_frame_def
    by (rule do_write_inv) (use inv in \<open>simp_all add: conn_inv_def flip: append_assoc\<close>)
next
  fix ec n assume a: "conn_inv s" "tc_outstanding s \<noteq> []" "tcp_safe_on_write ec n s = (evs, s')"
  let ?s1 = "s\<lparr>tc_writing_queue := [], tc_outstanding := tl (tc_outstanding s)\<rparr>"
  from a have "conn_inv (tcp_safe_do_write ?s1)"
    by (intro do_write_inv) (auto simp: conn_inv_def split: if_splits)
  with a show "conn_inv s'"
    by (auto simp: tcp_safe_on_write_def Let_def conn_inv_def split: if_splits)
next
  fix ec buf assume "conn_inv s" "0 < tc_reads s" "tcp_on_read ec buf s = (evs, s')"
  then show "conn_inv s'"
    by (auto simp: tcp_on_read_def Let_def conn_inv_def tcp_do_read_def split: if_splits)
next
  assume "conn_inv s" "s' = tcp_safe_shutdown s"
  then show "conn_inv s'" by (auto simp: conn_inv_def tcp_safe_shutdown_def)
qed

lemma conn_run_inv: "conn_run s ls evs s' \<Longrightarrow> conn_inv s \<Longrightarrow> conn_inv s'"
  by (induction rule: conn_run.induct) (auto dest: conn_step_inv)

lemma accepted_step: "conn_step s l evs s' \<Longrightarrow>
    tc_accepted s' = tc_accepted s @ (case l of Post_frame f \<Rightarrow> [f] | _ \<Rightarrow> [])"
  by (elim conn_stepE)
    (auto simp: tcp_safe_write_frame_def tcp_safe_do_write_def tcp_safe_on_write_def tcp_on_read_def
      tcp_do_read_def tcp_safe_shutdown_def Let_def split: if_splits)

definition posted :: "conn_label list \<Rightarrow> frame_buffer list" where
  "posted ls = concat (map (\<lambda>l. case l of Post_frame f \<Rightarrow> [f] | _ \<Rightarrow> []) ls)"

lemma accepted_run: "conn_run s ls evs s' \<Longrightarrow> tc_accepted s' = tc_accepted s @ posted ls"
  by (induction rule: conn_run.induct) (auto simp: posted_def dest: accepted_step)

text \<open>
  C8. Frames leave a connection in the order in which they were written, none is lost or
  repeated: in every execution the frames handed to the socket are a prefix of the frames
  written, the rest is queued; one write is outstanding at most, and the frames it reads
  from stay in memory until it is done; while the callbacks are set nothing waits unless a
  write is outstanding.
\<close>

theorem tcp_writes_in_order:
  assumes "conn_run (tcp_start tcp_create) ls evs s"
  shows "tc_started s @ tc_write_queue s = posted ls
     \<and> tc_outstanding s = (if tc_writing_queue s = [] then [] else [tc_writing_queue s])
     \<and> (tc_write_cb s \<and> tc_outstanding s = [] \<longrightarrow> tc_started s = posted ls)
     \<and> tc_reads s \<le> 1"
proof -
  from assms have "conn_inv s" by (rule conn_run_inv) (rule conn_inv_start)
  moreover have "tc_accepted s = posted ls"
    using accepted_run [OF assms] by (simp add: tcp_start_def tcp_create_def tcp_do_read_def)
  ultimately show ?thesis by (auto simp: conn_inv_def split: if_splits)
qed

theorem tcp_writes_in_order_witness:
  "\<exists>a b c evs s. a = Fixed (fixed_create_data [1]) \<and> b = Fixed (fixed_create_data [2])
     \<and> c = Fixed (fixed_create_data [3])
     \<and> conn_run (tcp_start tcp_create) [Post_frame a, Post_frame b, Post_frame c, Write_done None 1] evs s
     \<and> tc_started s @ tc_write_queue s = [a, b, c] \<and> tc_writing_queue s = [b, c]"
proof -
  let ?a = "Fixed (fixed_create_data [1])" and ?b = "Fixed (fixed_create_data [2])"
    and ?c = "Fixed (fixed_create_data [3])"
  let ?s1 = "tcp_safe_write_frame ?a (tcp_start tcp_create)"
  let ?s3 = "tcp_safe_write_frame ?c (tcp_safe_write_frame ?b ?s1)"
  let ?s4 = "snd (tcp_safe_on_write None 1 ?s3)"
  note evals = tcp_safe_write_frame_def tcp_safe_do_write_def tcp_start_def tcp_create_def
    tcp_do_read_def tcp_safe_on_write_def
  have "conn_step ?s3 (Write_done None 1) [Write_cb None 1] ?s4"
    by (rule write_done) (simp_all add: evals Let_def)
  note steps = run_Cons [OF post_frame run_Cons [OF post_frame run_Cons [OF post_frame
    run_Cons [OF this run_Nil]]]]
  have run: "conn_run (tcp_start tcp_create)
      [Post_frame ?a, Post_frame ?b, Post_frame ?c, Write_done None 1] ([] @ [] @ [] @ [Write_cb None 1] @ []) ?s4"
    by (rule steps)
  have "tc_writing_queue ?s4 = [?b, ?c]" by (simp add: evals Let_def)
  with run tcp_writes_in_order [OF run] show ?thesis
    by (auto simp: posted_def)
qed

subsection \<open>The queue drains\<close>

text \<open>How many completions of writes an open connection still waits for before everything has left.\<close>

definition writes_pending :: "tcp_connection \<Rightarrow> nat" where
  "writes_pending s = (if tc_outstanding s = [] then 0 else 1) + (if tc_write_queue s = [] then 0 else 1)"

definition writes_done :: "conn_label list \<Rightarrow> nat" where
  "writes_done ls = length (filter (\<lambda>l. case l of Write_done ec n \<Rightarrow> True | _ \<Rightarrow> False) ls)"

text \<open>The labels of the network: completions, with an error or not.\<close>

definition network :: "conn_label \<Rightarrow> bool" where
  "network l \<longleftrightarrow> (case l of Write_done ec n \<Rightarrow> True | Read_done ec buf \<Rightarrow> True | _ \<Rightarrow> False)"

lemma network_simps [simp]:
  "network (Write_done ec n)" "network (Read_done ec buf)" "\<not> network (Post_frame f)" "\<not> network Post_shutdown"
  by (simp_all add: network_def)

lemma network_step:
  assumes "conn_step s l evs s'" "network l" "conn_inv s" "tc_write_cb s"
  shows "writes_pending s = writes_done [l] + writes_pending s' \<and> tc_write_cb s' \<and> tc_accepted s' = tc_accepted s"
  using assms
  by (elim conn_stepE)
    (auto simp: writes_done_def writes_pending_def conn_inv_def tcp_safe_on_write_def tcp_safe_do_write_def tcp_on_read_def
      tcp_do_read_def Let_def split: if_splits)

lemma network_run:
  "conn_run s ls evs s' \<Longrightarrow> \<forall>l \<in> set ls. network l \<Longrightarrow> conn_inv s \<Longrightarrow> tc_write_cb s \<Longrightarrow>
   writes_pending s = writes_done ls + writes_pending s' \<and> tc_write_cb s' \<and> tc_accepted s' = tc_accepted s"
proof (induction rule: conn_run.induct)
  case (run_Nil s)
  then show ?case by (simp add: writes_done_def)
next
  case (run_Cons s l evs s1 ls evs' s2)
  have 1: "writes_pending s = writes_done [l] + writes_pending s1 \<and> tc_write_cb s1 \<and> tc_accepted s1 = tc_accepted s"
    using run_Cons by (intro network_step) simp_all
  have "conn_inv s1" using run_Cons conn_step_inv by blast
  moreover have "writes_done (l # ls) = writes_done [l] + writes_done ls" by (simp add: writes_done_def)
  ultimately show ?case using run_Cons 1 by simp
qed

text \<open>
  C9. Everything written leaves. From every state that a connection can reach with its callbacks set, while
  its owner writes nothing more, the network completes two writes at most, whatever errors it reports
  and however reads come between; as long as a frame has not left, a write is outstanding, so that the
  connection does not wait for itself; and once no write is outstanding all frames have been handed
  to the socket, in order.
\<close>

theorem written_frames_leave:
  assumes "conn_run (tcp_start tcp_create) ls evs s" "tc_write_cb s"
    and "conn_run s ls' evs' s'" "\<forall>l \<in> set ls'. network l"
  shows "writes_done ls' \<le> 2
    \<and> (if writes_done ls' = 2 \<or> tc_outstanding s' = []
        then tc_outstanding s' = [] \<and> tc_write_queue s' = [] \<and> tc_started s' = posted ls
        else \<exists>evs'' s''. conn_step s' (Write_done ec n) evs'' s'')"
proof -
  have inv: "conn_inv s" using assms(1) conn_inv_start by (rule conn_run_inv)
  then have inv': "conn_inv s'" using assms(3) conn_run_inv by blast
  have "tc_accepted s = posted ls"
    using accepted_run [OF assms(1)] by (simp add: tcp_start_def tcp_create_def tcp_do_read_def)
  with network_run [OF assms(3,4) inv assms(2)]
  have run: "writes_pending s = writes_done ls' + writes_pending s'" "tc_write_cb s'" "tc_accepted s' = posted ls" by auto
  have "writes_pending s \<le> 2" by (simp add: writes_pending_def)
  moreover have "writes_pending s' = 0 \<longleftrightarrow> tc_outstanding s' = []"
    using inv' run(2) by (auto simp: writes_pending_def conn_inv_def split: if_splits)
  moreover have "tc_outstanding s' = [] \<Longrightarrow> tc_write_queue s' = [] \<and> tc_started s' = posted ls"
    using inv' run(2,3) by (auto simp: conn_inv_def split: if_splits)
  moreover have "tc_outstanding s' \<noteq> [] \<Longrightarrow> \<exists>evs'' s''. conn_step s' (Write_done ec n) evs'' s''"
    using write_done by (metis surj_pair)
  ultimately show ?thesis using run(1) by auto
qed

text \<open>Three frames are written and two writes are completed, the first with an error.\<close>

theorem written_frames_leave_witness:
  "\<exists>a b c evs s. a = Fixed (fixed_create_data [1]) \<and> b = Fixed (fixed_create_data [2]) \<and> c = Fixed (fixed_create_data [3])
     \<and> conn_run (tcp_start tcp_create)
         ([Post_frame a, Post_frame b, Post_frame c] @ [Write_done (Some Ec_eof) 0, Write_done None 2]) evs s
     \<and> tc_started s = [a, b, c] \<and> tc_outstanding s = []"
proof -
  let ?a = "Fixed (fixed_create_data [1])" and ?b = "Fixed (fixed_create_data [2])"
    and ?c = "Fixed (fixed_create_data [3])"
  let ?s3 = "tcp_safe_write_frame ?c (tcp_safe_write_frame ?b (tcp_safe_write_frame ?a (tcp_start tcp_create)))"
  let ?s4 = "snd (tcp_safe_on_write (Some Ec_eof) 0 ?s3)"
  let ?s5 = "snd (tcp_safe_on_write None 2 ?s4)"
  note evals = tcp_safe_write_frame_def tcp_safe_do_write_def tcp_start_def tcp_create_def
    tcp_do_read_def tcp_safe_on_write_def
  have posts: "conn_run (tcp_start tcp_create) [Post_frame ?a, Post_frame ?b, Post_frame ?c] ([] @ [] @ [] @ []) ?s3"
    by (rule run_Cons [OF post_frame run_Cons [OF post_frame run_Cons [OF post_frame run_Nil]]])
  have w: "conn_step ?s3 (Write_done (Some Ec_eof) 0) [Write_cb (Some Ec_eof) 0] ?s4"
      "conn_step ?s4 (Write_done None 2) [Write_cb None 2] ?s5"
    by (rule write_done; simp add: evals Let_def)+
  note writes = run_Cons [OF w(1) run_Cons [OF w(2) run_Nil]]
  note all = run_Cons [OF post_frame run_Cons [OF post_frame run_Cons [OF post_frame writes]]]
  have "tc_write_cb ?s3" by (simp add: evals)
  from written_frames_leave [OF posts this writes]
  have "tc_started ?s5 = [?a, ?b, ?c]" "tc_outstanding ?s5 = []"
    by (simp_all add: writes_done_def posted_def split: if_splits)
  then show ?thesis using all by auto
qed

text \<open>
  A read error is reported and the next read is started all the same; the loop ends only
  with the shutdown.
\<close>

lemma read_error_reads_again:
  "tc_read_cb s \<Longrightarrow> 0 < tc_reads s \<Longrightarrow>
   tcp_on_read (Some e) buf s = ([Read_cb (Fixed fixed_create) (Some e)], s)"
  by (simp add: tcp_on_read_def tcp_do_read_def Let_def)

end
