(* ===== verification/Execution.thy ===== *)
theory Execution
  imports Rtmp_Codec
begin

text \<open>
  The pool of executors (\<^verbatim>\<open>execution.cc\<close>), the accept loop of a server
  (\<^verbatim>\<open>tcp_server.h\<close>), which gives each session an executor of the pool, and the timers
  (\<^verbatim>\<open>timer_task_manger.cc\<close>). Threads, mutexes and sockets are the library's: the functions
  below are the bodies that run under the lock, and the results of the system calls are
  arguments.
\<close>

subsection \<open>Executors\<close>

text \<open>
  The contexts of the pool by their positions; \<open>ex_works\<close> and \<open>ex_threads\<close> name the contexts that the guards
  and the threads belong to, \<open>ex_stopped\<close> says that all contexts were stopped. The threads that are joined end
  because their contexts were stopped.
\<close>

record executors =
  ex_size :: nat
  ex_index :: u32
  ex_works :: "nat list"
  ex_threads :: "nat list"
  ex_stopped :: bool

definition executors_create :: "nat \<Rightarrow> executors" where
  "executors_create pool_size = \<lparr>ex_size = pool_size, ex_index = 0, ex_works = [], ex_threads = [],
     ex_stopped = False\<rparr>"

definition executors_run :: "executors \<Rightarrow> executors" where
  "executors_run s = s\<lparr>ex_works := ex_works s @ [0..<ex_size s], ex_threads := ex_threads s @ [0..<ex_size s]\<rparr>"

definition executors_stop :: "executors \<Rightarrow> executors" where
  "executors_stop s = s\<lparr>ex_works := [], ex_stopped := True, ex_threads := []\<rparr>"

definition get_executor :: "executors \<Rightarrow> (nat \<times> executors) outcome" where
  "get_executor s =
     (let i = (if unat (ex_index s) = ex_size s then 0 else ex_index s)
      in if unat i < ex_size s then Inr (unat i, s\<lparr>ex_index := i + 1\<rparr>) else Inl Out_of_bounds)"

fun get_executors :: "nat \<Rightarrow> executors \<Rightarrow> (nat list \<times> executors) outcome" where
  "get_executors 0 s = Inr ([], s)"
| "get_executors (Suc k) s =
     obind (get_executor s) (\<lambda>(i, s1). obind (get_executors k s1) (\<lambda>(is, s2). Inr (i # is, s2)))"

lemma get_executors_from:
  assumes "0 < ex_size s" "ex_size s < 2 ^ 32" "unat (ex_index s) \<le> ex_size s"
    and "unat (ex_index s) mod ex_size s = j mod ex_size s"
  shows "\<exists>s'. get_executors k s = Inr (map (\<lambda>i. i mod ex_size s) [j..<j + k], s')
     \<and> ex_size s' = ex_size s \<and> unat (ex_index s') \<le> ex_size s
     \<and> unat (ex_index s') mod ex_size s = (j + k) mod ex_size s"
  using assms
proof (induction k arbitrary: s j)
  case 0
  then show ?case by simp
next
  case (Suc k)
  let ?i = "if unat (ex_index s) = ex_size s then 0 else ex_index s"
  let ?s1 = "s\<lparr>ex_index := ?i + 1\<rparr>"
  from Suc.prems have i: "unat ?i < ex_size s" "unat ?i = j mod ex_size s"
    by (auto simp: mod_less split: if_splits)
  then have step: "get_executor s = Inr (j mod ex_size s, ?s1)"
    by (simp add: get_executor_def Let_def)
  have "unat ?i < 2 ^ 32 - 1" using i(1) Suc.prems(2) by simp
  then have suc: "unat (?i + 1) = unat ?i + 1"
    by (simp add: unat_word_ariths del: if_split)
  have "\<exists>s'. get_executors k ?s1 = Inr (map (\<lambda>i. i mod ex_size ?s1) [Suc j..<Suc j + k], s')
     \<and> ex_size s' = ex_size ?s1 \<and> unat (ex_index s') \<le> ex_size ?s1
     \<and> unat (ex_index s') mod ex_size ?s1 = (Suc j + k) mod ex_size ?s1"
  proof (rule Suc.IH)
    show "unat (ex_index ?s1) \<le> ex_size ?s1" using i(1) suc by simp
    show "unat (ex_index ?s1) mod ex_size ?s1 = Suc j mod ex_size ?s1"
      using i(2) suc by (simp add: mod_Suc_eq)
  qed (use Suc.prems in simp_all)
  then obtain s' where s': "get_executors k ?s1 = Inr (map (\<lambda>i. i mod ex_size s) [Suc j..<Suc j + k], s')"
    "ex_size s' = ex_size s" "unat (ex_index s') \<le> ex_size s"
    "unat (ex_index s') mod ex_size s = (Suc j + k) mod ex_size s"
    by auto
  have "[j..<j + Suc k] = j # [Suc j..<Suc j + k]" by (simp add: upt_rec)
  with step s' show ?case by simp
qed

text \<open>
  Sessions are spread evenly: the calls of \<^verbatim>\<open>get_executor\<close> on a pool of n executors
  return 0, 1, ..., n - 1, 0, 1, ... for ever; on an empty pool, which is what
  \<^verbatim>\<open>hardware_concurrency\<close> may ask for, the first call reads outside the vector.
\<close>

theorem executors_round_robin:
  "(0 < n \<and> n < 2 ^ 32 \<longrightarrow>
      (\<exists>s. get_executors k (executors_create n) = Inr (map (\<lambda>i. i mod n) [0..<k], s)))
   \<and> get_executor (executors_create 0) = Inl Out_of_bounds"
proof -
  have "\<exists>s. get_executors k (executors_create n) = Inr (map (\<lambda>i. i mod n) [0..<k], s)"
    if "0 < n" "n < 2 ^ 32"
    using get_executors_from [of "executors_create n" 0 k] that
    by (auto simp: executors_create_def)
  then show ?thesis by (auto simp: get_executor_def executors_create_def)
qed

theorem executors_round_robin_witness:
  "\<exists>s. get_executors 5 (executors_create 3) = Inr ([0, 1, 2, 0, 1], s)"
  using executors_round_robin [of 3 5] by (auto simp: upt_rec)

subsection \<open>The accept loop\<close>

record tcp_server =
  sv_port :: u16
  sv_name :: string
  sv_io :: nat
  sv_count :: u32
  sv_open :: bool
  sv_accepting :: bool
  sv_next :: nat
  sv_sessions :: "nat list"
  sv_pool :: executors

text \<open>\<open>sv_io\<close> is the executor of the acceptor; \<open>sv_next\<close> is the executor of the session that waits for a connection.\<close>

definition tcp_server_create :: "u16 \<Rightarrow> string \<Rightarrow> nat \<Rightarrow> executors \<Rightarrow> tcp_server" where
  "tcp_server_create port name io pool = \<lparr>sv_port = port, sv_name = name, sv_io = io, sv_count = 0, sv_open = False, sv_accepting = False, sv_next = 0,
     sv_sessions = [], sv_pool = pool\<rparr>"

text \<open>
  The results of parsing the address and of opening, binding and listening, each an error or
  none; the result of \<^verbatim>\<open>setsockopt\<close> is only reported.
\<close>

definition tcp_server_open ::
  "error_code option \<Rightarrow> error_code option \<Rightarrow> error_code option \<Rightarrow> error_code option
   \<Rightarrow> tcp_server \<Rightarrow> tcp_server" where
  "tcp_server_open address_ec open_ec bind_ec listen_ec s =
     (if address_ec \<noteq> None then s
      else if open_ec \<noteq> None then s
      else if bind_ec \<noteq> None then s
      else if listen_ec \<noteq> None then s
      else s\<lparr>sv_open := True\<rparr>)"

text \<open>The option that \<^verbatim>\<open>open\<close> passes to \<^verbatim>\<open>setsockopt\<close>: the two names are or-ed.\<close>

definition reuse_option :: "bool \<Rightarrow> int \<Rightarrow> int \<Rightarrow> int" where
  "reuse_option linux SO_REUSEADDR SO_REUSEPORT =
     (if linux then SO_REUSEADDR OR SO_REUSEPORT else SO_REUSEADDR)"

definition tcp_server_do_accept :: "tcp_server \<Rightarrow> tcp_server outcome" where
  "tcp_server_do_accept s =
     (if \<not> sv_open s then Inr s
      else obind (get_executor (sv_pool s)) (\<lambda>(i, pool).
             Inr (s\<lparr>sv_count := sv_count s + 1, sv_accepting := True, sv_next := i, sv_pool := pool\<rparr>)))"

definition tcp_server_on_accept :: "error_code option \<Rightarrow> tcp_server \<Rightarrow> tcp_server outcome" where
  "tcp_server_on_accept ec s =
     (let s1 = s\<lparr>sv_accepting := False\<rparr>
      in if ec = Some Ec_canceled then Inr s1
         else if ec \<noteq> None then Inr s1
         else tcp_server_do_accept (s1\<lparr>sv_sessions := sv_sessions s1 @ [sv_next s1]\<rparr>))"

definition tcp_server_shutdown :: "tcp_server \<Rightarrow> tcp_server" where
  "tcp_server_shutdown s = s\<lparr>sv_open := False\<rparr>"

definition tcp_server_run ::
  "error_code option \<Rightarrow> error_code option \<Rightarrow> error_code option \<Rightarrow> error_code option
   \<Rightarrow> tcp_server \<Rightarrow> tcp_server outcome" where
  "tcp_server_run a o' b l s = tcp_server_do_accept (tcp_server_open a o' b l s)"

text \<open>The results of accepting, one after the other, while an accept is outstanding.\<close>

fun accept_all :: "error_code option list \<Rightarrow> tcp_server \<Rightarrow> tcp_server outcome" where
  "accept_all [] s = Inr s"
| "accept_all (ec # ecs) s =
     (if sv_accepting s then obind (tcp_server_on_accept ec s) (accept_all ecs) else Inr s)"

definition wf_pool :: "executors \<Rightarrow> bool" where
  "wf_pool p \<longleftrightarrow> 0 < ex_size p \<and> ex_size p < 2 ^ 32 \<and> unat (ex_index p) \<le> ex_size p"

lemma get_executor_wf:
  assumes "wf_pool p"
  shows "\<exists>i p'. get_executor p = Inr (i, p') \<and> wf_pool p' \<and> i < ex_size p \<and> ex_size p' = ex_size p"
  using get_executors_from [of p "unat (ex_index p)" 1] assms
  by (auto simp: wf_pool_def obind_eq_Inr)

lemma do_accept_wf:
  assumes "wf_pool (sv_pool s)" "sv_open s"
  shows "\<exists>s'. tcp_server_do_accept s = Inr s' \<and> wf_pool (sv_pool s') \<and> sv_open s'
     \<and> sv_accepting s' \<and> sv_sessions s' = sv_sessions s \<and> sv_next s' < ex_size (sv_pool s')"
proof -
  obtain i p' where "get_executor (sv_pool s) = Inr (i, p')" "wf_pool p'" "i < ex_size (sv_pool s)"
    "ex_size p' = ex_size (sv_pool s)"
    using get_executor_wf [OF assms(1)] by blast
  with assms(2) show ?thesis by (simp add: tcp_server_do_accept_def)
qed

text \<open>
  A server serves until the first error: it starts one session for every connection
  accepted before the first failing accept, and none after it, even when the error is one
  that passes, such as running out of descriptors.
\<close>

theorem accepts_until_first_error:
  assumes "wf_pool (sv_pool s)" "sv_open s" "sv_accepting s"
  shows "\<exists>s'. accept_all ecs s = Inr s'
     \<and> length (sv_sessions s') = length (sv_sessions s) + length (takeWhile (\<lambda>ec. ec = None) ecs)
     \<and> (sv_accepting s' \<longleftrightarrow> (\<forall>ec \<in> set ecs. ec = None))"
  using assms
proof (induction ecs arbitrary: s)
  case Nil
  then show ?case by simp
next
  case (Cons ec ecs)
  show ?case
  proof (cases ec)
    case None
    let ?s1 = "s\<lparr>sv_accepting := False, sv_sessions := sv_sessions s @ [sv_next s]\<rparr>"
    obtain s1 where "tcp_server_do_accept ?s1 = Inr s1" "wf_pool (sv_pool s1)" "sv_open s1"
      "sv_accepting s1" "sv_sessions s1 = sv_sessions ?s1"
      using do_accept_wf [of ?s1] Cons.prems by auto
    with Cons.IH [of s1] Cons.prems None show ?thesis
      by (auto simp: tcp_server_on_accept_def Let_def)
  next
    case (Some e)
    have "accept_all ecs (s\<lparr>sv_accepting := False\<rparr>) = Inr (s\<lparr>sv_accepting := False\<rparr>)"
      by (cases ecs) simp_all
    with Some Cons.prems show ?thesis by (simp add: tcp_server_on_accept_def Let_def)
  qed
qed

theorem accepts_until_first_error_witness:
  "\<exists>s s'. tcp_server_run None None None None (tcp_server_create 1935 ''rtmp publish'' 0 (executors_create 2)) = Inr s
     \<and> accept_all [None, None, Some (Ec_other 24), None, None] s = Inr s'
     \<and> length (sv_sessions s') = 2 \<and> \<not> sv_accepting s'"
proof -
  obtain s where run: "tcp_server_run None None None None (tcp_server_create 1935 ''rtmp publish'' 0 (executors_create 2)) = Inr s"
    and s: "wf_pool (sv_pool s)" "sv_open s" "sv_accepting s" "sv_sessions s = []"
    using do_accept_wf [of "tcp_server_open None None None None (tcp_server_create 1935 ''rtmp publish'' 0 (executors_create 2))"]
    by (auto simp: tcp_server_run_def tcp_server_open_def tcp_server_create_def wf_pool_def
        executors_create_def)
  with accepts_until_first_error [OF s(1-3), of "[None, None, Some (Ec_other 24), None, None]"]
  show ?thesis by auto
qed

text \<open>On Linux the or of the two names is the second one, so addresses are not reused.\<close>

lemma reuse_option_linux: "reuse_option True 2 15 = 15"
  by (simp add: reuse_option_def)

subsection \<open>Timers\<close>

record task_args =
  ta_task :: nat
  ta_repeat :: int
  ta_invalid :: bool
  ta_delay :: u32
  ta_next :: u64
  ta_id :: u64

record timer_task_manger =
  tm_task_id :: u64
  tm_invalid_ids :: "u64 list"
  tm_tasks :: "task_args list"

definition timer_create :: timer_task_manger where
  "timer_create = \<lparr>tm_task_id = 0, tm_invalid_ids = [], tm_tasks = []\<rparr>"

definition timer_start :: "timer_task_manger \<Rightarrow> timer_task_manger" where
  "timer_start s = s"

text \<open>\<^verbatim>\<open>stop\<close>: the tasks that are freed; their pointers stay in \<^verbatim>\<open>tasks_\<close>.\<close>

definition timer_stop :: "timer_task_manger \<Rightarrow> task_args list \<times> timer_task_manger" where
  "timer_stop s = (tm_tasks s, s)"

definition timer_add_task :: "u64 \<Rightarrow> u64 \<Rightarrow> nat \<Rightarrow> int \<Rightarrow> timer_task_manger \<Rightarrow> u64 \<times> timer_task_manger" where
  "timer_add_task now_ms ms task repeat s =
     (let args = \<lparr>ta_task = task, ta_repeat = repeat, ta_invalid = False, ta_delay = ucast ms,
                  ta_next = now_ms + ms, ta_id = tm_task_id s\<rparr>
      in (ta_id args, s\<lparr>tm_task_id := tm_task_id s + 1, tm_tasks := tm_tasks s @ [args]\<rparr>))"

definition timer_del_task :: "u64 \<Rightarrow> timer_task_manger \<Rightarrow> timer_task_manger" where
  "timer_del_task tid s = s\<lparr>tm_invalid_ids := tm_invalid_ids s @ [tid]\<rparr>"

text \<open>
  One round of the loop of \<^verbatim>\<open>update\<close>: whether the task is called, and what becomes of it. A
  callback may use the manager; \<open>cb\<close> is its effect.
\<close>

definition timer_round :: "u64 \<Rightarrow> u64 list \<Rightarrow> task_args \<Rightarrow> bool \<times> task_args" where
  "timer_round now_ms tmp_ids args =
     (if ta_repeat args = 0 then (False, args\<lparr>ta_invalid := True\<rparr>)
      else if ta_invalid args then (False, args)
      else if ta_id args \<in> set tmp_ids then (False, args\<lparr>ta_invalid := True\<rparr>)
      else if now_ms < ta_next args then (False, args)
      else let r = (if 0 < ta_repeat args then ta_repeat args - 1 else ta_repeat args)
           in if r = 0 then (True, args\<lparr>ta_repeat := r, ta_invalid := True\<rparr>)
              else (True, args\<lparr>ta_repeat := r, ta_next := ta_next args + ucast (ta_delay args)\<rparr>))"

fun timer_rounds ::
  "(nat \<Rightarrow> timer_task_manger \<Rightarrow> timer_task_manger) \<Rightarrow> u64 \<Rightarrow> u64 list \<Rightarrow> task_args list
   \<Rightarrow> timer_task_manger \<Rightarrow> nat list \<times> task_args list \<times> timer_task_manger" where
  "timer_rounds cb now_ms ids [] s = ([], [], s)"
| "timer_rounds cb now_ms ids (a # as) s =
     (let (called, a') = timer_round now_ms ids a;
          (fired, as', s') = timer_rounds cb now_ms ids as (if called then cb (ta_task a) s else s)
      in ((if called then [ta_task a] else []) @ fired, a' # as', s'))"

text \<open>
  \<^verbatim>\<open>update\<close>: the tasks that were called, the tasks that are dropped from \<^verbatim>\<open>tmp_tasks\<close> as
  invalid and freed, the tasks that stay in it, and the new state. The last block swaps
  \<^verbatim>\<open>tasks_\<close> with an empty vector and puts it back; \<^verbatim>\<open>tmp_tasks\<close> goes out of scope.
\<close>

definition timer_update ::
  "(nat \<Rightarrow> timer_task_manger \<Rightarrow> timer_task_manger) \<Rightarrow> u64 \<Rightarrow> timer_task_manger
   \<Rightarrow> nat list \<times> task_args list \<times> task_args list \<times> timer_task_manger" where
  "timer_update cb now_ms s =
     (let tmp_tasks = tm_tasks s; tmp_ids = tm_invalid_ids s;
          s1 = s\<lparr>tm_tasks := [], tm_invalid_ids := []\<rparr>
      in if tmp_tasks = [] then ([], [], [], s1)
         else let (fired, as, s2) = timer_rounds cb now_ms tmp_ids tmp_tasks s1;
                  tmp = tm_tasks s2;
                  s3 = s2\<lparr>tm_tasks := []\<rparr>
              in (fired, filter ta_invalid as, filter (\<lambda>a. \<not> ta_invalid a) as,
                  s3\<lparr>tm_tasks := tm_tasks s3 @ tmp\<rparr>))"

text \<open>A series of updates, with the time of each.\<close>

fun timer_updates ::
  "(nat \<Rightarrow> timer_task_manger \<Rightarrow> timer_task_manger) \<Rightarrow> u64 list \<Rightarrow> timer_task_manger \<Rightarrow> nat list" where
  "timer_updates cb [] s = []"
| "timer_updates cb (t # ts) s =
     (let (fired, freed, left, s') = timer_update cb t s in fired @ timer_updates cb ts s')"

lemma timer_rounds_quiet: "timer_rounds (\<lambda>_ s. s) now ids as s =
    (map ta_task (filter (\<lambda>a. fst (timer_round now ids a)) as), map (\<lambda>a. snd (timer_round now ids a)) as, s)"
  by (induction as) (simp_all add: split_def)

lemma timer_update_quiet:
  "timer_update (\<lambda>_ s. s) now s =
     (map ta_task (filter (\<lambda>a. fst (timer_round now (tm_invalid_ids s) a)) (tm_tasks s)),
      filter ta_invalid (map (\<lambda>a. snd (timer_round now (tm_invalid_ids s) a)) (tm_tasks s)),
      filter (\<lambda>a. \<not> ta_invalid a) (map (\<lambda>a. snd (timer_round now (tm_invalid_ids s) a)) (tm_tasks s)),
      s\<lparr>tm_tasks := [], tm_invalid_ids := []\<rparr>)"
  by (simp add: timer_update_def timer_rounds_quiet Let_def)

lemma timer_updates_empty: "tm_tasks s = [] \<Longrightarrow> timer_updates (\<lambda>_ s. s) ts s = []"
  by (induction ts arbitrary: s) (simp_all add: timer_update_quiet)



end
