(* ===== verification/Rtmp_Sessions.thy ===== *)
theory Rtmp_Sessions
  imports Rtmp_Server_Proofs Rtmp_Source
begin

text \<open>
  The session of an RTMP publisher (\<^verbatim>\<open>rtmp_publish_session.cc\<close>) and the session of an RTMP
  player (\<^verbatim>\<open>rtmp_forward_session.cc\<close>). Each owns a server context and a connection, and
  sets those callbacks of the context that it needs; a session is the owner's state
  \<^verbatim>\<open>'h\<close> of its context.

  The connection is what is written to it, \<open>ps_out\<close> and \<open>fs_out\<close>; that it was reset is
  \<open>ps_conn\<close> and \<open>fs_conn\<close>. Shutdowns are posted to the executor and counted.
\<close>

text \<open>\<^verbatim>\<open>app + "_" + stream\<close>\<close>

definition stream_name :: "string \<Rightarrow> string \<Rightarrow> string" where
  "stream_name app stream = app @ ''_'' @ stream"

subsection \<open>The publisher\<close>

record ('v, 'a, 'c) publish_session =
  ps_app :: string
  ps_stream :: string
  ps_source :: "('v, 'a, 'c) rtmp_source option"
  ps_conn :: bool
  ps_out :: "frame_buffer list"
  ps_shutdowns :: nat
  ps_routed :: "source_out list"
  ps_sinks :: "(nat \<times> sink_kind) sinks"
  ps_owner :: nat
  ps_ssrc :: ssrc_counters

text \<open>
  \<open>ps_sinks\<close> is the process-wide registry, \<open>ps_ssrc\<close> the process-wide counters,
  \<open>ps_owner\<close> names this publisher, and \<open>ps_routed\<close> is what its stream wrote to sessions.
\<close>

definition rtmp_do_send :: "frame_buffer \<Rightarrow> ('v, 'a, 'c) publish_session callback" where
  "rtmp_do_send frame s =
     (if \<not> ps_conn s then Inl Null_deref
      else Inr (int (fb_size frame), s\<lparr>ps_out := ps_out s @ [frame]\<rparr>))"

definition rtmp_on_publish ::
  "string \<Rightarrow> string \<Rightarrow> string \<Rightarrow> ('v, 'a, 'c) publish_session callback" where
  "rtmp_on_publish app stream ty s =
     Inr (0, s\<lparr>ps_app := app, ps_stream := stream,
               ps_source := Some (rtmp_source_create (stream_name app stream) (ps_ssrc s)),
               ps_sinks := rtmp_source_register (ps_owner s) (stream_name app stream) (ps_sinks s)\<rparr>)"

definition publish_media ::
  "('v, 'a) source_libs \<Rightarrow> ('a, 'c) rtp_lib \<Rightarrow> frame_ptr \<Rightarrow> error_code option
   \<Rightarrow> ('v, 'a, 'c) publish_session callback" where
  "publish_media S R frame ec s =
     (case ps_source s of
        None \<Rightarrow> Inl Null_deref
      | Some src \<Rightarrow> obind (rtmp_source_write S R (frame, ec) src) (\<lambda>(os, src').
          Inr (0, s\<lparr>ps_source := Some src', ps_routed := ps_routed s @ os\<rparr>)))"

definition rtmp_on_script where "rtmp_on_script S R frame = publish_media S R (Some frame) None"
definition rtmp_on_video where "rtmp_on_video S R frame = publish_media S R (Some frame) None"
definition rtmp_on_audio where "rtmp_on_audio S R frame = publish_media S R (Some frame) None"

text \<open>The handler that \<^verbatim>\<open>startup\<close> gives to the context.\<close>

definition publish_handler ::
  "('v, 'a) source_libs \<Rightarrow> ('a, 'c) rtp_lib \<Rightarrow> ('v, 'a, 'c) publish_session rtmp_server_context_handler" where
  "publish_handler S R =
     \<lparr>h_send = Some rtmp_do_send, h_onplay = None, h_onpause = None, h_onseek = None,
      h_onpublish = Some rtmp_on_publish, h_onvideo = Some (rtmp_on_video S R),
      h_onaudio = Some (rtmp_on_audio S R), h_onscript = Some (rtmp_on_script S R),
      h_ongetduration = None\<rparr>"

definition publish_shutdown :: "('v, 'a, 'c) publish_session \<Rightarrow> ('v, 'a, 'c) publish_session" where
  "publish_shutdown s = s\<lparr>ps_shutdowns := ps_shutdowns s + 1\<rparr>"

definition publish_on_read ::
  "('l, ('v, 'a, 'c) publish_session) rtmp_lib \<Rightarrow> ('v, 'a) source_libs \<Rightarrow> ('a, 'c) rtp_lib
   \<Rightarrow> u32 \<times> u32 \<Rightarrow> frame_buffer \<Rightarrow> error_code option
   \<Rightarrow> ('l, ('v, 'a, 'c) publish_session) rtmp_ctx \<Rightarrow> ('l, ('v, 'a, 'c) publish_session) rtmp_ctx outcome" where
  "publish_on_read L S R now frame ec c =
     (if ec \<noteq> None then Inr (c\<lparr>cx_user := publish_shutdown (cx_user c)\<rparr>)
      else obind (rtmp_server_input L (publish_handler S R) now (fb_data frame) c) (\<lambda>(_, c'). Inr c'))"

definition publish_on_write :: "error_code option \<Rightarrow> ('v, 'a, 'c) publish_session \<Rightarrow> ('v, 'a, 'c) publish_session" where
  "publish_on_write ec s = (if ec \<noteq> None then publish_shutdown s else s)"

definition publish_safe_shutdown ::
  "('v, 'a) source_libs \<Rightarrow> ('a, 'c) rtp_lib \<Rightarrow> ('v, 'a, 'c) publish_session \<Rightarrow> ('v, 'a, 'c) publish_session outcome" where
  "publish_safe_shutdown S R s =
     obind (if ps_source s = None then Inr s
            else obind (publish_media S R None (Some Ec_eof) s) (\<lambda>(_, s'). Inr (s'\<lparr>ps_source := None\<rparr>)))
       (\<lambda>s'. Inr (s'\<lparr>ps_conn := False\<rparr>))"

subsection \<open>The player\<close>

record forward_session =
  fs_app :: string
  fs_stream :: string
  fs_stream_id :: string
  fs_sink :: "(nat \<times> sink_kind) option"
  fs_channel :: "channel_ref option"
  fs_conn :: bool
  fs_out :: "frame_buffer list"
  fs_shutdowns :: nat
  fs_requests :: "((nat \<times> sink_kind) \<times> sink_event) list"
  fs_sinks :: "(nat \<times> sink_kind) sinks"

text \<open>
  \<open>fs_requests\<close> are the joins and leaves that the session asked of sinks; \<open>fs_sinks\<close> is
  the process-wide registry. Joining with the null channel, after the channel was reset,
  makes the sink write to a null pointer.
\<close>

definition ask_sink ::
  "(nat \<times> sink_kind) \<Rightarrow> (channel_ref \<Rightarrow> sink_event) \<Rightarrow> forward_session \<Rightarrow> forward_session outcome" where
  "ask_sink k ev s =
     (case fs_channel s of
        None \<Rightarrow> Inl Null_deref
      | Some ch \<Rightarrow> Inr (s\<lparr>fs_requests := fs_requests s @ [(k, ev ch)]\<rparr>))"

definition forward_shutdown :: "forward_session \<Rightarrow> forward_session" where
  "forward_shutdown s = s\<lparr>fs_shutdowns := fs_shutdowns s + 1\<rparr>"

definition forward_send :: "frame_buffer \<Rightarrow> forward_session callback" where
  "forward_send frame s =
     Inr (int (fb_size frame), if fs_conn s then s\<lparr>fs_out := fs_out s @ [frame]\<rparr> else s)"

definition forward_onplay ::
  "string \<Rightarrow> string \<Rightarrow> double \<Rightarrow> double \<Rightarrow> byte \<Rightarrow> forward_session callback" where
  "forward_onplay app stream start duration reset s =
     (let ident = ''rtmp_'' @ stream_name app stream
      in case sink_get (fs_sinks s) ident of
           None \<Rightarrow> Inr (0, forward_shutdown s)
         | Some k \<Rightarrow>
             obind (ask_sink k Join (s\<lparr>fs_sink := Some k, fs_stream_id := ident, fs_app := app,
                                       fs_stream := stream\<rparr>)) (\<lambda>s'. Inr (0, s')))"

definition forward_onpause :: "int \<Rightarrow> u32 \<Rightarrow> forward_session callback" where
  "forward_onpause pause ms s = Inr (0, s)"

definition forward_onseek :: "u32 \<Rightarrow> forward_session callback" where
  "forward_onseek ms s = Inr (0, s)"

definition forward_ongetduration ::
  "string \<Rightarrow> string \<Rightarrow> forward_session \<Rightarrow> (int \<times> double \<times> forward_session) outcome" where
  "forward_ongetduration app stream s = Inr (0, 30 * 60, s)"

definition forward_handler :: "forward_session rtmp_server_context_handler" where
  "forward_handler =
     \<lparr>h_send = Some forward_send, h_onplay = Some forward_onplay, h_onpause = Some forward_onpause,
      h_onseek = Some forward_onseek, h_onpublish = None, h_onvideo = None, h_onaudio = None,
      h_onscript = None, h_ongetduration = Some forward_ongetduration\<rparr>"

definition forward_channel_out ::
  "('l, forward_session) rtmp_lib \<Rightarrow> delivery \<Rightarrow> ('l, forward_session) rtmp_ctx
   \<Rightarrow> ('l, forward_session) rtmp_ctx outcome" where
  "forward_channel_out L d c =
     (case d of
        (f, Some e) \<Rightarrow> Inr (c\<lparr>cx_user := forward_shutdown (cx_user c)\<rparr>)
      | (None, None) \<Rightarrow> Inl Null_deref
      | (Some frame, None) \<Rightarrow>
          if fb_media frame = tag_code Video
          then obind (rtmp_server_send_video L forward_handler frame c) (\<lambda>(_, c'). Inr c')
          else if fb_media frame = tag_code Audio
          then obind (rtmp_server_send_audio L forward_handler frame c) (\<lambda>(_, c'). Inr c')
          else if fb_media frame = tag_code Script
          then obind (rtmp_server_send_script L forward_handler frame c) (\<lambda>(_, c'). Inr c')
          else Inr c)"

definition forward_on_read ::
  "('l, forward_session) rtmp_lib \<Rightarrow> u32 \<times> u32 \<Rightarrow> frame_buffer \<Rightarrow> error_code option
   \<Rightarrow> ('l, forward_session) rtmp_ctx \<Rightarrow> ('l, forward_session) rtmp_ctx outcome" where
  "forward_on_read L now frame ec c =
     (if ec \<noteq> None then Inr (c\<lparr>cx_user := forward_shutdown (cx_user c)\<rparr>)
      else obind (rtmp_server_input L forward_handler now (fb_data frame) c) (\<lambda>(_, c'). Inr c'))"

definition forward_on_write :: "error_code option \<Rightarrow> forward_session \<Rightarrow> forward_session" where
  "forward_on_write ec s = (if ec \<noteq> None then forward_shutdown s else s)"

text \<open>\<open>live\<close> says whether the sink still exists: the session holds it weakly.\<close>

definition forward_safe_shutdown :: "bool \<Rightarrow> forward_session \<Rightarrow> forward_session" where
  "forward_safe_shutdown live s =
     (let s1 = (case (fs_sink s, fs_channel s) of
                  (Some k, Some ch) \<Rightarrow> if live then s\<lparr>fs_requests := fs_requests s @ [(k, Leave ch)]\<rparr> else s
                | _ \<Rightarrow> s)
      in s1\<lparr>fs_channel := None, fs_conn := False\<rparr>)"

subsection \<open>The sessions as owners of a context\<close>

interpretation forward_owner: recording_owner forward_handler
    "\<lambda>f u. u\<lparr>fs_out := fs_out u @ [f]\<rparr>" fs_conn
  by unfold_locales (simp_all add: forward_handler_def forward_send_def)

interpretation publish_owner: recording_owner "publish_handler S R"
    "\<lambda>f u. u\<lparr>ps_out := ps_out u @ [f]\<rparr>" ps_conn for S R
  by unfold_locales (simp_all add: publish_handler_def rtmp_do_send_def)

lemma fold_forward_out:
  "fold (\<lambda>f u. u\<lparr>fs_out := fs_out u @ [f]\<rparr>) fs u = u\<lparr>fs_out := fs_out u @ fs\<rparr>"
  by (induction fs arbitrary: u) simp_all

text \<open>
  A frame of the stream reaches the player as one RTMP message: a video frame that the
  sink writes to the channel of a connected player whose \<^verbatim>\<open>receiveVideo\<close> is on is put on
  the connection as the chunks of one message, of the frame's bytes and no others, under the
  header of a video message with the time stamp of the frame.
\<close>

theorem player_gets_video:
  assumes "fs_conn (cx_user c)" "cx_receiveVideo c \<noteq> 0" "fb_media frame = tag_code Video"
    and "rtmp_chunk_header_zip_help (cx_rtmp c)
           \<lparr>hdr_fmt = Chunk_type_1, hdr_cid = RTMP_CHANNEL_VIDEO (lib_consts L),
            hdr_timestamp = word_of_int (fb_pts frame), hdr_length = of_nat (fb_size frame),
            hdr_type = RTMP_TYPE_VIDEO (lib_consts L), hdr_stream_id = cx_stream_id c\<rparr> = Inr (h, rt)"
    and "fb_size frame < 0xFFFFFF" "wf_frame frame" "0 < unat (out_chunk_size (cx_rtmp c))"
  shows "\<exists>fs c'. forward_channel_out L (Some frame, None) c = Inr c'
     \<and> fs_out (cx_user c') = fs_out (cx_user c) @ fs \<and> cx_rtmp c' = rt
     \<and> map fb_data fs = interleave (chunk_plan L h (unat (out_chunk_size (cx_rtmp c))) (fb_data frame))
     \<and> concat (map snd (chunk_plan L h (unat (out_chunk_size (cx_rtmp c))) (fb_data frame))) = fb_data frame"
proof -
  let ?header = "\<lparr>hdr_fmt = Chunk_type_1, hdr_cid = RTMP_CHANNEL_VIDEO (lib_consts L),
            hdr_timestamp = word_of_int (fb_pts frame), hdr_length = of_nat (fb_size frame),
            hdr_type = RTMP_TYPE_VIDEO (lib_consts L), hdr_stream_id = cx_stream_id c\<rparr>"
  let ?k = "unat (out_chunk_size (cx_rtmp c))"
  have len: "length (fb_data frame) = fb_size frame" using assms(6) by (rule length_fb_data)
  have n: "unat (hdr_length ?header) = fb_size frame"
    using assms(5) by (simp add: unat_of_nat)
  have n': "unat (of_nat (fb_size frame) :: u32) = fb_size frame" using n by simp
  have small: "hdr_length ?header < 0xFFFFFF"
    using assms(5) n by (simp add: word_less_nat_alt)
  have hl: "hdr_length h = hdr_length ?header" by (rule zip_help_length [OF assms(4)])
  let ?fs = "chunk_frames L h frame ?k 0 (fb_size frame) (first_chunk_header L h)"
  have "rtmp_chunk_write_help L forward_handler ?header frame c =
      Inr (0, c\<lparr>cx_rtmp := rt, cx_user := (cx_user c)\<lparr>fs_out := fs_out (cx_user c) @ ?fs\<rparr>\<rparr>)"
    using forward_owner.chunk_write_help_records [OF assms(1,4) small assms(7), of L frame]
    by (simp add: n' fold_forward_out del: unat_of_nat)
  with assms(2,3) have "forward_channel_out L (Some frame, None) c =
      Inr (c\<lparr>cx_rtmp := rt, cx_user := (cx_user c)\<lparr>fs_out := fs_out (cx_user c) @ ?fs\<rparr>\<rparr>)"
    by (simp add: forward_channel_out_def rtmp_server_send_video_def send_media_def)
  moreover have "map fb_data ?fs = interleave (chunk_plan L h ?k (fb_data frame))"
    using interleave_plan [of h frame ?k L] assms(7) by (simp add: hl n' len del: unat_of_nat)
  moreover have "concat (map snd (chunk_plan L h ?k (fb_data frame))) = fb_data frame"
    using assms(7) by (rule chunk_plan_payload)
  ultimately show ?thesis by (intro exI conjI) (assumption | simp)+
qed

definition demo_player :: "(unit, forward_session) rtmp_ctx" where
  "demo_player = (ctx_init demo_lib ()
     \<lparr>fs_app = [], fs_stream = [], fs_stream_id = [], fs_sink = None, fs_channel = Some 5,
      fs_conn = True, fs_out = [], fs_shutdowns = 0, fs_requests = [],
      fs_sinks = [''rtmp_live_a'' \<mapsto> (2, Rtmp_kind)]\<rparr>)\<lparr>cx_rtmp := demo_rtmp\<rparr>"

lemma demo_player_simps [simp]:
  "cx_rtmp demo_player = demo_rtmp" "cx_receiveVideo demo_player = 1" "cx_stream_id demo_player = 0"
  "fs_conn (cx_user demo_player)" "fs_out (cx_user demo_player) = []"
  "fs_channel (cx_user demo_player) = Some 5" "fs_shutdowns (cx_user demo_player) = 0"
  "fs_sinks (cx_user demo_player) = [''rtmp_live_a'' \<mapsto> (2, Rtmp_kind)]"
  by (simp_all add: demo_player_def ctx_init_def Let_def)

definition demo_picture :: frame_buffer where
  "demo_picture = Fixed ((fixed_create_data [1, 2, 3])\<lparr>ff_pts := 40, ff_media := tag_code Video\<rparr>)"

lemma zip_demo_player:
  "\<exists>h rt. rtmp_chunk_header_zip_help demo_rtmp
       \<lparr>hdr_fmt = Chunk_type_1, hdr_cid = 5, hdr_timestamp = 40, hdr_length = 3, hdr_type = 9,
        hdr_stream_id = 0\<rparr> = Inr (h, rt)"
  by (simp add: rtmp_chunk_header_zip_help_def rtmp_packet_find_help_def
      demo_rtmp_def empty_header_def slot_of_def compress_header_def upt_rec Let_def)

theorem player_gets_video_witness:
  "\<exists>c' plan. forward_channel_out demo_lib (Some demo_picture, None) demo_player = Inr c'
     \<and> map fb_data (fs_out (cx_user c')) = interleave plan \<and> concat (map snd plan) = [1, 2, 3]"
proof -
  obtain h rt where z: "rtmp_chunk_header_zip_help demo_rtmp
       \<lparr>hdr_fmt = Chunk_type_1, hdr_cid = 5, hdr_timestamp = 40, hdr_length = 3, hdr_type = 9,
        hdr_stream_id = 0\<rparr> = Inr (h, rt)" using zip_demo_player by blast
  have "fb_size demo_picture = 3" "fb_pts demo_picture = 40" "fb_media demo_picture = tag_code Video"
    "wf_frame demo_picture" "fb_data demo_picture = [1, 2, 3]"
    by (simp_all add: demo_picture_def fixed_create_data_def)
  then show ?thesis
    using player_gets_video [of demo_player demo_picture demo_lib h rt] z
    by (fastforce simp: demo_consts_def)
qed

text \<open>
  A player of a stream that nobody publishes is told that the play has started: the
  session asks to be shut down, joins no sink, and reports success to its context, which
  answers exactly as it answers the player of an existing stream, whose session joins.
\<close>

theorem unknown_stream_play_starts:
  assumes "cx_user c = s" "ident = ''rtmp_'' @ stream_name (ci_app (cx_info c)) name"
  shows "(sink_get (fs_sinks s) ident = None \<longrightarrow>
      (\<exists>c1. dispatch L forward_handler (Ev_play 0 t (Some name) start duration reset) c
              = start_onplay L forward_handler 0 [] c1
          \<and> cx_user c1 = forward_shutdown s \<and> cx_start_transaction c1 = t))
   \<and> (\<forall>k ch. sink_get (fs_sinks s) ident = Some k \<and> fs_channel s = Some ch \<longrightarrow>
      (\<exists>c1. dispatch L forward_handler (Ev_play 0 t (Some name) start duration reset) c
              = start_onplay L forward_handler 0 [] c1
          \<and> fs_requests (cx_user c1) = fs_requests s @ [(k, Join ch)]
          \<and> fs_sink (cx_user c1) = Some k \<and> cx_start_transaction c1 = t))"
  using assms
  by (auto simp: rtmp_server_onplay_def forward_handler_def forward_onplay_def ask_sink_def
      string_of_ptr_def finish_start_def rtmp_server_start_def RTMP_SERVER_ASYNC_START_def Let_def)

theorem unknown_stream_play_starts_witness:
  "\<exists>c1. dispatch demo_lib forward_handler (Ev_play 0 4 (Some ''b'') 0 0 0) demo_player
            = start_onplay demo_lib forward_handler 0 [] c1 \<and> fs_shutdowns (cx_user c1) = 1"
proof -
  have "sink_get (fs_sinks (cx_user demo_player))
      (''rtmp_'' @ stream_name (ci_app (cx_info demo_player)) ''b'') = None"
    by (simp add: sink_get_def demo_player_def ctx_init_def Let_def stream_name_def)
  then obtain c1 where "dispatch demo_lib forward_handler (Ev_play 0 4 (Some ''b'') 0 0 0) demo_player
            = start_onplay demo_lib forward_handler 0 [] c1"
    and "cx_user c1 = forward_shutdown (cx_user demo_player)"
    using unknown_stream_play_starts [of demo_player "cx_user demo_player" _ "''b''"] by blast
  then show ?thesis by (auto simp: forward_shutdown_def)
qed


definition demo_publisher :: "(unit, (unit, nat, unit) publish_session) rtmp_ctx" where
  "demo_publisher = ctx_init demo_lib ()
     \<lparr>ps_app = [], ps_stream = [], ps_source = None, ps_conn = False, ps_out = [], ps_shutdowns = 0,
      ps_routed = [], ps_sinks = Map.empty, ps_owner = 1, ps_ssrc = ssrc_start\<rparr>"

lemma demo_publisher_simps [simp]:
  "cx_user demo_publisher = \<lparr>ps_app = [], ps_stream = [], ps_source = None, ps_conn = False, ps_out = [],
     ps_shutdowns = 0, ps_routed = [], ps_sinks = Map.empty, ps_owner = 1, ps_ssrc = ssrc_start\<rparr>"
  by (simp add: demo_publisher_def ctx_init_def Let_def)


end
