(* ===== verification/Http_Tables.thy ===== *)
theory Http_Tables
  imports Prelude Text_Util
begin

text \<open>
  The constants of the HTTP and RTSP parser (\<^verbatim>\<open>third/http_parse/http_parser.h\<close> and the first
  part of \<^verbatim>\<open>http_parser.c\<close>): methods, error numbers, parser states, the character tables and
  the character classes, in their strict version, which is the one that is compiled.

  A \<^verbatim>\<open>char\<close> of the input is a byte. Where the source compares a signed \<^verbatim>\<open>char\<close> with ASCII
  bounds the comparison of bytes gives the same result.
\<close>

subsection \<open>Characters\<close>

abbreviation c_cr :: byte where "c_cr \<equiv> 13"
abbreviation c_lf :: byte where "c_lf \<equiv> 10"
abbreviation c_ht :: byte where "c_ht \<equiv> 9"
abbreviation c_ff :: byte where "c_ff \<equiv> 12"
abbreviation c_sp :: byte where "c_sp \<equiv> 32"
abbreviation c_hash :: byte where "c_hash \<equiv> 35"
abbreviation c_dollar :: byte where "c_dollar \<equiv> 36"
abbreviation c_percent :: byte where "c_percent \<equiv> 37"
abbreviation c_amp :: byte where "c_amp \<equiv> 38"
abbreviation c_quote :: byte where "c_quote \<equiv> 39"
abbreviation c_lpar :: byte where "c_lpar \<equiv> 40"
abbreviation c_rpar :: byte where "c_rpar \<equiv> 41"
abbreviation c_star :: byte where "c_star \<equiv> 42"
abbreviation c_plus :: byte where "c_plus \<equiv> 43"
abbreviation c_comma :: byte where "c_comma \<equiv> 44"
abbreviation c_minus :: byte where "c_minus \<equiv> 45"
abbreviation c_dot :: byte where "c_dot \<equiv> 46"
abbreviation c_slash :: byte where "c_slash \<equiv> 47"
abbreviation c_colon :: byte where "c_colon \<equiv> 58"
abbreviation c_semi :: byte where "c_semi \<equiv> 59"
abbreviation c_eq :: byte where "c_eq \<equiv> 61"
abbreviation c_query :: byte where "c_query \<equiv> 63"
abbreviation c_at :: byte where "c_at \<equiv> 64"
abbreviation c_lbrack :: byte where "c_lbrack \<equiv> 91"
abbreviation c_rbrack :: byte where "c_rbrack \<equiv> 93"
abbreviation c_under :: byte where "c_under \<equiv> 95"
abbreviation c_tilde :: byte where "c_tilde \<equiv> 126"
abbreviation c_bang :: byte where "c_bang \<equiv> 33"
abbreviation c_A :: byte where "c_A \<equiv> 65"
abbreviation c_B :: byte where "c_B \<equiv> 66"
abbreviation c_C :: byte where "c_C \<equiv> 67"
abbreviation c_D :: byte where "c_D \<equiv> 68"
abbreviation c_E :: byte where "c_E \<equiv> 69"
abbreviation c_G :: byte where "c_G \<equiv> 71"
abbreviation c_H :: byte where "c_H \<equiv> 72"
abbreviation c_I :: byte where "c_I \<equiv> 73"
abbreviation c_L :: byte where "c_L \<equiv> 76"
abbreviation c_M :: byte where "c_M \<equiv> 77"
abbreviation c_N :: byte where "c_N \<equiv> 78"
abbreviation c_O :: byte where "c_O \<equiv> 79"
abbreviation c_P :: byte where "c_P \<equiv> 80"
abbreviation c_R :: byte where "c_R \<equiv> 82"
abbreviation c_S :: byte where "c_S \<equiv> 83"
abbreviation c_T :: byte where "c_T \<equiv> 84"
abbreviation c_U :: byte where "c_U \<equiv> 85"
abbreviation c_0 :: byte where "c_0 \<equiv> 48"
abbreviation c_9 :: byte where "c_9 \<equiv> 57"
abbreviation c_Z :: byte where "c_Z \<equiv> 90"
abbreviation c_a :: byte where "c_a \<equiv> 97"
abbreviation c_c :: byte where "c_c \<equiv> 99"
abbreviation c_f :: byte where "c_f \<equiv> 102"
abbreviation c_k :: byte where "c_k \<equiv> 107"
abbreviation c_n :: byte where "c_n \<equiv> 110"
abbreviation c_o :: byte where "c_o \<equiv> 111"
abbreviation c_p :: byte where "c_p \<equiv> 112"
abbreviation c_t :: byte where "c_t \<equiv> 116"
abbreviation c_u :: byte where "c_u \<equiv> 117"
abbreviation c_z :: byte where "c_z \<equiv> 122"

subsection \<open>Methods\<close>

datatype http_method =
    HTTP_DELETE | HTTP_GET | HTTP_HEAD | HTTP_POST | HTTP_PUT | HTTP_CONNECT | HTTP_OPTIONS
    | HTTP_TRACE | HTTP_COPY | HTTP_LOCK | HTTP_MKCOL | HTTP_MOVE | HTTP_PROPFIND
    | HTTP_PROPPATCH | HTTP_SEARCH | HTTP_UNLOCK | HTTP_BIND | HTTP_REBIND | HTTP_UNBIND
    | HTTP_ACL | HTTP_REPORT | HTTP_MKACTIVITY | HTTP_CHECKOUT | HTTP_MERGE | HTTP_MSEARCH
    | HTTP_NOTIFY | HTTP_SUBSCRIBE | HTTP_UNSUBSCRIBE | HTTP_PATCH | HTTP_PURGE
    | HTTP_MKCALENDAR | HTTP_LINK | HTTP_UNLINK | HTTP_SOURCE | HTTP_DESCRIBE | HTTP_SETUP
    | HTTP_PLAY | HTTP_TEARDOWN

text \<open>
  \<^verbatim>\<open>method_strings\<close> is made of the third arguments by \<^verbatim>\<open>#string\<close>, which keeps the spaces of
  \<^verbatim>\<open>M - SEARCH\<close>.
\<close>

fun method_strings :: "http_method \<Rightarrow> string" where
  "method_strings HTTP_DELETE = ''DELETE''"
| "method_strings HTTP_GET = ''GET''"
| "method_strings HTTP_HEAD = ''HEAD''"
| "method_strings HTTP_POST = ''POST''"
| "method_strings HTTP_PUT = ''PUT''"
| "method_strings HTTP_CONNECT = ''CONNECT''"
| "method_strings HTTP_OPTIONS = ''OPTIONS''"
| "method_strings HTTP_TRACE = ''TRACE''"
| "method_strings HTTP_COPY = ''COPY''"
| "method_strings HTTP_LOCK = ''LOCK''"
| "method_strings HTTP_MKCOL = ''MKCOL''"
| "method_strings HTTP_MOVE = ''MOVE''"
| "method_strings HTTP_PROPFIND = ''PROPFIND''"
| "method_strings HTTP_PROPPATCH = ''PROPPATCH''"
| "method_strings HTTP_SEARCH = ''SEARCH''"
| "method_strings HTTP_UNLOCK = ''UNLOCK''"
| "method_strings HTTP_BIND = ''BIND''"
| "method_strings HTTP_REBIND = ''REBIND''"
| "method_strings HTTP_UNBIND = ''UNBIND''"
| "method_strings HTTP_ACL = ''ACL''"
| "method_strings HTTP_REPORT = ''REPORT''"
| "method_strings HTTP_MKACTIVITY = ''MKACTIVITY''"
| "method_strings HTTP_CHECKOUT = ''CHECKOUT''"
| "method_strings HTTP_MERGE = ''MERGE''"
| "method_strings HTTP_MSEARCH = ''M - SEARCH''"
| "method_strings HTTP_NOTIFY = ''NOTIFY''"
| "method_strings HTTP_SUBSCRIBE = ''SUBSCRIBE''"
| "method_strings HTTP_UNSUBSCRIBE = ''UNSUBSCRIBE''"
| "method_strings HTTP_PATCH = ''PATCH''"
| "method_strings HTTP_PURGE = ''PURGE''"
| "method_strings HTTP_MKCALENDAR = ''MKCALENDAR''"
| "method_strings HTTP_LINK = ''LINK''"
| "method_strings HTTP_UNLINK = ''UNLINK''"
| "method_strings HTTP_SOURCE = ''SOURCE''"
| "method_strings HTTP_DESCRIBE = ''DESCRIBE''"
| "method_strings HTTP_SETUP = ''SETUP''"
| "method_strings HTTP_PLAY = ''PLAY''"
| "method_strings HTTP_TEARDOWN = ''TEARDOWN''"

subsection \<open>Error numbers, types and flags\<close>

datatype http_errno =
    HPE_OK | HPE_CB_message_begin | HPE_CB_url | HPE_CB_header_field | HPE_CB_header_value
    | HPE_CB_headers_complete | HPE_CB_body | HPE_CB_message_complete | HPE_CB_status
    | HPE_CB_chunk_header | HPE_CB_chunk_complete | HPE_INVALID_EOF_STATE | HPE_HEADER_OVERFLOW
    | HPE_CLOSED_CONNECTION | HPE_INVALID_VERSION | HPE_INVALID_STATUS | HPE_INVALID_METHOD
    | HPE_INVALID_URL | HPE_INVALID_HOST | HPE_INVALID_PORT | HPE_INVALID_PATH
    | HPE_INVALID_QUERY_STRING | HPE_INVALID_FRAGMENT | HPE_LF_EXPECTED
    | HPE_INVALID_HEADER_TOKEN | HPE_INVALID_CONTENT_LENGTH | HPE_UNEXPECTED_CONTENT_LENGTH
    | HPE_INVALID_CHUNK_SIZE | HPE_INVALID_CONSTANT | HPE_INVALID_INTERNAL_STATE | HPE_STRICT
    | HPE_PAUSED | HPE_UNKNOWN | HPE_INVALID_TRANSFER_ENCODING

datatype http_parser_type = HTTP_REQUEST | HTTP_RESPONSE | HTTP_BOTH

text \<open>The eight bits of \<^verbatim>\<open>flags\<close> are a set.\<close>

datatype http_flag =
    F_CHUNKED | F_CONNECTION_KEEP_ALIVE | F_CONNECTION_CLOSE | F_CONNECTION_UPGRADE | F_TRAILING
    | F_UPGRADE | F_SKIPBODY | F_CONTENTLENGTH

subsection \<open>States\<close>

text \<open>
  The enumeration \<^verbatim>\<open>state\<close>, with the states of a response line, of a URL and of the end of a
  request line as enumerations of their own.
\<close>

datatype res_state =
    s_res_H | s_res_HT | s_res_HTT | s_res_HTTP | s_res_R | s_res_RT | s_res_RTS | s_res_RTSP
    | s_res_http_major | s_res_http_dot | s_res_http_minor | s_res_http_end
    | s_res_first_status_code | s_res_status_code | s_res_status_start | s_res_status
    | s_res_line_almost_done

datatype url_state =
    s_req_spaces_before_url | s_req_schema | s_req_schema_slash | s_req_schema_slash_slash
    | s_req_server_start | s_req_server | s_req_server_with_at | s_req_path
    | s_req_query_string_start | s_req_query_string | s_req_fragment_start | s_req_fragment

datatype req_state =
    s_req_http_start | s_req_http_H | s_req_http_HT | s_req_http_HTT | s_req_http_HTTP
    | s_req_http_R | s_req_http_RT | s_req_http_RTS | s_req_http_RTSP | s_req_http_I
    | s_req_http_IC | s_req_http_major | s_req_http_dot | s_req_http_minor | s_req_http_end
    | s_req_line_almost_done

datatype http_state =
    s_dead | s_start_req_or_res | s_res_or_resp_H | s_res_or_resp_R | s_start_res
    | Res res_state | s_start_req | s_req_method | Url url_state | Req req_state
    | s_header_field_start | s_header_field | s_header_value_discard_ws
    | s_header_value_discard_ws_almost_done | s_header_value_discard_lws | s_header_value_start
    | s_header_value | s_header_value_lws | s_header_almost_done | s_chunk_size_start
    | s_chunk_size | s_chunk_parameters | s_chunk_size_almost_done | s_headers_almost_done
    | s_headers_done | s_chunk_data | s_chunk_data_almost_done | s_chunk_data_done
    | s_body_identity | s_body_identity_eof | s_message_done

text \<open>\<^verbatim>\<open>PARSING_HEADER(state)\<close>: the states up to \<open>s_headers_done\<close>.\<close>

definition parsing_header :: "http_state \<Rightarrow> bool" where
  "parsing_header s \<longleftrightarrow> s \<notin> {s_chunk_data, s_chunk_data_almost_done, s_chunk_data_done, s_body_identity, s_body_identity_eof, s_message_done}"

datatype header_state =
    h_general | h_C | h_CO | h_CON | h_matching_connection | h_matching_proxy_connection
    | h_matching_content_length | h_matching_transfer_encoding | h_matching_upgrade
    | h_connection | h_content_length | h_content_length_num | h_content_length_ws
    | h_transfer_encoding | h_upgrade | h_matching_transfer_encoding_token_start
    | h_matching_transfer_encoding_chunked | h_matching_transfer_encoding_token
    | h_matching_connection_token_start | h_matching_connection_keep_alive
    | h_matching_connection_close | h_matching_connection_upgrade | h_matching_connection_token
    | h_transfer_encoding_chunked | h_connection_keep_alive | h_connection_close
    | h_connection_upgrade

datatype http_host_state =
    s_http_host_dead | s_http_userinfo_start | s_http_userinfo | s_http_host_start
    | s_http_host_v6_start | s_http_host | s_http_host_v6 | s_http_host_v6_end
    | s_http_host_v6_zone_start | s_http_host_v6_zone | s_http_host_port_start
    | s_http_host_port

subsection \<open>The character tables\<close>

text \<open>\<^verbatim>\<open>tokens\<close>: the first 128 entries; the rest of the array is zero.\<close>

definition tokens :: "nat list" where
  "tokens =
    [0, 0, 0, 0, 0, 0, 0, 0, 0, 0, 0, 0, 0, 0, 0, 0, 0, 0, 0, 0, 0, 0, 0, 0, 0, 0, 0, 0, 0, 0, 0
     , 0, 32, 33, 0, 35, 36, 37, 38, 39, 0, 0, 42, 43, 0, 45, 46, 0, 48, 49, 50, 51, 52, 53, 54
     , 55, 56, 57, 0, 0, 0, 0, 0, 0, 0, 97, 98, 99, 100, 101, 102, 103, 104, 105, 106, 107, 108
     , 109, 110, 111, 112, 113, 114, 115, 116, 117, 118, 119, 120, 121, 122, 0, 0, 0, 94, 95, 96
     , 97, 98, 99, 100, 101, 102, 103, 104, 105, 106, 107, 108, 109, 110, 111, 112, 113, 114
     , 115, 116, 117, 118, 119, 120, 121, 122, 0, 124, 0, 126, 0]"

text \<open>
  \<^verbatim>\<open>unhex\<close>: the 128 entries that the source lists. The rest of the array is zero, so that a
  byte from 128 on counts as the digit zero.
\<close>

definition unhex :: "int list" where
  "unhex =
    [- 1, - 1, - 1, - 1, - 1, - 1, - 1, - 1, - 1, - 1, - 1, - 1, - 1, - 1, - 1, - 1, - 1, - 1
     , - 1, - 1, - 1, - 1, - 1, - 1, - 1, - 1, - 1, - 1, - 1, - 1, - 1, - 1, - 1, - 1, - 1, - 1
     , - 1, - 1, - 1, - 1, - 1, - 1, - 1, - 1, - 1, - 1, - 1, - 1, 0, 1, 2, 3, 4, 5, 6, 7, 8, 9
     , - 1, - 1, - 1, - 1, - 1, - 1, - 1, 10, 11, 12, 13, 14, 15, - 1, - 1, - 1, - 1, - 1, - 1
     , - 1, - 1, - 1, - 1, - 1, - 1, - 1, - 1, - 1, - 1, - 1, - 1, - 1, - 1, - 1, - 1, - 1, - 1
     , - 1, - 1, 10, 11, 12, 13, 14, 15, - 1, - 1, - 1, - 1, - 1, - 1, - 1, - 1, - 1, - 1, - 1
     , - 1, - 1, - 1, - 1, - 1, - 1, - 1, - 1, - 1, - 1, - 1, - 1, - 1, - 1]"

text \<open>\<^verbatim>\<open>normal_url_char\<close>, one bit for each character, in its strict version.\<close>

definition normal_url_char :: "nat list" where
  "normal_url_char = [0, 0, 0, 0, 246, 255, 255, 127, 255, 255, 255, 255, 255, 255, 255, 127]"
subsection \<open>Character classes\<close>

definition token :: "byte \<Rightarrow> byte" where
  "token c = (if c = c_sp \<or> 128 \<le> unat c then 0 else of_nat (tokens ! unat c))"

text \<open>\<^verbatim>\<open>STRICT_TOKEN\<close> is \<open>token\<close>; the two coincide in the strict version.\<close>

definition unhex_at :: "byte \<Rightarrow> int" where
  "unhex_at c = (if 128 \<le> unat c then 0 else unhex ! unat c)"

definition lower :: "byte \<Rightarrow> byte" where
  "lower c = c OR 32"

definition is_alpha :: "byte \<Rightarrow> bool" where
  "is_alpha c \<longleftrightarrow> 97 \<le> lower c \<and> lower c \<le> 122"

definition is_num_char :: "byte \<Rightarrow> bool" where
  "is_num_char c \<longleftrightarrow> 48 \<le> c \<and> c \<le> 57"

definition is_alphanum :: "byte \<Rightarrow> bool" where
  "is_alphanum c \<longleftrightarrow> is_alpha c \<or> is_num_char c"

definition is_hex :: "byte \<Rightarrow> bool" where
  "is_hex c \<longleftrightarrow> is_num_char c \<or> 97 \<le> lower c \<and> lower c \<le> 102"

definition is_mark :: "byte \<Rightarrow> bool" where
  "is_mark c \<longleftrightarrow> c \<in> {c_minus, c_under, c_dot, c_bang, c_tilde, c_star, c_quote, c_lpar, c_rpar}"

definition is_userinfo_char :: "byte \<Rightarrow> bool" where
  "is_userinfo_char c \<longleftrightarrow> is_alphanum c \<or> is_mark c
     \<or> c \<in> {c_percent, c_semi, c_colon, c_amp, c_eq, c_plus, c_dollar, c_comma}"

definition is_url_char :: "byte \<Rightarrow> bool" where
  "is_url_char c \<longleftrightarrow> unat c < 128 \<and> bit (normal_url_char ! (unat c div 8)) (unat c mod 8)"

definition is_host_char :: "byte \<Rightarrow> bool" where
  "is_host_char c \<longleftrightarrow> is_alphanum c \<or> c = c_dot \<or> c = c_minus"

definition is_header_char :: "byte \<Rightarrow> bool" where
  "is_header_char c \<longleftrightarrow> c = c_cr \<or> c = c_lf \<or> c = c_ht \<or> 31 < c \<and> c \<noteq> 127"

subsection \<open>What the tables contain\<close>

text \<open>A token is a printable character that is no separator; letters come out in lower case.\<close>

definition token_entry :: "nat \<Rightarrow> nat" where
  "token_entry n =
     (if 65 \<le> n \<and> n \<le> 90 then n + 32
      else if 32 \<le> n \<and> n \<le> 126 \<and> n \<notin> {34, 40, 41, 44, 47, 58, 59, 60, 61, 62, 63, 64, 91, 92, 93, 123, 125} then n
      else 0)"

definition unhex_entry :: "nat \<Rightarrow> int" where
  "unhex_entry n =
     (if 48 \<le> n \<and> n \<le> 57 then int n - 48
      else if 65 \<le> n \<and> n \<le> 70 then int n - 55
      else if 97 \<le> n \<and> n \<le> 102 then int n - 87 else - 1)"

lemma tokens_list: "tokens = map token_entry [0..<128]"
  by code_simp

lemma unhex_list: "unhex = map unhex_entry [0..<128]"
  by code_simp

lemma url_list: "map (\<lambda>n. bit (normal_url_char ! (n div 8)) (n mod 8)) [0..<128] =
    map (\<lambda>n. 33 \<le> n \<and> n \<le> 126 \<and> n \<noteq> 35 \<and> n \<noteq> 63) [0..<128]"
  by code_simp

lemma nth_tokens: "n < 128 \<Longrightarrow> tokens ! n = token_entry n"
  by (simp add: tokens_list)

lemma nth_unhex: "n < 128 \<Longrightarrow> unhex ! n = unhex_entry n"
  by (simp add: unhex_list)

lemma nth_url: "n < 128 \<Longrightarrow> bit (normal_url_char ! (n div 8)) (n mod 8) \<longleftrightarrow>
    33 \<le> n \<and> n \<le> 126 \<and> n \<noteq> 35 \<and> n \<noteq> 63"
  using url_list by (simp add: map_eq_conv)

lemma is_url_char_iff: "is_url_char c \<longleftrightarrow> 33 \<le> unat c \<and> unat c \<le> 126 \<and> unat c \<noteq> 35 \<and> unat c \<noteq> 63"
  unfolding is_url_char_def by (cases "unat c < 128") (simp_all only: nth_url, auto)

lemma token_separators [simp]:
  "token c_colon = 0" "token c_cr = 0" "token c_lf = 0" "token c_sp = 0" "token 0 = 0"
  by (simp_all add: token_def nth_tokens token_entry_def)

end
