(* ===== verification/Http_Url.thy ===== *)
theory Http_Url
  imports Http_Tables
begin

text \<open>
  The URL parser of \<^verbatim>\<open>http_parser.c\<close>: the transition function \<^verbatim>\<open>parse_url_char\<close>, which the
  request parser shares, the host parser, and \<^verbatim>\<open>http_parser_parse_url\<close>, which gives the
  offset and length of each part of a URL.

  The result \<open>s_dead\<close> of \<^verbatim>\<open>parse_url_char\<close> is \<open>None\<close>. Offsets and lengths are kept at the
  16 bits of \<^verbatim>\<open>uint16_t\<close>, so that they wrap around in a URL of more than 65535 bytes; the
  bits of \<^verbatim>\<open>field_set\<close> are a set.
\<close>

subsection \<open>One character of a URL\<close>

text \<open>The three states of the server part and the two of the query part share their cases.\<close>

definition parse_server_char :: "byte \<Rightarrow> url_state option" where
  "parse_server_char c =
     (if c = c_slash then Some s_req_path
      else if c = c_query then Some s_req_query_string_start
      else if c = c_at then Some s_req_server_with_at
      else if is_userinfo_char c \<or> c = c_lbrack \<or> c = c_rbrack then Some s_req_server
      else None)"

definition parse_query_char :: "byte \<Rightarrow> url_state option" where
  "parse_query_char c =
     (if is_url_char c then Some s_req_query_string
      else if c = c_query then Some s_req_query_string
      else if c = c_hash then Some s_req_fragment_start
      else None)"

definition parse_url_char :: "url_state \<Rightarrow> byte \<Rightarrow> url_state option" where
  "parse_url_char s c =
     (if c \<in> {c_sp, c_cr, c_lf} then None
      else if c \<in> {c_ht, c_ff} then None
      else case s of
        s_req_spaces_before_url \<Rightarrow>
          if c = c_slash \<or> c = c_star then Some s_req_path
          else if is_alpha c then Some s_req_schema else None
      | s_req_schema \<Rightarrow>
          if is_alpha c then Some s else if c = c_colon then Some s_req_schema_slash else None
      | s_req_schema_slash \<Rightarrow> if c = c_slash then Some s_req_schema_slash_slash else None
      | s_req_schema_slash_slash \<Rightarrow> if c = c_slash then Some s_req_server_start else None
      | s_req_server_with_at \<Rightarrow> if c = c_at then None else parse_server_char c
      | s_req_server_start \<Rightarrow> parse_server_char c
      | s_req_server \<Rightarrow> parse_server_char c
      | s_req_path \<Rightarrow>
          if is_url_char c then Some s
          else if c = c_query then Some s_req_query_string_start
          else if c = c_hash then Some s_req_fragment_start else None
      | s_req_query_string_start \<Rightarrow> parse_query_char c
      | s_req_query_string \<Rightarrow> parse_query_char c
      | s_req_fragment_start \<Rightarrow>
          if is_url_char c then Some s_req_fragment
          else if c = c_query then Some s_req_fragment
          else if c = c_hash then Some s else None
      | s_req_fragment \<Rightarrow>
          if is_url_char c \<or> c = c_query \<or> c = c_hash then Some s else None)"

subsection \<open>The host part\<close>

definition http_parse_host_char :: "http_host_state \<Rightarrow> byte \<Rightarrow> http_host_state" where
  "http_parse_host_char s c =
     (let port_start = (if c = c_colon then s_http_host_port_start else s_http_host_dead);
          v6 = (if is_hex c \<or> c = c_colon \<or> c = c_dot then s_http_host_v6
                else if s = s_http_host_v6 \<and> c = c_percent then s_http_host_v6_zone_start
                else s_http_host_dead);
          zone = (if is_alphanum c \<or> c \<in> {c_percent, c_dot, c_minus, c_under, c_tilde}
                  then s_http_host_v6_zone else s_http_host_dead);
          user = (if c = c_at then s_http_host_start
                  else if is_userinfo_char c then s_http_userinfo else s_http_host_dead);
          port = (if is_num_char c then s_http_host_port else s_http_host_dead)
      in case s of
           s_http_userinfo \<Rightarrow> user
         | s_http_userinfo_start \<Rightarrow> user
         | s_http_host_start \<Rightarrow>
             if c = c_lbrack then s_http_host_v6_start
             else if is_host_char c then s_http_host else s_http_host_dead
         | s_http_host \<Rightarrow> if is_host_char c then s_http_host else port_start
         | s_http_host_v6_end \<Rightarrow> port_start
         | s_http_host_v6 \<Rightarrow> if c = c_rbrack then s_http_host_v6_end else v6
         | s_http_host_v6_start \<Rightarrow> v6
         | s_http_host_v6_zone \<Rightarrow> if c = c_rbrack then s_http_host_v6_end else zone
         | s_http_host_v6_zone_start \<Rightarrow> zone
         | s_http_host_port \<Rightarrow> port
         | s_http_host_port_start \<Rightarrow> port
         | s_http_host_dead \<Rightarrow> s_http_host_dead)"

datatype url_field = UF_SCHEMA | UF_HOST | UF_PORT | UF_PATH | UF_QUERY | UF_FRAGMENT | UF_USERINFO

record http_parser_url =
  ur_field_set :: "url_field set"
  ur_port :: u16
  ur_off :: "url_field \<Rightarrow> u16"
  ur_len :: "url_field \<Rightarrow> u16"

definition http_parser_url_init :: http_parser_url where
  "http_parser_url_init = \<lparr>ur_field_set = {}, ur_port = 0, ur_off = (\<lambda>_. 0), ur_len = (\<lambda>_. 0)\<rparr>"

definition url_longer :: "url_field \<Rightarrow> http_parser_url \<Rightarrow> http_parser_url" where
  "url_longer f u = u\<lparr>ur_len := (ur_len u)(f := ur_len u f + 1)\<rparr>"

definition url_begin :: "url_field \<Rightarrow> nat \<Rightarrow> http_parser_url \<Rightarrow> http_parser_url" where
  "url_begin f p u =
     u\<lparr>ur_off := (ur_off u)(f := of_nat p), ur_len := (ur_len u)(f := 0),
       ur_field_set := insert f (ur_field_set u)\<rparr>"

text \<open>What one character adds to the fields: the \<^verbatim>\<open>switch(new_s)\<close> of \<^verbatim>\<open>http_parse_host\<close>.\<close>

definition host_fields ::
  "http_host_state \<Rightarrow> http_host_state \<Rightarrow> nat \<Rightarrow> http_parser_url \<Rightarrow> http_parser_url" where
  "host_fields s new_s p u =
     (let host_at = (\<lambda>u. u\<lparr>ur_off := (ur_off u)(UF_HOST := of_nat p)\<rparr>)
      in case new_s of
           s_http_host \<Rightarrow> url_longer UF_HOST (if s \<noteq> s_http_host then host_at u else u)
         | s_http_host_v6 \<Rightarrow> url_longer UF_HOST (if s \<noteq> s_http_host_v6 then host_at u else u)
         | s_http_host_v6_zone_start \<Rightarrow> url_longer UF_HOST u
         | s_http_host_v6_zone \<Rightarrow> url_longer UF_HOST u
         | s_http_host_port \<Rightarrow>
             url_longer UF_PORT (if s \<noteq> s_http_host_port then url_begin UF_PORT p u else u)
         | s_http_userinfo \<Rightarrow>
             url_longer UF_USERINFO (if s \<noteq> s_http_userinfo then url_begin UF_USERINFO p u else u)
         | _ \<Rightarrow> u)"

text \<open>The states in which the host part may end.\<close>

definition host_complete :: "http_host_state \<Rightarrow> bool" where
  "host_complete s \<longleftrightarrow> s \<notin> {s_http_host_start, s_http_host_v6_start, s_http_host_v6,
     s_http_host_v6_zone_start, s_http_host_v6_zone, s_http_host_port_start, s_http_userinfo,
     s_http_userinfo_start}"

function host_loop ::
  "bytes \<Rightarrow> nat \<Rightarrow> nat \<Rightarrow> http_host_state \<Rightarrow> http_parser_url \<Rightarrow> (int \<times> http_parser_url) outcome" where
  "host_loop buf p buflen s u =
     (if buflen \<le> p then Inr (if host_complete s then 0 else 1, u)
      else obind (byte_at buf p) (\<lambda>c.
        let new_s = http_parse_host_char s c
        in if new_s = s_http_host_dead then Inr (1, u)
           else host_loop buf (Suc p) buflen new_s (host_fields s new_s p u)))"
  by pat_completeness auto
termination
  by (relation "measure (\<lambda>(buf, p, buflen, s, u). buflen - p)") auto

declare host_loop.simps [simp del]

definition http_parse_host :: "bytes \<Rightarrow> http_parser_url \<Rightarrow> bool \<Rightarrow> (int \<times> http_parser_url) outcome" where
  "http_parse_host buf u found_at =
     obind (oassert (UF_HOST \<in> ur_field_set u)) (\<lambda>_.
       host_loop buf (unat (ur_off u UF_HOST)) (unat (ur_off u UF_HOST) + unat (ur_len u UF_HOST))
         (if found_at then s_http_userinfo_start else s_http_host_start)
         (u\<lparr>ur_len := (ur_len u)(UF_HOST := 0)\<rparr>))"

subsection \<open>A whole URL\<close>

text \<open>The field that a state belongs to, \<open>None\<close> for the delimiters.\<close>

fun field_of_state :: "url_state \<Rightarrow> url_field option" where
  "field_of_state s_req_schema = Some UF_SCHEMA"
| "field_of_state s_req_server_with_at = Some UF_HOST"
| "field_of_state s_req_server = Some UF_HOST"
| "field_of_state s_req_path = Some UF_PATH"
| "field_of_state s_req_query_string = Some UF_QUERY"
| "field_of_state s_req_fragment = Some UF_FRAGMENT"
| "field_of_state s = None"

text \<open>
  The main loop. The result is the state of \<^verbatim>\<open>found_at\<close> and the fields, or \<open>None\<close> where the
  function returns 1; \<open>old_uf\<close> is \<open>None\<close> for \<^verbatim>\<open>UF_MAX\<close>.
\<close>

fun url_loop ::
  "nat \<Rightarrow> bytes \<Rightarrow> url_state \<Rightarrow> url_field option \<Rightarrow> bool \<Rightarrow> http_parser_url
   \<Rightarrow> (bool option \<times> http_parser_url) outcome" where
  "url_loop p [] s old_uf found_at u = Inr (Some found_at, u)"
| "url_loop p (c # cs) s old_uf found_at u =
     (case parse_url_char s c of
        None \<Rightarrow> Inr (None, u)
      | Some s_req_spaces_before_url \<Rightarrow> Inl Assert_failed
      | Some s' \<Rightarrow>
          let found' = (found_at \<or> s' = s_req_server_with_at)
          in case field_of_state s' of
               None \<Rightarrow> url_loop (Suc p) cs s' old_uf found' u
             | Some uf \<Rightarrow>
                 if old_uf = Some uf then url_loop (Suc p) cs s' old_uf found' (url_longer uf u)
                 else url_loop (Suc p) cs s' (Some uf) found' (url_longer uf (url_begin uf p u)))"

text \<open>The number in the port field: \<open>None\<close> where it is above 65535.\<close>

fun port_loop :: "bytes \<Rightarrow> u64 \<Rightarrow> u64 option" where
  "port_loop [] v = Some v"
| "port_loop (c # cs) v =
     (let v' = v * 10 + word_of_int (sint c - 48)
      in if 0xFFFF < v' then None else port_loop cs v')"

text \<open>The last part of the function: the value of the port field, where there is one.\<close>

definition parse_url_port :: "bytes \<Rightarrow> http_parser_url \<Rightarrow> (int \<times> http_parser_url) outcome" where
  "parse_url_port buf u =
     (if UF_PORT \<in> ur_field_set u
      then let off = unat (ur_off u UF_PORT); len = unat (ur_len u UF_PORT)
           in obind (oassert (off + len \<le> length buf)) (\<lambda>_.
              case port_loop (take len (drop off buf)) 0 of
                None \<Rightarrow> Inr (1, u)
              | Some v \<Rightarrow> Inr (0, u\<lparr>ur_port := ucast v\<rparr>))
      else Inr (0, u))"

definition http_parser_parse_url ::
  "bytes \<Rightarrow> bool \<Rightarrow> http_parser_url \<Rightarrow> (int \<times> http_parser_url) outcome" where
  "http_parser_parse_url buf is_connect u =
     (if buf = [] then Inr (1, u)
      else obind (url_loop 0 buf (if is_connect then s_req_server_start else s_req_spaces_before_url)
                    None False (u\<lparr>ur_port := 0, ur_field_set := {}\<rparr>)) (\<lambda>(found_at, u1).
        case found_at of None \<Rightarrow> Inr (1, u1)
        | Some fa \<Rightarrow>
          if UF_SCHEMA \<in> ur_field_set u1 \<and> UF_HOST \<notin> ur_field_set u1 then Inr (1, u1)
          else obind (if UF_HOST \<in> ur_field_set u1 then http_parse_host buf u1 fa else Inr (0, u1)) (\<lambda>(r, u2).
            if r \<noteq> 0 then Inr (1, u2)
            else if is_connect \<and> ur_field_set u2 \<noteq> {UF_HOST, UF_PORT} then Inr (1, u2)
            else parse_url_port buf u2)))"

end
