(* ===== verification/Http_Parser.thy ===== *)
theory Http_Parser
  imports Http_Url
begin

text \<open>
  The request and response parser of \<^verbatim>\<open>third/http_parse/http_parser.c\<close>: \<^verbatim>\<open>http_parser_execute\<close>
  with one definition for each \<^verbatim>\<open>case\<close> (or group of cases) of its switch.

  \<open>http_parser\<close> is the structure that lives between calls, \<open>exec\<close> adds the local variables of
  one call. What a case does next is a \<open>flow\<close>: \<open>Break\<close> goes on with the next byte,
  \<open>Reexecute\<close> handles the same byte again, \<open>Goto_error\<close> jumps to the label \<^verbatim>\<open>error\<close> and
  \<open>Return\<close> leaves the function. The macros with a hidden \<^verbatim>\<open>return\<close> take what follows them
  as their last argument.

  Callbacks get the parser and change only the state \<^verbatim>\<open>'u\<close> of their owner, as those of this
  program do; they are those of \<open>http_parser_settings\<close>, where the five that get bytes are
  indexed by the mark they belong to. The bits of \<^verbatim>\<open>flags\<close> are a set; \<^verbatim>\<open>index\<close> has five bits.
\<close>

subsection \<open>The parser and its callbacks\<close>

record http_parser =
  pr_type :: http_parser_type
  pr_flags :: "http_flag set"
  pr_state :: http_state
  pr_header_state :: header_state
  pr_index :: nat
  pr_uses_transfer_encoding :: bool
  pr_allow_chunked_length :: bool
  pr_lenient_http_headers :: bool
  pr_nread :: u32
  pr_content_length :: u64
  pr_http_major :: nat
  pr_http_minor :: nat
  pr_status_code :: nat
  pr_method :: http_method
  pr_http_errno :: http_errno
  pr_upgrade :: bool

datatype mark = M_header_field | M_header_value | M_url | M_body | M_status

type_synonym 'u notify_cb = "http_parser \<Rightarrow> 'u \<Rightarrow> int \<times> 'u"
type_synonym 'u data_cb = "http_parser \<Rightarrow> bytes \<Rightarrow> 'u \<Rightarrow> int \<times> 'u"

record 'u http_parser_settings =
  on_message_begin :: "'u notify_cb option"
  on_data :: "mark \<Rightarrow> 'u data_cb option"
  on_headers_complete :: "'u notify_cb option"
  on_message_complete :: "'u notify_cb option"
  on_chunk_header :: "'u notify_cb option"
  on_chunk_complete :: "'u notify_cb option"

definition http_parser_settings_init :: "'u http_parser_settings" where
  "http_parser_settings_init = \<lparr>on_message_begin = None, on_data = (\<lambda>_. None), on_headers_complete = None,
     on_message_complete = None, on_chunk_header = None, on_chunk_complete = None\<rparr>"

definition HTTP_MAX_HEADER_SIZE :: nat where
  "HTTP_MAX_HEADER_SIZE = 80 * 1024"

definition ULLONG_MAX :: u64 where
  "ULLONG_MAX = 0xFFFFFFFFFFFFFFFF"

text \<open>\<^verbatim>\<open>http_parser_init\<close>: the structure is cleared, which leaves the first method.\<close>

definition http_parser_init :: "http_parser_type \<Rightarrow> http_parser" where
  "http_parser_init t =
     \<lparr>pr_type = t, pr_flags = {},
      pr_state = (if t = HTTP_REQUEST then s_start_req
                  else if t = HTTP_RESPONSE then s_start_res else s_start_req_or_res),
      pr_header_state = h_general, pr_index = 0, pr_uses_transfer_encoding = False,
      pr_allow_chunked_length = False, pr_lenient_http_headers = False, pr_nread = 0,
      pr_content_length = 0, pr_http_major = 0, pr_http_minor = 0, pr_status_code = 0,
      pr_method = HTTP_DELETE, pr_http_errno = HPE_OK, pr_upgrade = False\<rparr>"

definition http_message_needs_eof :: "http_parser \<Rightarrow> bool" where
  "http_message_needs_eof pr =
     (if pr_type pr = HTTP_REQUEST then False
      else if pr_status_code pr div 100 = 1 \<or> pr_status_code pr = 204 \<or> pr_status_code pr = 304
              \<or> F_SKIPBODY \<in> pr_flags pr then False
      else if pr_uses_transfer_encoding pr \<and> F_CHUNKED \<notin> pr_flags pr then True
      else if F_CHUNKED \<in> pr_flags pr \<or> pr_content_length pr \<noteq> ULLONG_MAX then False
      else True)"

definition http_should_keep_alive :: "http_parser \<Rightarrow> bool" where
  "http_should_keep_alive pr =
     (if 0 < pr_http_major pr \<and> 0 < pr_http_minor pr
      then F_CONNECTION_CLOSE \<notin> pr_flags pr \<and> \<not> http_message_needs_eof pr
      else F_CONNECTION_KEEP_ALIVE \<in> pr_flags pr \<and> \<not> http_message_needs_eof pr)"

definition http_body_is_final :: "http_parser \<Rightarrow> bool" where
  "http_body_is_final pr \<longleftrightarrow> pr_state pr = s_message_done"

definition start_state :: "http_parser \<Rightarrow> http_state" where
  "start_state pr = (if pr_type pr = HTTP_REQUEST then s_start_req else s_start_res)"

definition new_message :: "http_parser \<Rightarrow> http_state" where
  "new_message pr = (if http_should_keep_alive pr then start_state pr else s_dead)"

text \<open>\<^verbatim>\<open>http_parser_pause\<close>; pausing a parser with an error fails an assertion.\<close>

definition http_parser_pause :: "bool \<Rightarrow> http_parser \<Rightarrow> http_parser outcome" where
  "http_parser_pause paused pr =
     obind (oassert (pr_http_errno pr \<in> {HPE_OK, HPE_PAUSED})) (\<lambda>_.
       Inr (pr\<lparr>pr_http_errno := (if paused then HPE_PAUSED else HPE_OK)\<rparr>))"

definition http_method_str :: "http_method \<Rightarrow> string" where
  "http_method_str m = method_strings m"

subsection \<open>One call: local variables and macros\<close>

record 'u exec =
  x_parser :: http_parser
  x_user :: 'u
  x_state :: http_state
  x_nread :: u32
  x_p :: nat
  x_ch :: byte
  x_marks :: "mark \<Rightarrow> nat option"

datatype 'x flow = Break 'x | Reexecute 'x | Goto_error 'x | Return nat 'x

type_synonym 'u case_result = "'u exec flow outcome"

definition goto_state :: "http_state \<Rightarrow> 'u exec \<Rightarrow> 'u exec" where
  "goto_state s x = x\<lparr>x_state := s\<rparr>"

definition with_parser :: "(http_parser \<Rightarrow> http_parser) \<Rightarrow> 'u exec \<Rightarrow> 'u exec" where
  "with_parser f x = x\<lparr>x_parser := f (x_parser x)\<rparr>"

definition set_errno :: "http_errno \<Rightarrow> 'u exec \<Rightarrow> 'u exec" where
  "set_errno e x = with_parser (\<lambda>pr. pr\<lparr>pr_nread := x_nread x, pr_http_errno := e\<rparr>) x"

text \<open>\<^verbatim>\<open>SET_ERRNO(e); goto error\<close>, \<^verbatim>\<open>RETURN(V)\<close>, \<^verbatim>\<open>STRICT_CHECK(cond)\<close> and \<^verbatim>\<open>COUNT_HEADER_SIZE(V)\<close>.\<close>

definition fail :: "http_errno \<Rightarrow> 'u exec \<Rightarrow> 'u case_result" where
  "fail e x = Inr (Goto_error (set_errno e x))"

definition store_return :: "nat \<Rightarrow> 'u exec \<Rightarrow> 'u case_result" where
  "store_return v x = Inr (Return v (with_parser (\<lambda>pr. pr\<lparr>pr_nread := x_nread x, pr_state := x_state x\<rparr>) x))"

definition strict_check :: "bool \<Rightarrow> 'u exec \<Rightarrow> 'u case_result \<Rightarrow> 'u case_result" where
  "strict_check cond x k = (if cond then fail HPE_STRICT x else k)"

definition count_header_size :: "nat \<Rightarrow> 'u exec \<Rightarrow> ('u exec \<Rightarrow> 'u case_result) \<Rightarrow> 'u case_result" where
  "count_header_size v x k =
     (let x1 = x\<lparr>x_nread := x_nread x + of_nat v\<rparr>
      in if of_nat HTTP_MAX_HEADER_SIZE < x_nread x1 then fail HPE_HEADER_OVERFLOW x1 else k x1)"

text \<open>\<^verbatim>\<open>CALLBACK_NOTIFY_(FOR, ER)\<close>: \<open>er\<close> is what the function returns if the callback fails.\<close>

definition callback_notify ::
  "'u notify_cb option \<Rightarrow> http_errno \<Rightarrow> nat \<Rightarrow> 'u exec \<Rightarrow> ('u exec \<Rightarrow> 'u case_result) \<Rightarrow> 'u case_result" where
  "callback_notify cb err er x k =
     obind (oassert (pr_http_errno (x_parser x) = HPE_OK)) (\<lambda>_.
       case cb of
         None \<Rightarrow> k x
       | Some f \<Rightarrow>
           let x1 = with_parser (\<lambda>pr. pr\<lparr>pr_state := x_state x\<rparr>) x;
               (r, u) = f (x_parser x1) (x_user x1);
               x2 = x1\<lparr>x_user := u\<rparr>
           in if r \<noteq> 0 then Inr (Return er (set_errno err x2)) else k x2)"

fun data_errno :: "mark \<Rightarrow> http_errno" where
  "data_errno M_header_field = HPE_CB_header_field"
| "data_errno M_header_value = HPE_CB_header_value"
| "data_errno M_url = HPE_CB_url"
| "data_errno M_body = HPE_CB_body"
| "data_errno M_status = HPE_CB_status"

text \<open>
  \<^verbatim>\<open>CALLBACK_DATA_(FOR, LEN, ER)\<close>, where the bytes go from the mark to the position \<open>stop\<close>.
\<close>

definition callback_data ::
  "'u http_parser_settings \<Rightarrow> bytes \<Rightarrow> mark \<Rightarrow> nat \<Rightarrow> nat \<Rightarrow> 'u exec \<Rightarrow> ('u exec \<Rightarrow> 'u case_result) \<Rightarrow> 'u case_result" where
  "callback_data S data m stop er x k =
     obind (oassert (pr_http_errno (x_parser x) = HPE_OK)) (\<lambda>_.
       case x_marks x m of
         None \<Rightarrow> k x
       | Some i \<Rightarrow>
           case on_data S m of
             None \<Rightarrow> k (x\<lparr>x_marks := (x_marks x)(m := None)\<rparr>)
           | Some f \<Rightarrow>
               let x1 = with_parser (\<lambda>pr. pr\<lparr>pr_state := x_state x\<rparr>) x;
                   (r, u) = f (x_parser x1) (take (stop - i) (drop i data)) (x_user x1);
                   x2 = x1\<lparr>x_user := u\<rparr>
               in if r \<noteq> 0 then Inr (Return er (set_errno (data_errno m) x2))
                  else k (x2\<lparr>x_marks := (x_marks x2)(m := None)\<rparr>))"

text \<open>\<^verbatim>\<open>CALLBACK_DATA(FOR)\<close>, \<^verbatim>\<open>CALLBACK_DATA_NOADVANCE(FOR)\<close> and \<^verbatim>\<open>MARK(FOR)\<close>.\<close>

definition data_advance ::
  "'u http_parser_settings \<Rightarrow> bytes \<Rightarrow> mark \<Rightarrow> 'u exec \<Rightarrow> ('u exec \<Rightarrow> 'u case_result) \<Rightarrow> 'u case_result" where
  "data_advance S data m x = callback_data S data m (x_p x) (Suc (x_p x)) x"

definition data_noadvance ::
  "'u http_parser_settings \<Rightarrow> bytes \<Rightarrow> mark \<Rightarrow> 'u exec \<Rightarrow> ('u exec \<Rightarrow> 'u case_result) \<Rightarrow> 'u case_result" where
  "data_noadvance S data m x = callback_data S data m (x_p x) (x_p x) x"

definition set_mark :: "mark \<Rightarrow> 'u exec \<Rightarrow> 'u exec" where
  "set_mark m x = (if x_marks x m = None then x\<lparr>x_marks := (x_marks x)(m := Some (x_p x))\<rparr> else x)"

definition next_byte :: "'u exec \<Rightarrow> 'u case_result" where
  "next_byte x = Inr (Break x)"

text \<open>Most cases compare one character and go to another state.\<close>

definition expect :: "byte \<Rightarrow> http_state \<Rightarrow> 'u exec \<Rightarrow> 'u case_result" where
  "expect c s x = strict_check (x_ch x \<noteq> c) x (next_byte (goto_state s x))"

definition set_index :: "nat \<Rightarrow> 'u exec \<Rightarrow> 'u exec" where
  "set_index i = with_parser (\<lambda>pr. pr\<lparr>pr_index := i\<rparr>)"

text \<open>Reading a string constant: the byte after the last is the terminating zero.\<close>

definition string_at :: "string \<Rightarrow> nat \<Rightarrow> byte outcome" where
  "string_at s i = (if i < length s then Inr (byte_of_char (s ! i)) else if i = length s then Inr 0
                    else Inl Out_of_bounds)"

definition reset_message :: "'u exec \<Rightarrow> 'u exec" where
  "reset_message = with_parser (\<lambda>pr. pr\<lparr>pr_flags := {}, pr_uses_transfer_encoding := False,
     pr_content_length := ULLONG_MAX\<rparr>)"

definition is_line_end :: "byte \<Rightarrow> bool" where
  "is_line_end c \<longleftrightarrow> c = c_cr \<or> c = c_lf"

subsection \<open>The first byte of a message\<close>

definition case_dead :: "'u exec \<Rightarrow> 'u case_result" where
  "case_dead x = (if is_line_end (x_ch x) then next_byte x else fail HPE_CLOSED_CONNECTION x)"

definition case_start_req_or_res :: "'u http_parser_settings \<Rightarrow> 'u exec \<Rightarrow> 'u case_result" where
  "case_start_req_or_res S x =
     (if is_line_end (x_ch x) then next_byte x
      else let x1 = reset_message x
           in if x_ch x = c_H
              then callback_notify (on_message_begin S) HPE_CB_message_begin (Suc (x_p x))
                     (goto_state s_res_or_resp_H x1) next_byte
              else if x_ch x = c_R
              then callback_notify (on_message_begin S) HPE_CB_message_begin (Suc (x_p x))
                     (goto_state s_res_or_resp_R x1) next_byte
              else Inr (Reexecute (goto_state s_start_req
                     (with_parser (\<lambda>pr. pr\<lparr>pr_type := HTTP_REQUEST\<rparr>) x1))))"

definition case_res_or_resp_H :: "'u exec \<Rightarrow> 'u case_result" where
  "case_res_or_resp_H x =
     (if x_ch x = c_T
      then next_byte (goto_state (Res s_res_HT) (with_parser (\<lambda>pr. pr\<lparr>pr_type := HTTP_RESPONSE\<rparr>) x))
      else if x_ch x \<noteq> c_E then fail HPE_INVALID_CONSTANT x
      else next_byte (goto_state s_req_method
             (with_parser (\<lambda>pr. pr\<lparr>pr_type := HTTP_REQUEST, pr_method := HTTP_HEAD, pr_index := 2\<rparr>) x)))"

definition case_res_or_resp_R :: "'u exec \<Rightarrow> 'u case_result" where
  "case_res_or_resp_R x =
     next_byte (if x_ch x = c_T
                then goto_state (Res s_res_RT) (with_parser (\<lambda>pr. pr\<lparr>pr_type := HTTP_RESPONSE\<rparr>) x)
                else x)"

definition case_start_res :: "'u http_parser_settings \<Rightarrow> 'u exec \<Rightarrow> 'u case_result" where
  "case_start_res S x =
     (if is_line_end (x_ch x) then next_byte x
      else let x1 = reset_message x;
               begin_at = (\<lambda>s. callback_notify (on_message_begin S) HPE_CB_message_begin (Suc (x_p x))
                                 (goto_state (Res s) x1) next_byte)
           in if x_ch x = c_H then begin_at s_res_H
              else if x_ch x = c_R then begin_at s_res_R
              else fail HPE_INVALID_CONSTANT x1)"

subsection \<open>A response line\<close>

definition digit_of :: "byte \<Rightarrow> nat" where
  "digit_of c = unat c - 48"

text \<open>A version digit, and the character that must follow it.\<close>

definition version_digit :: "(nat \<Rightarrow> http_parser \<Rightarrow> http_parser) \<Rightarrow> http_state \<Rightarrow> 'u exec \<Rightarrow> 'u case_result" where
  "version_digit f s x =
     (if \<not> is_num_char (x_ch x) then fail HPE_INVALID_VERSION x
      else next_byte (goto_state s (with_parser (f (digit_of (x_ch x))) x)))"

definition version_char :: "byte \<Rightarrow> http_state \<Rightarrow> 'u exec \<Rightarrow> 'u case_result" where
  "version_char c s x = (if x_ch x \<noteq> c then fail HPE_INVALID_VERSION x else next_byte (goto_state s x))"

definition set_major :: "nat \<Rightarrow> http_parser \<Rightarrow> http_parser" where
  "set_major n pr = pr\<lparr>pr_http_major := n\<rparr>"

definition set_minor :: "nat \<Rightarrow> http_parser \<Rightarrow> http_parser" where
  "set_minor n pr = pr\<lparr>pr_http_minor := n\<rparr>"

definition set_status :: "nat \<Rightarrow> http_parser \<Rightarrow> http_parser" where
  "set_status n pr = pr\<lparr>pr_status_code := n\<rparr>"

definition case_res :: "'u http_parser_settings \<Rightarrow> bytes \<Rightarrow> res_state \<Rightarrow> 'u exec \<Rightarrow> 'u case_result" where
  "case_res S data s x =
     (case s of
        s_res_H \<Rightarrow> expect c_T (Res s_res_HT) x
      | s_res_HT \<Rightarrow> expect c_T (Res s_res_HTT) x
      | s_res_HTT \<Rightarrow> expect c_P (Res s_res_HTTP) x
      | s_res_HTTP \<Rightarrow> expect c_slash (Res s_res_http_major) x
      | s_res_R \<Rightarrow> expect c_T (Res s_res_RT) x
      | s_res_RT \<Rightarrow> expect c_S (Res s_res_RTS) x
      | s_res_RTS \<Rightarrow> expect c_P (Res s_res_RTSP) x
      | s_res_RTSP \<Rightarrow> expect c_slash (Res s_res_http_major) x
      | s_res_http_major \<Rightarrow> version_digit set_major (Res s_res_http_dot) x
      | s_res_http_dot \<Rightarrow> version_char c_dot (Res s_res_http_minor) x
      | s_res_http_minor \<Rightarrow> version_digit set_minor (Res s_res_http_end) x
      | s_res_http_end \<Rightarrow> version_char c_sp (Res s_res_first_status_code) x
      | s_res_first_status_code \<Rightarrow>
          if \<not> is_num_char (x_ch x)
          then (if x_ch x = c_sp then next_byte x else fail HPE_INVALID_STATUS x)
          else next_byte (goto_state (Res s_res_status_code) (with_parser (set_status (digit_of (x_ch x))) x))
      | s_res_status_code \<Rightarrow>
          if \<not> is_num_char (x_ch x)
          then (if x_ch x = c_sp then next_byte (goto_state (Res s_res_status_start) x)
                else if is_line_end (x_ch x) then Inr (Reexecute (goto_state (Res s_res_status_start) x))
                else fail HPE_INVALID_STATUS x)
          else let n = pr_status_code (x_parser x) * 10 + digit_of (x_ch x);
                   x1 = with_parser (set_status n) x
               in if 999 < n then fail HPE_INVALID_STATUS x1 else next_byte x1
      | s_res_status_start \<Rightarrow>
          let x1 = set_index 0 (goto_state (Res s_res_status) (set_mark M_status x))
          in if is_line_end (x_ch x) then Inr (Reexecute x1) else next_byte x1
      | s_res_status \<Rightarrow>
          if x_ch x = c_cr then data_advance S data M_status (goto_state (Res s_res_line_almost_done) x) next_byte
          else if x_ch x = c_lf then data_advance S data M_status (goto_state s_header_field_start x) next_byte
          else next_byte x
      | s_res_line_almost_done \<Rightarrow> expect c_lf s_header_field_start x)"

subsection \<open>A request line\<close>

text \<open>The method that the first letter stands for, and the switch to another one.\<close>

definition method_of_letter :: "byte \<Rightarrow> http_method option" where
  "method_of_letter c =
     (if c = c_A then Some HTTP_ACL else if c = c_B then Some HTTP_BIND
      else if c = c_C then Some HTTP_CONNECT else if c = c_D then Some HTTP_DELETE
      else if c = c_G then Some HTTP_GET else if c = c_H then Some HTTP_HEAD
      else if c = c_L then Some HTTP_LOCK else if c = c_M then Some HTTP_MKCOL
      else if c = c_N then Some HTTP_NOTIFY else if c = c_O then Some HTTP_OPTIONS
      else if c = c_P then Some HTTP_POST else if c = c_R then Some HTTP_REPORT
      else if c = c_S then Some HTTP_SUBSCRIBE else if c = c_T then Some HTTP_TRACE
      else if c = c_U then Some HTTP_UNLOCK else None)"

definition method_switch :: "http_method \<Rightarrow> nat \<Rightarrow> byte \<Rightarrow> http_method option" where
  "method_switch m i c =
     (case m of
        HTTP_POST \<Rightarrow>
          if i = 1 \<and> c = c_U then Some HTTP_PUT else if i = 1 \<and> c = c_A then Some HTTP_PATCH
          else if i = 1 \<and> c = c_L then Some HTTP_PLAY else if i = 1 \<and> c = c_R then Some HTTP_PROPFIND
          else None
      | HTTP_PUT \<Rightarrow> if i = 2 \<and> c = c_R then Some HTTP_PURGE else None
      | HTTP_DELETE \<Rightarrow> if i = 2 \<and> c = c_S then Some HTTP_DESCRIBE else None
      | HTTP_CONNECT \<Rightarrow>
          if i = 1 \<and> c = c_H then Some HTTP_CHECKOUT else if i = 2 \<and> c = c_P then Some HTTP_COPY else None
      | HTTP_MKCOL \<Rightarrow>
          if i = 1 \<and> c = c_O then Some HTTP_MOVE else if i = 1 \<and> c = c_E then Some HTTP_MERGE
          else if i = 1 \<and> c = c_minus then Some HTTP_MSEARCH
          else if i = 2 \<and> c = c_A then Some HTTP_MKACTIVITY
          else if i = 3 \<and> c = c_A then Some HTTP_MKCALENDAR else None
      | HTTP_SUBSCRIBE \<Rightarrow>
          if i = 1 \<and> c = c_E then Some HTTP_SEARCH else if i = 1 \<and> c = c_O then Some HTTP_SOURCE else None
      | HTTP_SEARCH \<Rightarrow> if i = 2 \<and> c = c_T then Some HTTP_SETUP else None
      | HTTP_REPORT \<Rightarrow> if i = 2 \<and> c = c_B then Some HTTP_REBIND else None
      | HTTP_PROPFIND \<Rightarrow> if i = 4 \<and> c = c_P then Some HTTP_PROPPATCH else None
      | HTTP_TRACE \<Rightarrow> if i = 1 \<and> c = c_E then Some HTTP_TEARDOWN else None
      | HTTP_LOCK \<Rightarrow> if i = 1 \<and> c = c_I then Some HTTP_LINK else None
      | HTTP_UNLOCK \<Rightarrow>
          if i = 2 \<and> c = c_S then Some HTTP_UNSUBSCRIBE else if i = 2 \<and> c = c_B then Some HTTP_UNBIND
          else if i = 3 \<and> c = c_I then Some HTTP_UNLINK else None
      | _ \<Rightarrow> None)"

definition case_start_req :: "'u http_parser_settings \<Rightarrow> 'u exec \<Rightarrow> 'u case_result" where
  "case_start_req S x =
     (if is_line_end (x_ch x) then next_byte x
      else let x1 = reset_message x
           in if \<not> is_alpha (x_ch x) then fail HPE_INVALID_METHOD x1
              else let x2 = with_parser (\<lambda>pr. pr\<lparr>pr_method := HTTP_DELETE, pr_index := 1\<rparr>) x1
                   in case method_of_letter (x_ch x) of
                        None \<Rightarrow> fail HPE_INVALID_METHOD x2
                      | Some m \<Rightarrow>
                          callback_notify (on_message_begin S) HPE_CB_message_begin (Suc (x_p x))
                            (goto_state s_req_method (with_parser (\<lambda>pr. pr\<lparr>pr_method := m\<rparr>) x2)) next_byte)"

definition case_req_method :: "'u exec \<Rightarrow> 'u case_result" where
  "case_req_method x =
     (if x_ch x = 0 then fail HPE_INVALID_METHOD x
      else let m = pr_method (x_parser x); i = pr_index (x_parser x);
               advance = (\<lambda>x. next_byte (set_index ((i + 1) mod 32) x))
           in obind (string_at (method_strings m) i) (\<lambda>c.
              if x_ch x = c_sp \<and> c = 0 then advance (goto_state (Url s_req_spaces_before_url) x)
              else if x_ch x = c then advance x
              else if c_A \<le> x_ch x \<and> x_ch x \<le> c_Z \<or> x_ch x = c_minus
              then (case method_switch m i (x_ch x) of
                      None \<Rightarrow> fail HPE_INVALID_METHOD x
                    | Some m' \<Rightarrow> advance (with_parser (\<lambda>pr. pr\<lparr>pr_method := m'\<rparr>) x))
              else fail HPE_INVALID_METHOD x))"

text \<open>One more character of the URL.\<close>

definition url_step :: "url_state \<Rightarrow> 'u exec \<Rightarrow> 'u case_result" where
  "url_step s x =
     (case parse_url_char s (x_ch x) of
        None \<Rightarrow> fail HPE_INVALID_URL (goto_state s_dead x)
      | Some s' \<Rightarrow> next_byte (goto_state (Url s') x))"

definition case_url :: "'u http_parser_settings \<Rightarrow> bytes \<Rightarrow> url_state \<Rightarrow> 'u exec \<Rightarrow> 'u case_result" where
  "case_url S data s x =
     (if s = s_req_spaces_before_url
      then (if x_ch x = c_sp then next_byte x
            else url_step (if pr_method (x_parser x) = HTTP_CONNECT then s_req_server_start else s)
                   (set_mark M_url x))
      else if s \<in> {s_req_schema, s_req_schema_slash, s_req_schema_slash_slash, s_req_server_start}
      then (if x_ch x = c_sp \<or> is_line_end (x_ch x) then fail HPE_INVALID_URL x else url_step s x)
      else if x_ch x = c_sp then data_advance S data M_url (goto_state (Req s_req_http_start) x) next_byte
      else if is_line_end (x_ch x)
      then data_advance S data M_url
             (goto_state (if x_ch x = c_cr then Req s_req_line_almost_done else s_header_field_start)
               (with_parser (set_minor 9 \<circ> set_major 0) x)) next_byte
      else url_step s x)"

definition case_req :: "req_state \<Rightarrow> 'u exec \<Rightarrow> 'u case_result" where
  "case_req s x =
     (case s of
        s_req_http_start \<Rightarrow>
          if x_ch x = c_sp then next_byte x
          else if x_ch x = c_H then next_byte (goto_state (Req s_req_http_H) x)
          else if x_ch x = c_R then next_byte (goto_state (Req s_req_http_R) x)
          else if x_ch x = c_I \<and> pr_method (x_parser x) = HTTP_SOURCE
          then next_byte (goto_state (Req s_req_http_I) x)
          else fail HPE_INVALID_CONSTANT x
      | s_req_http_H \<Rightarrow> expect c_T (Req s_req_http_HT) x
      | s_req_http_HT \<Rightarrow> expect c_T (Req s_req_http_HTT) x
      | s_req_http_HTT \<Rightarrow> expect c_P (Req s_req_http_HTTP) x
      | s_req_http_R \<Rightarrow> expect c_T (Req s_req_http_RT) x
      | s_req_http_RT \<Rightarrow> expect c_S (Req s_req_http_RTS) x
      | s_req_http_RTS \<Rightarrow> expect c_P (Req s_req_http_RTSP) x
      | s_req_http_I \<Rightarrow> expect c_C (Req s_req_http_IC) x
      | s_req_http_IC \<Rightarrow> expect c_E (Req s_req_http_HTTP) x
      | s_req_http_HTTP \<Rightarrow> expect c_slash (Req s_req_http_major) x
      | s_req_http_RTSP \<Rightarrow> expect c_slash (Req s_req_http_major) x
      | s_req_http_major \<Rightarrow> version_digit set_major (Req s_req_http_dot) x
      | s_req_http_dot \<Rightarrow> version_char c_dot (Req s_req_http_minor) x
      | s_req_http_minor \<Rightarrow> version_digit set_minor (Req s_req_http_end) x
      | s_req_http_end \<Rightarrow>
          if x_ch x = c_cr then next_byte (goto_state (Req s_req_line_almost_done) x)
          else if x_ch x = c_lf then next_byte (goto_state s_header_field_start x)
          else fail HPE_INVALID_VERSION x
      | s_req_line_almost_done \<Rightarrow>
          if x_ch x \<noteq> c_lf then fail HPE_LF_EXPECTED x
          else next_byte (goto_state s_header_field_start x))"

subsection \<open>Header names\<close>

definition set_header_state :: "header_state \<Rightarrow> http_parser \<Rightarrow> http_parser" where
  "set_header_state h pr = pr\<lparr>pr_header_state := h\<rparr>"

definition case_header_field_start :: "'u exec \<Rightarrow> 'u case_result" where
  "case_header_field_start x =
     (if x_ch x = c_cr then next_byte (goto_state s_headers_almost_done x)
      else if x_ch x = c_lf then Inr (Reexecute (goto_state s_headers_almost_done x))
      else let c = token (x_ch x)
           in if c = 0 then fail HPE_INVALID_HEADER_TOKEN x
              else next_byte (with_parser (set_header_state
                     (if c = c_c then h_C
                      else if c = c_p then h_matching_proxy_connection
                      else if c = c_t then h_matching_transfer_encoding
                      else if c = c_u then h_matching_upgrade
                      else h_general))
                     (goto_state s_header_field (set_index 0 (set_mark M_header_field x)))))"

text \<open>One more character of a name that may become \<open>name\<close>, for which the state \<open>done\<close> stands.\<close>

definition match_name :: "string \<Rightarrow> header_state \<Rightarrow> byte \<Rightarrow> http_parser \<Rightarrow> http_parser outcome" where
  "match_name name done c pr =
     (let i = (pr_index pr + 1) mod 32; pr1 = pr\<lparr>pr_index := i\<rparr>
      in if length name < i then Inr (set_header_state h_general pr1)
         else obind (string_at name i) (\<lambda>n.
           Inr (if c \<noteq> n then set_header_state h_general pr1
                else if i = length name - 1 then set_header_state done pr1
                else pr1)))"

definition field_char :: "byte \<Rightarrow> http_parser \<Rightarrow> http_parser outcome" where
  "field_char ch pr =
     (let c = token ch; pr1 = pr\<lparr>pr_index := (pr_index pr + 1) mod 32\<rparr>
      in case pr_header_state pr of
           h_general \<Rightarrow> Inr pr
         | h_C \<Rightarrow> Inr (set_header_state (if c = c_o then h_CO else h_general) pr1)
         | h_CO \<Rightarrow> Inr (set_header_state (if c = c_n then h_CON else h_general) pr1)
         | h_CON \<Rightarrow> Inr (set_header_state
               (if c = c_n then h_matching_connection
                else if c = c_t then h_matching_content_length else h_general) pr1)
         | h_matching_connection \<Rightarrow> match_name ''connection'' h_connection c pr
         | h_matching_proxy_connection \<Rightarrow> match_name ''proxy-connection'' h_connection c pr
         | h_matching_content_length \<Rightarrow> match_name ''content-length'' h_content_length c pr
         | h_matching_transfer_encoding \<Rightarrow>
             obind (match_name ''transfer-encoding'' h_transfer_encoding c pr) (\<lambda>pr2.
               Inr (if pr_header_state pr2 = h_transfer_encoding
                    then pr2\<lparr>pr_uses_transfer_encoding := True\<rparr> else pr2))
         | h_matching_upgrade \<Rightarrow> match_name ''upgrade'' h_upgrade c pr
         | h_connection \<Rightarrow> Inr (if ch \<noteq> c_sp then set_header_state h_general pr else pr)
         | h_content_length \<Rightarrow> Inr (if ch \<noteq> c_sp then set_header_state h_general pr else pr)
         | h_transfer_encoding \<Rightarrow> Inr (if ch \<noteq> c_sp then set_header_state h_general pr else pr)
         | h_upgrade \<Rightarrow> Inr (if ch \<noteq> c_sp then set_header_state h_general pr else pr)
         | _ \<Rightarrow> Inl Assert_failed)"

text \<open>The inner loop of \<open>h_general\<close>: the position of the last token character in a row.\<close>

definition skip_tokens :: "bytes \<Rightarrow> nat \<Rightarrow> nat" where
  "skip_tokens data p =
     p + length (takeWhile (\<lambda>c. token c \<noteq> 0)
           (take (min (length data - p) HTTP_MAX_HEADER_SIZE - 1) (drop (Suc p) data)))"

lemma skip_tokens_ge: "p \<le> skip_tokens data p"
  by (simp add: skip_tokens_def)

text \<open>The loop over the characters of a name: it stops at the end of the input or before a separator.\<close>

function header_field_loop :: "bytes \<Rightarrow> nat \<Rightarrow> http_parser \<Rightarrow> (nat \<times> http_parser) outcome" where
  "header_field_loop data p pr =
     (if length data \<le> p then Inr (p, pr)
      else if token (data ! p) = 0 then Inr (p, pr)
      else if pr_header_state pr = h_general then header_field_loop data (Suc (skip_tokens data p)) pr
      else obind (field_char (data ! p) pr) (header_field_loop data (Suc p)))"
  by pat_completeness auto
termination
proof (relation "measure (\<lambda>(data, p, pr). length data - p)", goal_cases)
  case (2 data p pr)
  then show ?case using skip_tokens_ge [of p data] by simp
qed auto

declare header_field_loop.simps [simp del]

definition case_header_field :: "'u http_parser_settings \<Rightarrow> bytes \<Rightarrow> 'u exec \<Rightarrow> 'u case_result" where
  "case_header_field S data x =
     obind (header_field_loop data (x_p x) (x_parser x)) (\<lambda>(p, pr).
       if length data \<le> p
       then count_header_size (length data - 1 - x_p x)
              (x\<lparr>x_parser := pr, x_p := length data - 1, x_ch := last data\<rparr>) next_byte
       else count_header_size (p - x_p x) (x\<lparr>x_parser := pr, x_p := p, x_ch := data ! p\<rparr>) (\<lambda>x1.
         if x_ch x1 = c_colon
         then data_advance S data M_header_field (goto_state s_header_value_discard_ws x1) next_byte
         else fail HPE_INVALID_HEADER_TOKEN x1))"

subsection \<open>Header values\<close>

definition add_flag :: "http_flag \<Rightarrow> http_parser \<Rightarrow> http_parser" where
  "add_flag f pr = pr\<lparr>pr_flags := insert f (pr_flags pr)\<rparr>"

definition case_header_value_start :: "'u exec \<Rightarrow> 'u case_result" where
  "case_header_value_start x =
     (let x1 = set_index 0 (goto_state s_header_value (set_mark M_header_value x));
          pr = x_parser x1; c = lower (x_ch x);
          go = (\<lambda>f. next_byte (with_parser f x1))
      in case pr_header_state pr of
           h_upgrade \<Rightarrow> go (set_header_state h_general \<circ> add_flag F_UPGRADE)
         | h_transfer_encoding \<Rightarrow>
             go (set_header_state (if c = c_c then h_matching_transfer_encoding_chunked
                                   else h_matching_transfer_encoding_token))
         | h_matching_transfer_encoding_token_start \<Rightarrow> next_byte x1
         | h_content_length \<Rightarrow>
             if \<not> is_num_char (x_ch x) then fail HPE_INVALID_CONTENT_LENGTH x1
             else if F_CONTENTLENGTH \<in> pr_flags pr then fail HPE_UNEXPECTED_CONTENT_LENGTH x1
             else go (\<lambda>pr. set_header_state h_content_length_num
                    (add_flag F_CONTENTLENGTH (pr\<lparr>pr_content_length := of_nat (digit_of (x_ch x))\<rparr>)))
         | h_content_length_ws \<Rightarrow> next_byte x1
         | h_connection \<Rightarrow>
             go (set_header_state (if c = c_k then h_matching_connection_keep_alive
                                   else if c = c_c then h_matching_connection_close
                                   else if c = c_u then h_matching_connection_upgrade
                                   else h_matching_connection_token))
         | h_matching_connection_token_start \<Rightarrow> next_byte x1
         | _ \<Rightarrow> go (set_header_state h_general))"

definition case_header_value_discard_ws :: "'u exec \<Rightarrow> 'u case_result" where
  "case_header_value_discard_ws x =
     (if x_ch x = c_sp \<or> x_ch x = c_ht then next_byte x
      else if x_ch x = c_cr then next_byte (goto_state s_header_value_discard_ws_almost_done x)
      else if x_ch x = c_lf then next_byte (goto_state s_header_value_discard_lws x)
      else case_header_value_start x)"

text \<open>
  One character of a value. The local \<^verbatim>\<open>h_state\<close> is the second component of the result; the
  first is an error, before which the source stores \<^verbatim>\<open>h_state\<close>.
\<close>

type_synonym value_step = "(http_errno option \<times> header_state \<times> http_parser) outcome"

definition value_matches ::
  "string \<Rightarrow> header_state \<Rightarrow> header_state \<Rightarrow> header_state \<Rightarrow> byte \<Rightarrow> http_parser \<Rightarrow> value_step" where
  "value_matches name h done other c pr =
     (let i = (pr_index pr + 1) mod 32; pr1 = pr\<lparr>pr_index := i\<rparr>
      in if length name < i then Inr (None, other, pr1)
         else obind (string_at name i) (\<lambda>n.
           Inr (None, if c \<noteq> n then other else if i = length name - 1 then done else h, pr1)))"

definition content_length_digit :: "byte \<Rightarrow> http_parser \<Rightarrow> value_step" where
  "content_length_digit ch pr =
     (let h = h_content_length_num; n = pr_content_length pr
      in if ch = c_sp then Inr (None, h_content_length_ws, pr)
         else if \<not> is_num_char ch then Inr (Some HPE_INVALID_CONTENT_LENGTH, h, pr)
         else if (ULLONG_MAX - 10) div 10 < n then Inr (Some HPE_INVALID_CONTENT_LENGTH, h, pr)
         else Inr (None, h, pr\<lparr>pr_content_length := n * 10 + of_nat (digit_of ch)\<rparr>))"

text \<open>After a value that a comma may end: its flag is set there.\<close>

definition connection_done :: "http_flag \<Rightarrow> header_state \<Rightarrow> byte \<Rightarrow> http_parser \<Rightarrow> value_step" where
  "connection_done f h ch pr =
     (if ch = c_comma
      then Inr (None, h_matching_connection_token_start, (add_flag f pr)\<lparr>pr_index := 0\<rparr>)
      else Inr (None, if ch \<noteq> c_sp then h_matching_connection_token else h, pr))"

definition value_char :: "byte \<Rightarrow> header_state \<Rightarrow> http_parser \<Rightarrow> value_step" where
  "value_char ch h pr =
     (let c = lower ch
      in case h of
        h_connection \<Rightarrow> Inl Assert_failed
      | h_transfer_encoding \<Rightarrow> Inl Assert_failed
      | h_content_length \<Rightarrow> if ch = c_sp then Inr (None, h, pr) else content_length_digit ch pr
      | h_content_length_num \<Rightarrow> content_length_digit ch pr
      | h_content_length_ws \<Rightarrow>
          if ch = c_sp then Inr (None, h, pr) else Inr (Some HPE_INVALID_CONTENT_LENGTH, h, pr)
      | h_matching_transfer_encoding_token_start \<Rightarrow>
          Inr (None, if c = c_c then h_matching_transfer_encoding_chunked
                     else if token c \<noteq> 0 then h_matching_transfer_encoding_token
                     else if c = c_sp \<or> c = c_ht then h else h_general, pr)
      | h_matching_transfer_encoding_chunked \<Rightarrow>
          value_matches ''chunked'' h h_transfer_encoding_chunked h_matching_transfer_encoding_token c pr
      | h_matching_transfer_encoding_token \<Rightarrow>
          if ch = c_comma then Inr (None, h_matching_transfer_encoding_token_start, pr\<lparr>pr_index := 0\<rparr>)
          else Inr (None, h, pr)
      | h_matching_connection_token_start \<Rightarrow>
          Inr (None, if c = c_k then h_matching_connection_keep_alive
                     else if c = c_c then h_matching_connection_close
                     else if c = c_u then h_matching_connection_upgrade
                     else if token c \<noteq> 0 then h_matching_connection_token
                     else if c = c_sp \<or> c = c_ht then h else h_general, pr)
      | h_matching_connection_keep_alive \<Rightarrow>
          value_matches ''keep-alive'' h h_connection_keep_alive h_matching_connection_token c pr
      | h_matching_connection_close \<Rightarrow>
          value_matches ''close'' h h_connection_close h_matching_connection_token c pr
      | h_matching_connection_upgrade \<Rightarrow>
          value_matches ''upgrade'' h h_connection_upgrade h_matching_connection_token c pr
      | h_matching_connection_token \<Rightarrow>
          if ch = c_comma then Inr (None, h_matching_connection_token_start, pr\<lparr>pr_index := 0\<rparr>)
          else Inr (None, h, pr)
      | h_transfer_encoding_chunked \<Rightarrow>
          Inr (None, if ch \<noteq> c_sp then h_matching_transfer_encoding_token else h, pr)
      | h_connection_keep_alive \<Rightarrow> connection_done F_CONNECTION_KEEP_ALIVE h ch pr
      | h_connection_close \<Rightarrow> connection_done F_CONNECTION_CLOSE h ch pr
      | h_connection_upgrade \<Rightarrow> connection_done F_CONNECTION_UPGRADE h ch pr
      | _ \<Rightarrow> Inr (None, h_general, pr))"

text \<open>
  The inner loop of \<open>h_general\<close>: how many bytes it passes from \<open>p\<close> on; it stops before a line end
  or a bad character, or after \<open>HTTP_MAX_HEADER_SIZE\<close> bytes.
\<close>

definition plain_char :: "bool \<Rightarrow> byte \<Rightarrow> bool" where
  "plain_char lenient c \<longleftrightarrow> \<not> is_line_end c \<and> (lenient \<or> is_header_char c)"

definition value_window :: "bytes \<Rightarrow> nat \<Rightarrow> bytes" where
  "value_window data p = take (min (length data - p) HTTP_MAX_HEADER_SIZE) (drop p data)"

definition plain_run :: "bool \<Rightarrow> bytes \<Rightarrow> nat \<Rightarrow> nat" where
  "plain_run lenient data p = length (takeWhile (plain_char lenient) (value_window data p))"

datatype value_end = V_more | V_cr | V_lf | V_error http_errno

text \<open>
  The loop over the characters of a value, with the reason why it stops and where. The inner loop
  passes at least the byte that was just looked at, so that \<open>max n 1\<close> is \<open>n\<close>. A byte right after a
  full window is passed without being looked at.
\<close>

function header_value_loop ::
  "bytes \<Rightarrow> bool \<Rightarrow> nat \<Rightarrow> header_state \<Rightarrow> http_parser \<Rightarrow> (value_end \<times> nat \<times> header_state \<times> http_parser) outcome" where
  "header_value_loop data lenient p h pr =
     (if length data \<le> p then Inr (V_more, p, h, pr)
      else let ch = data ! p
           in if ch = c_cr then Inr (V_cr, p, h, pr)
              else if ch = c_lf then Inr (V_lf, p, h, pr)
              else if \<not> lenient \<and> \<not> is_header_char ch then Inr (V_error HPE_INVALID_HEADER_TOKEN, p, h, pr)
              else if h = h_general
              then let w = value_window data p; n = plain_run lenient data p
                   in if n < length w
                      then (if is_line_end (w ! n) then header_value_loop data lenient (p + max n 1) h pr
                            else Inr (V_error HPE_INVALID_HEADER_TOKEN, p + n, h, pr))
                      else if p + n = length data then header_value_loop data lenient (p + n) h pr
                      else header_value_loop data lenient (Suc (p + n)) h pr
              else obind (value_char ch h pr) (\<lambda>(e, h', pr').
                case e of
                  Some err \<Rightarrow> Inr (V_error err, p, h', set_header_state h' pr')
                | None \<Rightarrow> header_value_loop data lenient (Suc p) h' pr'))"
  by pat_completeness auto
termination
proof (relation "measure (\<lambda>(data, lenient, p, h, pr). length data - p)", goal_cases)
  case (3 data lenient p h pr ch w n)
  then show ?case by (auto simp: value_window_def HTTP_MAX_HEADER_SIZE_def)
qed auto

declare header_value_loop.simps [simp del]

definition case_header_value :: "'u http_parser_settings \<Rightarrow> bytes \<Rightarrow> 'u exec \<Rightarrow> 'u case_result" where
  "case_header_value S data x =
     (let start = x_p x; pr0 = x_parser x
      in obind (header_value_loop data (pr_lenient_http_headers pr0) start (pr_header_state pr0) pr0)
        (\<lambda>(e, p, h, pr).
          let x1 = x\<lparr>x_parser := pr, x_p := p\<rparr>
          in case e of
               V_more \<Rightarrow>
                 count_header_size (length data - 1 - start)
                   (with_parser (set_header_state h) (x1\<lparr>x_p := length data - 1, x_ch := last data\<rparr>)) next_byte
             | V_cr \<Rightarrow>
                 data_advance S data M_header_value
                   (goto_state s_header_almost_done (with_parser (set_header_state h) (x1\<lparr>x_ch := c_cr\<rparr>)))
                   (\<lambda>x2. count_header_size (p - start) x2 next_byte)
             | V_lf \<Rightarrow>
                 count_header_size (p - start) (goto_state s_header_almost_done (x1\<lparr>x_ch := c_lf\<rparr>)) (\<lambda>x2.
                   data_noadvance S data M_header_value (with_parser (set_header_state h) x2)
                     (\<lambda>x3. Inr (Reexecute x3)))
             | V_error err \<Rightarrow> fail err x1))"

subsection \<open>The end of a header\<close>

text \<open>A header that ends sets the flag of the value it has recognised.\<close>

definition finish_value :: "http_parser \<Rightarrow> http_parser" where
  "finish_value pr =
     (case pr_header_state pr of
        h_connection_keep_alive \<Rightarrow> add_flag F_CONNECTION_KEEP_ALIVE pr
      | h_connection_close \<Rightarrow> add_flag F_CONNECTION_CLOSE pr
      | h_transfer_encoding_chunked \<Rightarrow> add_flag F_CHUNKED pr
      | h_connection_upgrade \<Rightarrow> add_flag F_CONNECTION_UPGRADE pr
      | _ \<Rightarrow> pr)"

definition case_header_almost_done :: "'u exec \<Rightarrow> 'u case_result" where
  "case_header_almost_done x =
     (if x_ch x \<noteq> c_lf then fail HPE_LF_EXPECTED x else next_byte (goto_state s_header_value_lws x))"

definition case_header_value_lws :: "'u exec \<Rightarrow> 'u case_result" where
  "case_header_value_lws x =
     (if x_ch x = c_sp \<or> x_ch x = c_ht
      then Inr (Reexecute (goto_state s_header_value_start (with_parser (\<lambda>pr.
             if pr_header_state pr = h_content_length_num then set_header_state h_content_length_ws pr else pr) x)))
      else Inr (Reexecute (goto_state s_header_field_start (with_parser finish_value x))))"

definition case_header_value_discard_lws :: "'u http_parser_settings \<Rightarrow> bytes \<Rightarrow> 'u exec \<Rightarrow> 'u case_result" where
  "case_header_value_discard_lws S data x =
     (if x_ch x = c_sp \<or> x_ch x = c_ht then next_byte (goto_state s_header_value_discard_ws x)
      else if pr_header_state (x_parser x) = h_content_length then fail HPE_INVALID_CONTENT_LENGTH x
      else data_noadvance S data M_header_value
             (goto_state s_header_field_start (set_mark M_header_value (with_parser finish_value x)))
             (\<lambda>x1. Inr (Reexecute x1)))"

subsection \<open>The end of the headers\<close>

definition reset_nread :: "'u exec \<Rightarrow> 'u exec" where
  "reset_nread x = (with_parser (\<lambda>pr. pr\<lparr>pr_nread := 0\<rparr>) x)\<lparr>x_nread := 0\<rparr>"

text \<open>\<^verbatim>\<open>UPDATE_STATE(NEW_MESSAGE()); CALLBACK_NOTIFY(message_complete)\<close>\<close>

definition complete_message ::
  "'u http_parser_settings \<Rightarrow> 'u exec \<Rightarrow> ('u exec \<Rightarrow> 'u case_result) \<Rightarrow> 'u case_result" where
  "complete_message S x =
     callback_notify (on_message_complete S) HPE_CB_message_complete (Suc (x_p x))
       (goto_state (new_message (x_parser x)) x)"

definition upgrade_wanted :: "http_parser \<Rightarrow> bool" where
  "upgrade_wanted pr =
     (if F_UPGRADE \<in> pr_flags pr \<and> F_CONNECTION_UPGRADE \<in> pr_flags pr
      then pr_type pr = HTTP_REQUEST \<or> pr_status_code pr = 101
      else pr_method pr = HTTP_CONNECT)"

text \<open>\<^verbatim>\<open>on_headers_complete\<close> returns 1 or 2 for a message without a body.\<close>

definition headers_complete ::
  "'u http_parser_settings \<Rightarrow> 'u exec \<Rightarrow> ('u exec \<Rightarrow> 'u case_result) \<Rightarrow> 'u case_result" where
  "headers_complete S x k =
     (case on_headers_complete S of
        None \<Rightarrow> k x
      | Some f \<Rightarrow>
          let (r, u) = f (x_parser x) (x_user x);
              x1 = x\<lparr>x_user := u\<rparr>;
              skip = add_flag F_SKIPBODY
          in if r = 0 then k x1
             else if r = 2 then k (with_parser (\<lambda>pr. skip (pr\<lparr>pr_upgrade := True\<rparr>)) x1)
             else if r = 1 then k (with_parser skip x1)
             else store_return (x_p x) (set_errno HPE_CB_headers_complete x1))"

definition case_headers_almost_done :: "'u http_parser_settings \<Rightarrow> 'u exec \<Rightarrow> 'u case_result" where
  "case_headers_almost_done S x =
     strict_check (x_ch x \<noteq> c_lf) x
       (let pr = x_parser x
        in if F_TRAILING \<in> pr_flags pr
           then callback_notify (on_chunk_complete S) HPE_CB_chunk_complete (x_p x)
                  (goto_state s_message_done x) (\<lambda>x1. Inr (Reexecute x1))
           else if pr_uses_transfer_encoding pr \<and> F_CONTENTLENGTH \<in> pr_flags pr
                   \<and> (if F_CHUNKED \<in> pr_flags pr then \<not> pr_allow_chunked_length pr
                      else \<not> pr_lenient_http_headers pr)
           then fail HPE_UNEXPECTED_CONTENT_LENGTH x
           else headers_complete S
                  (goto_state s_headers_done (with_parser (\<lambda>pr. pr\<lparr>pr_upgrade := upgrade_wanted pr\<rparr>) x))
                  (\<lambda>x1. if pr_http_errno (x_parser x1) \<noteq> HPE_OK then store_return (x_p x1) x1
                        else Inr (Reexecute x1)))"

definition has_body :: "http_parser \<Rightarrow> bool" where
  "has_body pr \<longleftrightarrow> F_CHUNKED \<in> pr_flags pr \<or> 0 < pr_content_length pr \<and> pr_content_length pr \<noteq> ULLONG_MAX"

definition case_headers_done :: "'u http_parser_settings \<Rightarrow> 'u exec \<Rightarrow> 'u case_result" where
  "case_headers_done S x =
     strict_check (x_ch x \<noteq> c_lf) x
       (let x1 = reset_nread x; pr = x_parser x1
        in if pr_upgrade pr
              \<and> (pr_method pr = HTTP_CONNECT \<or> F_SKIPBODY \<in> pr_flags pr \<or> \<not> has_body pr)
           then complete_message S x1 (\<lambda>x2. store_return (Suc (x_p x2)) x2)
           else if F_SKIPBODY \<in> pr_flags pr then complete_message S x1 next_byte
           else if F_CHUNKED \<in> pr_flags pr then next_byte (goto_state s_chunk_size_start x1)
           else if pr_uses_transfer_encoding pr
           then (if pr_type pr = HTTP_REQUEST \<and> \<not> pr_lenient_http_headers pr
                 then store_return (x_p x1) (set_errno HPE_INVALID_TRANSFER_ENCODING x1)
                 else next_byte (goto_state s_body_identity_eof x1))
           else if pr_content_length pr = 0 then complete_message S x1 next_byte
           else if pr_content_length pr \<noteq> ULLONG_MAX then next_byte (goto_state s_body_identity x1)
           else if \<not> http_message_needs_eof pr then complete_message S x1 next_byte
           else next_byte (goto_state s_body_identity_eof x1))"

subsection \<open>Bodies\<close>

text \<open>Both kinds of body pass as many bytes as are there: the new position is that of the last.\<close>

definition body_bytes :: "bytes \<Rightarrow> 'u exec \<Rightarrow> nat" where
  "body_bytes data x = min (unat (pr_content_length (x_parser x))) (length data - x_p x)"

definition pass_body :: "nat \<Rightarrow> 'u exec \<Rightarrow> 'u exec" where
  "pass_body n x = (with_parser (\<lambda>pr. pr\<lparr>pr_content_length := pr_content_length pr - of_nat n\<rparr>)
      (set_mark M_body x))\<lparr>x_p := x_p x + n - 1\<rparr>"

definition case_body_identity :: "'u http_parser_settings \<Rightarrow> bytes \<Rightarrow> 'u exec \<Rightarrow> 'u case_result" where
  "case_body_identity S data x =
     obind (oassert (pr_content_length (x_parser x) \<noteq> 0 \<and> pr_content_length (x_parser x) \<noteq> ULLONG_MAX)) (\<lambda>_.
       let x1 = pass_body (body_bytes data x) x
       in if pr_content_length (x_parser x1) = 0
          then callback_data S data M_body (Suc (x_p x1)) (x_p x1) (goto_state s_message_done x1)
                 (\<lambda>x2. Inr (Reexecute x2))
          else next_byte x1)"

definition case_body_identity_eof :: "bytes \<Rightarrow> 'u exec \<Rightarrow> 'u case_result" where
  "case_body_identity_eof data x = next_byte ((set_mark M_body x)\<lparr>x_p := length data - 1\<rparr>)"

definition case_message_done :: "'u http_parser_settings \<Rightarrow> 'u exec \<Rightarrow> 'u case_result" where
  "case_message_done S x =
     complete_message S x (\<lambda>x1.
       if pr_upgrade (x_parser x1) then store_return (Suc (x_p x1)) x1 else next_byte x1)"

text \<open>\<open>in_chunk\<close> is the assertion with which each case of the chunked encoding begins.\<close>

definition in_chunk :: "'u exec \<Rightarrow> 'u case_result \<Rightarrow> 'u case_result" where
  "in_chunk x k = obind (oassert (F_CHUNKED \<in> pr_flags (x_parser x))) (\<lambda>_. k)"

definition set_content_length :: "u64 \<Rightarrow> 'u exec \<Rightarrow> 'u exec" where
  "set_content_length n = with_parser (\<lambda>pr. pr\<lparr>pr_content_length := n\<rparr>)"

definition case_chunk_size_start :: "'u exec \<Rightarrow> 'u case_result" where
  "case_chunk_size_start x =
     obind (oassert (x_nread x = 1)) (\<lambda>_. in_chunk x
       (if unhex_at (x_ch x) = - 1 then fail HPE_INVALID_CHUNK_SIZE x
        else next_byte (goto_state s_chunk_size (set_content_length (word_of_int (unhex_at (x_ch x))) x))))"

definition case_chunk_size :: "'u exec \<Rightarrow> 'u case_result" where
  "case_chunk_size x = in_chunk x
     (if x_ch x = c_cr then next_byte (goto_state s_chunk_size_almost_done x)
      else let v = unhex_at (x_ch x); n = pr_content_length (x_parser x)
           in if v = - 1
              then (if x_ch x = c_semi \<or> x_ch x = c_sp then next_byte (goto_state s_chunk_parameters x)
                    else fail HPE_INVALID_CHUNK_SIZE x)
              else if (ULLONG_MAX - 16) div 16 < n then fail HPE_INVALID_CONTENT_LENGTH x
              else next_byte (set_content_length (n * 16 + word_of_int v) x))"

definition case_chunk_parameters :: "'u exec \<Rightarrow> 'u case_result" where
  "case_chunk_parameters x = in_chunk x
     (next_byte (if x_ch x = c_cr then goto_state s_chunk_size_almost_done x else x))"

definition case_chunk_size_almost_done :: "'u http_parser_settings \<Rightarrow> 'u exec \<Rightarrow> 'u case_result" where
  "case_chunk_size_almost_done S x = in_chunk x (strict_check (x_ch x \<noteq> c_lf) x
     (let x1 = reset_nread x
      in callback_notify (on_chunk_header S) HPE_CB_chunk_header (Suc (x_p x))
           (if pr_content_length (x_parser x1) = 0
            then goto_state s_header_field_start (with_parser (add_flag F_TRAILING) x1)
            else goto_state s_chunk_data x1) next_byte))"

definition case_chunk_data :: "bytes \<Rightarrow> 'u exec \<Rightarrow> 'u case_result" where
  "case_chunk_data data x = in_chunk x
     (obind (oassert (pr_content_length (x_parser x) \<noteq> 0 \<and> pr_content_length (x_parser x) \<noteq> ULLONG_MAX)) (\<lambda>_.
        let x1 = pass_body (body_bytes data x) x
        in next_byte (if pr_content_length (x_parser x1) = 0 then goto_state s_chunk_data_almost_done x1 else x1)))"

definition case_chunk_data_almost_done :: "'u http_parser_settings \<Rightarrow> bytes \<Rightarrow> 'u exec \<Rightarrow> 'u case_result" where
  "case_chunk_data_almost_done S data x = in_chunk x
     (obind (oassert (pr_content_length (x_parser x) = 0)) (\<lambda>_.
        strict_check (x_ch x \<noteq> c_cr) x (data_advance S data M_body (goto_state s_chunk_data_done x) next_byte)))"

definition case_chunk_data_done :: "'u http_parser_settings \<Rightarrow> 'u exec \<Rightarrow> 'u case_result" where
  "case_chunk_data_done S x = in_chunk x (strict_check (x_ch x \<noteq> c_lf) x
     (callback_notify (on_chunk_complete S) HPE_CB_chunk_complete (Suc (x_p x))
       (goto_state s_chunk_size_start (reset_nread x)) next_byte))"

subsection \<open>The switch, the loop and the function\<close>

definition execute_case :: "'u http_parser_settings \<Rightarrow> bytes \<Rightarrow> 'u exec \<Rightarrow> 'u case_result" where
  "execute_case S data x =
     (case x_state x of
        s_dead \<Rightarrow> case_dead x
      | s_start_req_or_res \<Rightarrow> case_start_req_or_res S x
      | s_res_or_resp_H \<Rightarrow> case_res_or_resp_H x
      | s_res_or_resp_R \<Rightarrow> case_res_or_resp_R x
      | s_start_res \<Rightarrow> case_start_res S x
      | Res s \<Rightarrow> case_res S data s x
      | s_start_req \<Rightarrow> case_start_req S x
      | s_req_method \<Rightarrow> case_req_method x
      | Url s \<Rightarrow> case_url S data s x
      | Req s \<Rightarrow> case_req s x
      | s_header_field_start \<Rightarrow> case_header_field_start x
      | s_header_field \<Rightarrow> case_header_field S data x
      | s_header_value_discard_ws \<Rightarrow> case_header_value_discard_ws x
      | s_header_value_discard_ws_almost_done \<Rightarrow> expect c_lf s_header_value_discard_lws x
      | s_header_value_discard_lws \<Rightarrow> case_header_value_discard_lws S data x
      | s_header_value_start \<Rightarrow> case_header_value_start x
      | s_header_value \<Rightarrow> case_header_value S data x
      | s_header_value_lws \<Rightarrow> case_header_value_lws x
      | s_header_almost_done \<Rightarrow> case_header_almost_done x
      | s_chunk_size_start \<Rightarrow> case_chunk_size_start x
      | s_chunk_size \<Rightarrow> case_chunk_size x
      | s_chunk_parameters \<Rightarrow> case_chunk_parameters x
      | s_chunk_size_almost_done \<Rightarrow> case_chunk_size_almost_done S x
      | s_headers_almost_done \<Rightarrow> case_headers_almost_done S x
      | s_headers_done \<Rightarrow> case_headers_done S x
      | s_chunk_data \<Rightarrow> case_chunk_data data x
      | s_chunk_data_almost_done \<Rightarrow> case_chunk_data_almost_done S data x
      | s_chunk_data_done \<Rightarrow> case_chunk_data_done S x
      | s_body_identity \<Rightarrow> case_body_identity S data x
      | s_body_identity_eof \<Rightarrow> case_body_identity_eof data x
      | s_message_done \<Rightarrow> case_message_done S x)"

text \<open>The label \<^verbatim>\<open>reexecute\<close>; a byte is handled at most four times, so fuel 5 is enough.\<close>

fun reexecute :: "nat \<Rightarrow> 'u http_parser_settings \<Rightarrow> bytes \<Rightarrow> 'u exec \<Rightarrow> 'u case_result" where
  "reexecute 0 S data x = Inl Diverges"
| "reexecute (Suc n) S data x =
     obind (execute_case S data x) (\<lambda>fl.
       case fl of Reexecute x1 \<Rightarrow> reexecute n S data x1 | _ \<Rightarrow> Inr fl)"

text \<open>What follows the loop, and the label \<^verbatim>\<open>error\<close>.\<close>

definition marks_left :: "'u exec \<Rightarrow> nat" where
  "marks_left x = length (filter (\<lambda>m. x_marks x m \<noteq> None)
     [M_header_field, M_header_value, M_url, M_body, M_status])"

definition end_of_input :: "'u http_parser_settings \<Rightarrow> bytes \<Rightarrow> 'u exec \<Rightarrow> 'u case_result" where
  "end_of_input S data x =
     obind (oassert (marks_left x \<le> 1)) (\<lambda>_.
       data_noadvance S data M_header_field x (\<lambda>x1.
       data_noadvance S data M_header_value x1 (\<lambda>x2.
       data_noadvance S data M_url x2 (\<lambda>x3.
       data_noadvance S data M_body x3 (\<lambda>x4.
       data_noadvance S data M_status x4 (store_return (length data)))))))"

definition at_error :: "'u exec \<Rightarrow> 'u case_result" where
  "at_error x =
     store_return (x_p x) (if pr_http_errno (x_parser x) = HPE_OK then set_errno HPE_UNKNOWN x else x)"

text \<open>The main loop. Every round moves on by at least one byte, so \<^verbatim>\<open>len\<close> rounds are enough.\<close>

fun execute_loop :: "nat \<Rightarrow> 'u http_parser_settings \<Rightarrow> bytes \<Rightarrow> 'u exec \<Rightarrow> 'u case_result" where
  "execute_loop n S data x =
     (if x_p x = length data then end_of_input S data x
      else case n of
        0 \<Rightarrow> Inl Diverges
      | Suc n' \<Rightarrow>
          obind (byte_at data (x_p x)) (\<lambda>c.
          obind (let x1 = x\<lparr>x_ch := c\<rparr>
                 in if parsing_header (x_state x1) then count_header_size 1 x1 (reexecute 5 S data)
                    else reexecute 5 S data x1) (\<lambda>fl.
            case fl of
              Break x1 \<Rightarrow> execute_loop n' S data (x1\<lparr>x_p := Suc (x_p x1)\<rparr>)
            | Reexecute x1 \<Rightarrow> Inl Diverges
            | Goto_error x1 \<Rightarrow> at_error x1
            | Return v x1 \<Rightarrow> Inr (Return v x1))))"

declare execute_loop.simps [simp del]

text \<open>The marks that are set when a call continues in the middle of an element.\<close>

definition initial_marks :: "http_state \<Rightarrow> mark \<Rightarrow> nat option" where
  "initial_marks s =
     (case s of
        s_header_field \<Rightarrow> (\<lambda>_. None)(M_header_field := Some 0)
      | s_header_value \<Rightarrow> (\<lambda>_. None)(M_header_value := Some 0)
      | Url u \<Rightarrow> if u = s_req_spaces_before_url then (\<lambda>_. None) else (\<lambda>_. None)(M_url := Some 0)
      | Res r \<Rightarrow> if r = s_res_status then (\<lambda>_. None)(M_status := Some 0) else (\<lambda>_. None)
      | _ \<Rightarrow> (\<lambda>_. None))"

definition exec_start :: "http_parser \<Rightarrow> 'u \<Rightarrow> 'u exec" where
  "exec_start pr u =
     \<lparr>x_parser = pr, x_user = u, x_state = pr_state pr, x_nread = pr_nread pr, x_p = 0, x_ch = 0,
      x_marks = initial_marks (pr_state pr)\<rparr>"

definition empty_input :: "'u http_parser_settings \<Rightarrow> 'u exec \<Rightarrow> 'u case_result" where
  "empty_input S x =
     (if x_state x = s_body_identity_eof
      then callback_notify (on_message_complete S) HPE_CB_message_complete 0 x (\<lambda>x1. Inr (Return 0 x1))
      else if x_state x \<in> {s_dead, s_start_req_or_res, s_start_res, s_start_req} then Inr (Return 0 x)
      else Inr (Return 1 (set_errno HPE_INVALID_EOF_STATE x)))"

definition http_parser_execute ::
  "'u http_parser_settings \<Rightarrow> bytes \<Rightarrow> http_parser \<Rightarrow> 'u \<Rightarrow> (nat \<times> http_parser \<times> 'u) outcome" where
  "http_parser_execute S data pr u =
     (if pr_http_errno pr \<noteq> HPE_OK then Inr (0, pr, u)
      else obind (if data = [] then empty_input S (exec_start pr u)
                  else execute_loop (length data) S data (exec_start pr u)) (\<lambda>fl.
        case fl of
          Return v x \<Rightarrow> Inr (v, x_parser x, x_user x)
        | _ \<Rightarrow> Inl Diverges))"

end
