(* ===== verification/Http_Url_Proofs.thy ===== *)
theory Http_Url_Proofs
  imports Http_Url
begin

text \<open>
  The URL parser stays inside its buffer and returns for every input, and it finds the parts
  of a well-formed URL.
\<close>

subsection \<open>Every field lies in the buffer\<close>

definition fields_within :: "nat \<Rightarrow> http_parser_url \<Rightarrow> bool" where
  "fields_within n u \<longleftrightarrow> (\<forall>f \<in> ur_field_set u. unat (ur_off u f) + unat (ur_len u f) \<le> n)"

lemma unat_Suc_le: "unat (x + 1 :: u16) \<le> Suc (unat x)"
  by (simp add: unat_plus_if') linarith

lemma unat_of_nat_le: "unat (of_nat n :: u16) \<le> n"
  by (simp add: unat_of_nat take_bit_eq_mod)

lemma fields_within_mono: "fields_within n u \<Longrightarrow> n \<le> m \<Longrightarrow> fields_within m u"
  by (force simp: fields_within_def)

lemma fields_within_longer: "fields_within n u \<Longrightarrow> fields_within (Suc n) (url_longer f u)"
  using unat_Suc_le [of "ur_len u f"] by (force simp: fields_within_def url_longer_def)

lemma fields_within_begin: "fields_within n u \<Longrightarrow> fields_within n (url_begin f n u)"
  using unat_of_nat_le [of n] by (force simp: fields_within_def url_begin_def)

lemma in_field_set [simp]:
  "ur_field_set (url_longer f u) = ur_field_set u"
  "ur_field_set (url_begin f p u) = insert f (ur_field_set u)"
  by (simp_all add: url_longer_def url_begin_def)

lemma parse_url_char_moves: "parse_url_char s c \<noteq> Some s_req_spaces_before_url"
  by (cases s) (simp_all add: parse_url_char_def parse_server_char_def parse_query_char_def)

lemma url_loop_Cons:
  "url_loop p (c # cs) s old_uf found_at u =
     (case parse_url_char s c of
        None \<Rightarrow> Inr (None, u)
      | Some s' \<Rightarrow>
          let found' = (found_at \<or> s' = s_req_server_with_at)
          in case field_of_state s' of
               None \<Rightarrow> url_loop (Suc p) cs s' old_uf found' u
             | Some uf \<Rightarrow>
                 if old_uf = Some uf then url_loop (Suc p) cs s' old_uf found' (url_longer uf u)
                 else url_loop (Suc p) cs s' (Some uf) found' (url_longer uf (url_begin uf p u)))"
proof (cases "parse_url_char s c")
  case (Some s')
  then show ?thesis using parse_url_char_moves [of s c] by (cases s') simp_all
qed simp

declare url_loop.simps(2) [simp del]

lemma url_loop_total:
  assumes "fields_within p u"
  shows "\<exists>fa u'. url_loop p bs s old found u = Inr (fa, u') \<and> fields_within (p + length bs) u'
     \<and> ur_field_set u' \<inter> {UF_PORT, UF_USERINFO} = ur_field_set u \<inter> {UF_PORT, UF_USERINFO}"
  using assms
proof (induction bs arbitrary: p s old found u)
  case Nil
  then show ?case by simp
next
  case (Cons c cs)
  show ?case
  proof (cases "parse_url_char s c")
    case None
    with Cons.prems show ?thesis by (auto simp: url_loop_Cons intro: fields_within_mono)
  next
    case (Some s')
    have "fields_within (Suc p) u" "fields_within (Suc p) (url_longer f u)"
      "fields_within (Suc p) (url_longer f (url_begin f p u))" for f
      using Cons.prems by (auto intro: fields_within_mono fields_within_longer fields_within_begin)
    moreover have "f \<noteq> UF_PORT \<and> f \<noteq> UF_USERINFO" if "field_of_state s' = Some f" for f
      using that by (cases s') auto
    ultimately obtain old' found' u1 where
      step: "url_loop p (c # cs) s old found u = url_loop (Suc p) cs s' old' found' u1"
      and u1: "fields_within (Suc p) u1"
      and set: "ur_field_set u1 \<inter> {UF_PORT, UF_USERINFO} = ur_field_set u \<inter> {UF_PORT, UF_USERINFO}"
      using Some by (cases "field_of_state s'"; cases "old = field_of_state s'")
        (auto simp: url_loop_Cons Let_def)
    from Cons.IH [OF u1, of s' old' found'] step set show ?thesis by auto
  qed
qed

text \<open>
  In the host parser the fields that it writes end before the position \<open>p\<close>, the others before
  \<open>n\<close>; before the host name begins its length is zero.
\<close>

definition host_written :: "url_field set" where
  "host_written = {UF_HOST, UF_PORT, UF_USERINFO}"

definition host_limit :: "nat \<Rightarrow> nat \<Rightarrow> url_field \<Rightarrow> nat" where
  "host_limit n p f = (if f \<in> host_written then p else n)"

definition before_host :: "http_host_state \<Rightarrow> bool" where
  "before_host s \<longleftrightarrow> s \<in> {s_http_userinfo_start, s_http_userinfo, s_http_host_start, s_http_host_v6_start}"

definition host_ok :: "nat \<Rightarrow> http_host_state \<Rightarrow> nat \<Rightarrow> http_parser_url \<Rightarrow> bool" where
  "host_ok n s p u \<longleftrightarrow> UF_HOST \<in> ur_field_set u
     \<and> (\<forall>f \<in> ur_field_set u. unat (ur_off u f) + unat (ur_len u f) \<le> host_limit n p f)
     \<and> (before_host s \<longrightarrow> ur_len u UF_HOST = 0)"

lemma host_limit_Suc: "host_limit n p f \<le> host_limit n (Suc p) f"
  by (simp add: host_limit_def)

lemma host_okD: "host_ok n s p u \<Longrightarrow> f \<in> ur_field_set u \<Longrightarrow>
    unat (ur_off u f) + unat (ur_len u f) \<le> host_limit n p f"
  by (simp add: host_ok_def)

lemma host_ok_before: "host_ok n s p u \<Longrightarrow> before_host s \<Longrightarrow> ur_len u UF_HOST = 0"
  by (simp add: host_ok_def)

lemma host_ok_end: "host_ok n s p u \<Longrightarrow> p \<le> n \<Longrightarrow> fields_within n u"
  unfolding fields_within_def
  by (rule ballI, rule order_trans, rule host_okD) (assumption | simp add: host_limit_def)+

lemma host_ok_host: "host_ok n s p u \<Longrightarrow> UF_HOST \<in> ur_field_set u"
  by (simp add: host_ok_def)

lemma host_ok_move:
  assumes "host_ok n s p u" "before_host s' \<Longrightarrow> ur_len u UF_HOST = 0"
  shows "host_ok n s' (Suc p) u"
  using assms host_limit_Suc order_trans unfolding host_ok_def by blast

lemma host_ok_longer:
  assumes "host_ok n s p u" "f \<in> host_written"
    and "before_host s' \<Longrightarrow> f \<noteq> UF_HOST \<and> ur_len u UF_HOST = 0"
  shows "host_ok n s' (Suc p) (url_longer f u)"
proof -
  have "unat (ur_off u f) + unat (ur_len u f + 1) \<le> host_limit n (Suc p) f" if "f \<in> ur_field_set u"
    using host_okD [OF assms(1) that] unat_Suc_le [of "ur_len u f"] assms(2)
    by (simp add: host_limit_def)
  with host_ok_move [OF assms(1), of s'] assms(3) show ?thesis
    by (auto simp: host_ok_def url_longer_def)
qed

lemma host_ok_begin:
  "host_ok n s p u \<Longrightarrow> f \<in> {UF_PORT, UF_USERINFO} \<Longrightarrow> host_ok n s p (url_begin f p u)"
  using unat_of_nat_le [of p] by (auto simp: host_ok_def url_begin_def host_written_def host_limit_def)

lemma host_ok_at:
  "host_ok n s p u \<Longrightarrow> ur_len u UF_HOST = 0 \<Longrightarrow>
   host_ok n s p (u\<lparr>ur_off := (ur_off u)(UF_HOST := of_nat p)\<rparr>)"
  using unat_of_nat_le [of p] by (auto simp: host_ok_def host_written_def host_limit_def)

lemma host_fields_simps:
  "host_fields s s_http_host p u = url_longer UF_HOST
     (if s \<noteq> s_http_host then u\<lparr>ur_off := (ur_off u)(UF_HOST := of_nat p)\<rparr> else u)"
  "host_fields s s_http_host_v6 p u = url_longer UF_HOST
     (if s \<noteq> s_http_host_v6 then u\<lparr>ur_off := (ur_off u)(UF_HOST := of_nat p)\<rparr> else u)"
  "host_fields s s_http_host_v6_zone_start p u = url_longer UF_HOST u"
  "host_fields s s_http_host_v6_zone p u = url_longer UF_HOST u"
  "host_fields s s_http_host_port p u =
     url_longer UF_PORT (if s \<noteq> s_http_host_port then url_begin UF_PORT p u else u)"
  "host_fields s s_http_userinfo p u =
     url_longer UF_USERINFO (if s \<noteq> s_http_userinfo then url_begin UF_USERINFO p u else u)"
  "host_fields s s_http_host_dead p u = u" "host_fields s s_http_userinfo_start p u = u"
  "host_fields s s_http_host_start p u = u" "host_fields s s_http_host_v6_start p u = u"
  "host_fields s s_http_host_v6_end p u = u" "host_fields s s_http_host_port_start p u = u"
  by (simp_all add: host_fields_def Let_def)

text \<open>The host name begins in a state that precedes it, and nothing returns before it.\<close>

lemma host_char_order:
  assumes "http_parse_host_char s c = new_s"
  shows "new_s = s_http_host \<Longrightarrow> s = s_http_host \<or> before_host s"
    and "new_s = s_http_host_v6 \<Longrightarrow> s = s_http_host_v6 \<or> before_host s"
    and "before_host new_s \<Longrightarrow> before_host s"
  using assms
  by (cases s; auto simp: http_parse_host_char_def before_host_def Let_def split: if_splits)+

lemma host_ok_step:
  assumes "host_ok n s p u" "http_parse_host_char s c = new_s" "new_s \<noteq> s_http_host_dead"
  shows "host_ok n new_s (Suc p) (host_fields s new_s p u)"
proof -
  note order = host_char_order [OF assms(2)]
  have written: "UF_HOST \<in> host_written" "UF_PORT \<in> host_written" "UF_USERINFO \<in> host_written"
    by (simp_all add: host_written_def)
  have at: "host_ok n s p (u\<lparr>ur_off := (ur_off u)(UF_HOST := of_nat p)\<rparr>)" if "before_host s"
    using assms(1) that by (intro host_ok_at host_ok_before)
  have starts: "host_ok n s p (url_begin f p u)" if "f \<in> {UF_PORT, UF_USERINFO}" for f
    using assms(1) that by (rule host_ok_begin)
  have len: "before_host new_s \<Longrightarrow> ur_len u UF_HOST = 0"
    using assms(1) order(3) host_ok_before by blast
  have host: "host_ok n s' (Suc p) (url_longer UF_HOST v)" if "host_ok n s p v" "\<not> before_host s'" for s' v
    using that written by (intro host_ok_longer) auto
  have other: "host_ok n s' (Suc p) (url_longer f v)"
    if "host_ok n s p v" "f \<in> {UF_PORT, UF_USERINFO}" "before_host s' \<Longrightarrow> ur_len v UF_HOST = 0" for s' v f
    using that written by (intro host_ok_longer) auto
  have move: "host_ok n new_s (Suc p) u"
    using assms(1) len by (rule host_ok_move)
  have no: "\<not> before_host s_http_host" "\<not> before_host s_http_host_v6" "\<not> before_host s_http_host_v6_zone"
    "\<not> before_host s_http_host_v6_zone_start" "\<not> before_host s_http_host_port"
    by (simp_all add: before_host_def)
  have keep: "ur_len (url_begin UF_USERINFO p u) UF_HOST = ur_len u UF_HOST"
    by (simp add: url_begin_def)
  have port: "host_ok n s_http_host_port (Suc p)
      (url_longer UF_PORT (if s \<noteq> s_http_host_port then url_begin UF_PORT p u else u))"
    using assms(1) starts [of UF_PORT] no by (intro other) auto
  have user: "host_ok n s_http_userinfo (Suc p)
      (url_longer UF_USERINFO (if s \<noteq> s_http_userinfo then url_begin UF_USERINFO p u else u))"
    if "new_s = s_http_userinfo"
    using assms(1) starts [of UF_USERINFO] len that keep
    by (intro other) (auto simp: before_host_def)
  show ?thesis
    using assms(1,3) at order move no host port user
    by (cases new_s) (simp_all only: host_fields_simps, auto)
qed

lemma host_loop_total:
  assumes "host_ok n s p u" "p \<le> buflen" "buflen \<le> n" "n \<le> length buf"
  shows "\<exists>r u'. host_loop buf p buflen s u = Inr (r, u') \<and> fields_within n u'
     \<and> UF_HOST \<in> ur_field_set u'"
  using assms
proof (induction buf p buflen s u rule: host_loop.induct)
  case (1 buf p buflen s u)
  show ?case
  proof (cases "buflen \<le> p")
    case True
    with "1.prems" have "fields_within n u" "UF_HOST \<in> ur_field_set u"
      using host_ok_end [of n s p u] host_ok_host by auto
    with True show ?thesis by (simp add: host_loop.simps [of buf p])
  next
    case False
    let ?s = "http_parse_host_char s (buf ! p)"
    have c: "byte_at buf p = Inr (buf ! p)" using False 1 by (simp add: byte_at_in)
    show ?thesis
    proof (cases "?s = s_http_host_dead")
      case True
      from "1.prems" False have "fields_within n u" "UF_HOST \<in> ur_field_set u"
        using host_ok_end [of n s p u] host_ok_host by auto
      with True False c show ?thesis by (simp add: host_loop.simps [of buf p])
    next
      case alive: False
      with 1 False c have "\<exists>r u'. host_loop buf (Suc p) buflen ?s (host_fields s ?s p u) = Inr (r, u')
          \<and> fields_within n u' \<and> UF_HOST \<in> ur_field_set u'"
        by (intro "1.IH" [OF _ c refl]) (auto intro: host_ok_step)
      with False c alive show ?thesis by (simp add: host_loop.simps [of buf p] Let_def)
    qed
  qed
qed

text \<open>
  C27. The URL parser is safe: it returns for every buffer, of whatever bytes and length, none
  of its assertions fails, it never reads outside the buffer, and when it reports success every
  field that it has set lies within the buffer.
\<close>

theorem url_fields_in_bounds:
  "\<exists>r u'. http_parser_parse_url buf is_connect u = Inr (r, u')
     \<and> (r = 0 \<longrightarrow> (\<forall>f \<in> ur_field_set u'. unat (ur_off u' f) + unat (ur_len u' f) \<le> length buf))"
proof (cases "buf = []")
  case True
  then show ?thesis by (simp add: http_parser_parse_url_def)
next
  case False
  let ?u = "u\<lparr>ur_port := 0, ur_field_set := {}\<rparr>"
  let ?s = "if is_connect then s_req_server_start else s_req_spaces_before_url"
  obtain fa u1 where run: "url_loop 0 buf ?s None False ?u = Inr (fa, u1)"
    and within: "fields_within (length buf) u1" and new: "ur_field_set u1 \<inter> {UF_PORT, UF_USERINFO} = {}"
    using url_loop_total [of 0 ?u buf ?s None False] by (auto simp: fields_within_def)
  have host: "\<exists>r u2. http_parse_host buf u1 b = Inr (r, u2) \<and> fields_within (length buf) u2"
    if "UF_HOST \<in> ur_field_set u1" for b
  proof -
    let ?off = "unat (ur_off u1 UF_HOST)" and ?len = "unat (ur_len u1 UF_HOST)"
    have "host_ok (length buf) (if b then s_http_userinfo_start else s_http_host_start) ?off
        (u1\<lparr>ur_len := (ur_len u1)(UF_HOST := 0)\<rparr>)"
      using within new that by (auto simp: host_ok_def fields_within_def host_written_def host_limit_def)
    moreover have "?off + ?len \<le> length buf" using within that by (auto simp: fields_within_def)
    ultimately show ?thesis
      using host_loop_total [of "length buf" _ ?off _ "?off + ?len" buf] that
      by (fastforce simp: http_parse_host_def)
  qed
  have port: "\<exists>r u'. parse_url_port buf u2 = Inr (r, u') \<and> fields_within (length buf) u'"
    if "fields_within (length buf) u2" for u2
    using that by (auto simp: parse_url_port_def fields_within_def Let_def split: option.split)
  have "\<exists>r u'. http_parser_parse_url buf is_connect u = Inr (r, u') \<and> fields_within (length buf) u'"
  proof (cases fa)
    case None
    with False run within show ?thesis by (simp add: http_parser_parse_url_def)
  next
    case (Some b)
    obtain r u2 where "(if UF_HOST \<in> ur_field_set u1 then http_parse_host buf u1 b else Inr (0, u1)) = Inr (r, u2)"
      and "fields_within (length buf) u2"
      using host [of b] within by (cases "UF_HOST \<in> ur_field_set u1") auto
    with False run within Some port [of u2] show ?thesis
      by (auto simp: http_parser_parse_url_def)
  qed
  then show ?thesis by (auto simp: fields_within_def)
qed

theorem url_fields_in_bounds_witness:
  "\<exists>u'. http_parser_parse_url (bytes_of ''/ab'') False http_parser_url_init = Inr (0, u')
     \<and> UF_PATH \<in> ur_field_set u' \<and> unat (ur_off u' UF_PATH) + unat (ur_len u' UF_PATH) \<le> 3"
proof -
  have run: "case http_parser_parse_url (bytes_of ''/ab'') False http_parser_url_init of
     Inr (r, u) \<Rightarrow> r = 0 \<and> UF_PATH \<in> ur_field_set u | _ \<Rightarrow> False"
    by code_simp
  have "length (bytes_of ''/ab'') = 3" by (simp add: bytes_of_def)
  with run url_fields_in_bounds [of "bytes_of ''/ab''" False http_parser_url_init] show ?thesis
    by (auto simp: numeral_3_eq_3)
qed

subsection \<open>The parts of a well-formed URL\<close>

text \<open>The characters of the parts keep the scanner in the state of the part.\<close>

lemma not_host_chars [simp]:
  "\<not> is_host_char c_sp" "\<not> is_host_char c_cr" "\<not> is_host_char c_lf" "\<not> is_host_char c_ht"
  "\<not> is_host_char c_ff" "\<not> is_host_char c_slash" "\<not> is_host_char c_query" "\<not> is_host_char c_at"
  "\<not> is_host_char c_colon" "\<not> is_host_char c_lbrack"
  by (simp_all add: is_host_char_def is_alphanum_def is_alpha_def is_num_char_def lower_def)

lemma not_alpha_chars [simp]:
  "\<not> is_alpha c_sp" "\<not> is_alpha c_cr" "\<not> is_alpha c_lf" "\<not> is_alpha c_ht"
  "\<not> is_alpha c_ff" "\<not> is_alpha c_slash" "\<not> is_alpha c_star" "\<not> is_alpha c_colon"
  by (simp_all add: is_alpha_def lower_def)

lemma host_userinfo: "is_host_char c \<Longrightarrow> is_userinfo_char c"
  by (auto simp: is_host_char_def is_userinfo_char_def is_mark_def)

lemma is_num_host: "is_num_char c \<Longrightarrow> is_host_char c"
  by (simp add: is_host_char_def is_alphanum_def)

lemma schema_chars:
  assumes "is_alpha c"
  shows "parse_url_char s_req_spaces_before_url c = Some s_req_schema"
    and "parse_url_char s_req_schema c = Some s_req_schema"
proof -
  have "c \<notin> {c_sp, c_cr, c_lf, c_ht, c_ff, c_slash, c_star}" using assms by auto
  with assms show "parse_url_char s_req_spaces_before_url c = Some s_req_schema"
    and "parse_url_char s_req_schema c = Some s_req_schema"
    by (simp_all add: parse_url_char_def)
qed

lemma server_chars:
  assumes "is_host_char c \<or> c = c_colon" "s = s_req_server_start \<or> s = s_req_server"
  shows "parse_url_char s c = Some s_req_server"
proof -
  have "c \<notin> {c_sp, c_cr, c_lf, c_ht, c_ff, c_slash, c_query, c_at}" using assms(1) by auto
  moreover have "is_userinfo_char c"
    using assms(1) host_userinfo by (auto simp: is_userinfo_char_def)
  ultimately show ?thesis
    using assms(2) by (auto simp: parse_url_char_def parse_server_char_def)
qed

lemma path_chars: "is_url_char c \<Longrightarrow> parse_url_char s_req_path c = Some s_req_path"
  by (auto simp: parse_url_char_def is_url_char_iff)

text \<open>A run of characters of one part only adds to the length of its field.\<close>

definition url_grow :: "url_field \<Rightarrow> nat \<Rightarrow> http_parser_url \<Rightarrow> http_parser_url" where
  "url_grow f n u = u\<lparr>ur_len := (ur_len u)(f := ur_len u f + of_nat n)\<rparr>"

lemma url_grow_simps [simp]:
  "url_grow f 0 u = u" "url_grow f n (url_longer f u) = url_grow f (Suc n) u"
  by (simp_all add: url_grow_def url_longer_def ac_simps)

lemma url_loop_run:
  assumes "\<forall>c \<in> set xs. parse_url_char s c = Some s" "field_of_state s = Some f" "s \<noteq> s_req_server_with_at"
  shows "url_loop p (xs @ rest) s (Some f) fa u =
     url_loop (p + length xs) rest s (Some f) fa (url_grow f (length xs) u)"
  using assms(1)
  by (induction xs arbitrary: p u) (simp_all add: url_loop_Cons assms(2,3) Let_def)

lemma host_loop_run:
  assumes "\<forall>c \<in> set xs. http_parse_host_char s c = s" "p + length xs \<le> buflen"
    and "\<And>p u. host_fields s s p u = url_longer f u" "s \<noteq> s_http_host_dead"
    and "take (length xs) (drop p buf) = xs"
  shows "host_loop buf p buflen s u = host_loop buf (p + length xs) buflen s (url_grow f (length xs) u)"
  using assms(1,2,5)
proof (induction xs arbitrary: p u)
  case Nil
  then show ?case by simp
next
  case (Cons x xs)
  have "p < length buf" using Cons.prems(3) by (cases "p < length buf") auto
  then have x: "byte_at buf p = Inr x" and rest: "take (length xs) (drop (Suc p) buf) = xs"
    using Cons.prems(3) by (simp_all add: Cons_nth_drop_Suc [symmetric])
  show ?case
    using Cons.IH [OF _ _ rest, of "url_longer f u"] Cons.prems(1,2) x assms(3,4)
    by (simp add: host_loop.simps [of buf p] Let_def)
qed

text \<open>A part that begins: its first character leaves the state before, the others stay.\<close>

lemma url_loop_field:
  assumes "parse_url_char s0 c = Some s" "\<forall>c \<in> set cs. parse_url_char s c = Some s"
    and "field_of_state s = Some f" "s \<noteq> s_req_server_with_at" "old \<noteq> Some f"
  shows "url_loop p ((c # cs) @ rest) s0 old fa u =
     url_loop (p + length (c # cs)) rest s (Some f) fa (url_grow f (length (c # cs)) (url_begin f p u))"
  using assms url_loop_run [OF assms(2,3,4)] by (simp add: url_loop_Cons Let_def)

lemma url_loop_slashes:
  "url_loop p ([c_colon, c_slash, c_slash] @ rest) s_req_schema old fa u =
     url_loop (p + 3) rest s_req_server_start old fa u"
  by (simp add: url_loop_Cons parse_url_char_def numeral_3_eq_3)

lemma host_loop_field:
  assumes "http_parse_host_char s0 c = s" "\<forall>c \<in> set cs. http_parse_host_char s c = s"
    and "host_fields s0 s p u = url_longer f (g u)"
    and "\<And>p u. host_fields s s p u = url_longer f u" "s \<noteq> s_http_host_dead"
    and "p + length (c # cs) \<le> buflen" "take (length (c # cs)) (drop p buf) = c # cs"
  shows "host_loop buf p buflen s0 u =
     host_loop buf (p + length (c # cs)) buflen s (url_grow f (length (c # cs)) (g u))"
proof -
  have "p < length buf" using assms(7) by (cases "p < length buf") auto
  then have x: "byte_at buf p = Inr c" and rest: "take (length cs) (drop (Suc p) buf) = cs"
    using assms(7) by (simp_all add: Cons_nth_drop_Suc [symmetric])
  show ?thesis
    using host_loop_run [OF assms(2) _ assms(4,5) rest, of buflen "url_longer f (g u)"] assms(1,3,5,6) x
    by (simp add: host_loop.simps [of buf p] Let_def)
qed

definition dec_value :: "bytes \<Rightarrow> nat" where
  "dec_value ds = foldl (\<lambda>v d. v * 10 + (unat d - 48)) 0 ds"

lemma foldl_dec_grows: "v \<le> foldl (\<lambda>v d. v * 10 + (unat d - 48)) v (ds :: bytes)"
proof (induction ds arbitrary: v)
  case (Cons d ds)
  have "v \<le> v * 10 + (unat d - 48)" by simp
  also have "\<dots> \<le> foldl (\<lambda>v d. v * 10 + (unat d - 48)) (v * 10 + (unat d - 48)) ds" by (rule Cons.IH)
  finally show ?case by simp
qed simp

lemma of_nat_above: "n < 2 ^ 64 \<Longrightarrow> (0xFFFF < (of_nat n :: u64)) \<longleftrightarrow> 0xFFFF < n"
  by (simp add: word_less_nat_alt unat_of_nat take_bit_eq_mod)

lemma port_digit:
  assumes "is_num_char d" "v \<le> 0xFFFF"
  shows "(of_nat v :: u64) * 10 + word_of_int (sint d - 48) = of_nat (v * 10 + (unat d - 48))"
    and "(0xFFFF < (of_nat (v * 10 + (unat d - 48)) :: u64)) \<longleftrightarrow> 0xFFFF < v * 10 + (unat d - 48)"
proof -
  have d: "48 \<le> unat d" "unat d \<le> 57"
    using assms(1) by (simp_all add: is_num_char_def word_le_nat_alt)
  have "uint d \<le> 57" using assms(1) by (simp add: is_num_char_def word_le_def)
  then have "sint d = int (unat d)"
    by (simp add: sint_uint signed_take_bit_int_eq_self_iff) (use uint_ge_0 [of d] in linarith)
  then have "sint d - 48 = int (unat d - 48)" using d by simp
  then show "(of_nat v :: u64) * 10 + word_of_int (sint d - 48) = of_nat (v * 10 + (unat d - 48))"
    by simp
  show "(0xFFFF < (of_nat (v * 10 + (unat d - 48)) :: u64)) \<longleftrightarrow> 0xFFFF < v * 10 + (unat d - 48)"
    using d assms(2) by (intro of_nat_above) simp
qed

lemma port_loop_value:
  assumes "\<forall>d \<in> set ds. is_num_char d" "v \<le> 0xFFFF"
  shows "port_loop ds (of_nat v) =
    (let w = foldl (\<lambda>v d. v * 10 + (unat d - 48)) v ds in if w \<le> 0xFFFF then Some (of_nat w) else None)"
  using assms
proof (induction ds arbitrary: v)
  case Nil
  then show ?case by simp
next
  case (Cons d ds)
  let ?w = "v * 10 + (unat d - 48)"
  from Cons.prems have d: "is_num_char d" by simp
  have step: "port_loop (d # ds) (of_nat v) = (if 0xFFFF < ?w then None else port_loop ds (of_nat ?w))"
    by (simp only: port_loop.simps Let_def port_digit [OF d Cons.prems(2)])
  show ?case
  proof (cases "?w \<le> 0xFFFF")
    case True
    have "\<forall>d \<in> set ds. is_num_char d" using Cons.prems(1) by simp
    from Cons.IH [OF this True] True show ?thesis unfolding step by (simp only: foldl_Cons Let_def not_less if_True if_False) auto
  next
    case False
    moreover have "?w \<le> foldl (\<lambda>v d. v * 10 + (unat d - 48)) ?w ds" by (rule foldl_dec_grows)
    ultimately show ?thesis unfolding step by (simp add: Let_def)
  qed
qed

text \<open>The bytes of a field, as \<^verbatim>\<open>rtsp_parser::update_url_field\<close> takes them.\<close>

definition url_part :: "bytes \<Rightarrow> http_parser_url \<Rightarrow> url_field \<Rightarrow> bytes option" where
  "url_part buf u f =
     (if f \<in> ur_field_set u then Some (take (unat (ur_len u f)) (drop (unat (ur_off u f)) buf)) else None)"

definition port_bytes :: "bytes option \<Rightarrow> bytes" where
  "port_bytes port = (case port of None \<Rightarrow> [] | Some ds \<Rightarrow> c_colon # ds)"

lemma host_char_moves:
  "is_host_char c \<Longrightarrow> http_parse_host_char s_http_host_start c = s_http_host"
  "is_host_char c \<Longrightarrow> http_parse_host_char s_http_host c = s_http_host"
  "http_parse_host_char s_http_host c_colon = s_http_host_port_start"
  "is_num_char c \<Longrightarrow> http_parse_host_char s_http_host_port_start c = s_http_host_port"
  "is_num_char c \<Longrightarrow> http_parse_host_char s_http_host_port c = s_http_host_port"
  by (auto simp: http_parse_host_char_def Let_def)

text \<open>What the host parser makes of a host name and a port.\<close>

lemma host_loop_parts:
  assumes "host \<noteq> []" "\<forall>c \<in> set host. is_host_char c"
    and "case port of None \<Rightarrow> True | Some ds \<Rightarrow> ds \<noteq> [] \<and> (\<forall>d \<in> set ds. is_num_char d)"
    and "take (length (host @ port_bytes port)) (drop p buf) = host @ port_bytes port"
  shows "host_loop buf p (p + length (host @ port_bytes port)) s_http_host_start u = Inr (0,
     let u1 = url_grow UF_HOST (length host) (u\<lparr>ur_off := (ur_off u)(UF_HOST := of_nat p)\<rparr>)
     in case port of None \<Rightarrow> u1
        | Some ds \<Rightarrow> url_grow UF_PORT (length ds) (url_begin UF_PORT (Suc (p + length host)) u1))"
proof -
  obtain c cs where host: "host = c # cs" using assms(1) by (cases host) auto
  let ?n = "length (host @ port_bytes port)"
  let ?u1 = "url_grow UF_HOST (length host) (u\<lparr>ur_off := (ur_off u)(UF_HOST := of_nat p)\<rparr>)"
  have th: "take (length host) (drop p buf) = host"
    using arg_cong [OF assms(4), of "take (length host)"] by (simp add: min_def)
  have len: "length buf \<ge> p + ?n"
    using arg_cong [OF assms(4), of length] assms(1) by (cases "p \<le> length buf") (auto simp: min_def split: if_splits)
  have host_run: "host_loop buf p (p + ?n) s_http_host_start u = host_loop buf (p + length host) (p + ?n) s_http_host ?u1"
    using assms(2) th host_loop_field [of s_http_host_start c s_http_host cs p u UF_HOST
        "\<lambda>u. u\<lparr>ur_off := (ur_off u)(UF_HOST := of_nat p)\<rparr>" "p + ?n" buf]
    by (simp add: host host_char_moves host_fields_simps)
  show ?thesis
  proof (cases port)
    case None
    with host_run show ?thesis
      by (simp add: host_loop.simps [of buf "p + length host"] port_bytes_def host_complete_def Let_def)
  next
    case (Some ds)
    then obtain d ds' where ds: "ds = d # ds'" and digits: "\<forall>d \<in> set ds. is_num_char d"
      using assms(3) by (cases ds) auto
    let ?q = "p + length host"
    have tp: "take (Suc (length ds)) (drop ?q buf) = c_colon # ds"
      using arg_cong [OF assms(4), of "drop (length host)"]
      by (simp add: Some port_bytes_def drop_take add.commute)
    have q: "?q < length buf" using len Some by (simp add: port_bytes_def)
    have colon: "byte_at buf ?q = Inr c_colon" and td: "take (length ds) (drop (Suc ?q) buf) = ds"
      using tp q by (simp_all add: Cons_nth_drop_Suc [symmetric])
    have "host_loop buf ?q (p + ?n) s_http_host ?u1 = host_loop buf (Suc ?q) (p + ?n) s_http_host_port_start ?u1"
      using colon Some by (simp add: host_loop.simps [of buf ?q] host_char_moves host_fields_simps
          port_bytes_def Let_def)
    also have "\<dots> = host_loop buf (Suc ?q + length ds) (p + ?n) s_http_host_port
        (url_grow UF_PORT (length ds) (url_begin UF_PORT (Suc ?q) ?u1))"
      using digits td Some host_loop_field [of s_http_host_port_start d s_http_host_port ds' "Suc ?q" ?u1 UF_PORT
          "url_begin UF_PORT (Suc ?q)" "p + ?n" buf]
      by (simp add: ds host_char_moves host_fields_simps port_bytes_def)
    also have "\<dots> = Inr (0, url_grow UF_PORT (length ds) (url_begin UF_PORT (Suc ?q) ?u1))"
      using Some by (subst host_loop.simps) (simp add: port_bytes_def host_complete_def)
    finally show ?thesis using host_run Some by (simp add: Let_def)
  qed
qed

lemma url_part_at:
  "f \<in> ur_field_set u \<Longrightarrow> ur_off u f = of_nat i \<Longrightarrow> ur_len u f = of_nat n \<Longrightarrow> i + n < 65536 \<Longrightarrow>
     url_part buf u f = Some (take n (drop i buf))"
  by (simp add: url_part_def unat_of_nat take_bit_eq_mod)

text \<open>The URL of the given parts, and the fields after each of the two passes over it.\<close>

definition url_bytes :: "bytes \<Rightarrow> bytes \<Rightarrow> bytes option \<Rightarrow> bytes \<Rightarrow> bytes" where
  "url_bytes scheme host port path =
     scheme @ [c_colon, c_slash, c_slash] @ host @ port_bytes port @ path"

definition wf_url_parts :: "bytes \<Rightarrow> bytes \<Rightarrow> bytes option \<Rightarrow> bytes \<Rightarrow> bool" where
  "wf_url_parts scheme host port path \<longleftrightarrow>
     scheme \<noteq> [] \<and> (\<forall>c \<in> set scheme. is_alpha c) \<and> host \<noteq> [] \<and> (\<forall>c \<in> set host. is_host_char c)
     \<and> (case port of None \<Rightarrow> True | Some ds \<Rightarrow> ds \<noteq> [] \<and> (\<forall>d \<in> set ds. is_num_char d))
     \<and> (path = [] \<or> hd path = c_slash \<and> (\<forall>c \<in> set path. is_url_char c))"

definition scanned :: "bytes \<Rightarrow> bytes \<Rightarrow> bytes option \<Rightarrow> bytes \<Rightarrow> http_parser_url \<Rightarrow> http_parser_url" where
  "scanned scheme host port path u =
     (let k = length scheme + 3; n = length (host @ port_bytes port);
          v = url_grow UF_HOST n (url_begin UF_HOST k
                (url_grow UF_SCHEMA (length scheme) (url_begin UF_SCHEMA 0 u)))
      in if path = [] then v else url_grow UF_PATH (length path) (url_begin UF_PATH (k + n) v))"

definition located :: "bytes \<Rightarrow> bytes \<Rightarrow> bytes option \<Rightarrow> bytes \<Rightarrow> http_parser_url \<Rightarrow> http_parser_url" where
  "located scheme host port path u =
     (let k = length scheme + 3;
          v = scanned scheme host port path u;
          w = url_grow UF_HOST (length host)
                (v\<lparr>ur_len := (ur_len v)(UF_HOST := 0), ur_off := (ur_off v)(UF_HOST := of_nat k)\<rparr>)
      in case port of None \<Rightarrow> w
         | Some ds \<Rightarrow> url_grow UF_PORT (length ds) (url_begin UF_PORT (Suc (k + length host)) w))"

lemma url_loop_parts:
  assumes "wf_url_parts scheme host port path"
  shows "url_loop 0 (url_bytes scheme host port path) s_req_spaces_before_url None False u =
     Inr (Some False, scanned scheme host port path u)"
proof -
  obtain c0 sc where scheme: "scheme = c0 # sc" using assms by (cases scheme) (auto simp: wf_url_parts_def)
  obtain c1 hc where host: "host = c1 # hc" using assms by (cases host) (auto simp: wf_url_parts_def)
  let ?k = "length scheme + 3" and ?hp = "host @ port_bytes port"
  let ?q = "?k + length ?hp"
  let ?us = "url_grow UF_SCHEMA (length scheme) (url_begin UF_SCHEMA 0 u)"
  let ?uh = "url_grow UF_HOST (length ?hp) (url_begin UF_HOST ?k ?us)"
  have chars: "\<forall>c \<in> set (hc @ port_bytes port). parse_url_char s_req_server c = Some s_req_server"
    using assms host server_chars is_num_host
    by (auto simp: wf_url_parts_def port_bytes_def split: option.splits)
  have "url_loop 0 (url_bytes scheme host port path) s_req_spaces_before_url None False u
      = url_loop (length scheme) ([c_colon, c_slash, c_slash] @ ?hp @ path) s_req_schema (Some UF_SCHEMA) False ?us"
    using url_loop_field [of s_req_spaces_before_url c0 s_req_schema sc UF_SCHEMA None 0] assms schema_chars
    by (simp add: url_bytes_def wf_url_parts_def scheme)
  also have "\<dots> = url_loop ?k (?hp @ path) s_req_server_start (Some UF_SCHEMA) False ?us"
    by (rule url_loop_slashes)
  also have "\<dots> = url_loop ?q path s_req_server (Some UF_HOST) False ?uh"
    using url_loop_field [of s_req_server_start c1 s_req_server "hc @ port_bytes port" UF_HOST
        "Some UF_SCHEMA" ?k path False ?us] chars assms server_chars [of c1]
    by (simp add: host wf_url_parts_def)
  also have "\<dots> = Inr (Some False, scanned scheme host port path u)"
  proof (cases path)
    case Nil
    then show ?thesis by (simp add: scanned_def Let_def)
  next
    case (Cons c cs)
    then have "c = c_slash" "\<forall>c \<in> set cs. parse_url_char s_req_path c = Some s_req_path"
      using assms path_chars by (auto simp: wf_url_parts_def)
    moreover have "parse_url_char s_req_server c_slash = Some s_req_path"
      by (simp add: parse_url_char_def parse_server_char_def)
    ultimately show ?thesis
      using url_loop_field [of s_req_server c_slash s_req_path cs UF_PATH "Some UF_HOST" ?q "[]" False ?uh] Cons
      by (simp add: scanned_def Let_def)
  qed
  finally show ?thesis .
qed

lemma slice_mid: "buf = pre @ xs @ post \<Longrightarrow> n = length pre \<Longrightarrow> take (length xs) (drop n buf) = xs"
  by simp

lemma host_located:
  assumes "wf_url_parts scheme host port path" "length (url_bytes scheme host port path) < 65536"
  shows "http_parse_host (url_bytes scheme host port path) (scanned scheme host port path u) False =
     Inr (0, located scheme host port path u)"
proof -
  let ?k = "length scheme + 3" and ?hp = "host @ port_bytes port" and ?v = "scanned scheme host port path u"
  let ?buf = "url_bytes scheme host port path"
  have "?k < 65536" "length ?hp < 65536" using assms(2) by (auto simp: url_bytes_def)
  then have off: "unat (ur_off ?v UF_HOST) = ?k" "unat (ur_len ?v UF_HOST) = length ?hp"
    by (simp_all add: scanned_def url_grow_def url_begin_def unat_of_nat take_bit_eq_mod Let_def
        del: of_nat_add of_nat_Suc)
  have "take (length ?hp) (drop ?k ?buf) = ?hp"
    by (rule slice_mid [of _ "scheme @ [c_colon, c_slash, c_slash]" _ path]) (simp_all add: url_bytes_def)
  moreover have "UF_HOST \<in> ur_field_set ?v" by (simp add: scanned_def url_grow_def url_begin_def Let_def)
  ultimately show ?thesis
    using host_loop_parts [of host port ?k ?buf "?v\<lparr>ur_len := (ur_len ?v)(UF_HOST := 0)\<rparr>"] off assms(1)
    by (simp add: http_parse_host_def located_def wf_url_parts_def Let_def del: of_nat_add)
qed

lemma located_fields:
  "ur_field_set (located scheme host port path u) = ur_field_set u \<union> {UF_SCHEMA, UF_HOST}
     \<union> (if port = None then {} else {UF_PORT}) \<union> (if path = [] then {} else {UF_PATH})"
  "ur_off (located scheme host port path u) UF_SCHEMA = of_nat 0"
  "ur_len (located scheme host port path u) UF_SCHEMA = of_nat (length scheme)"
  "ur_off (located scheme host port path u) UF_HOST = of_nat (length scheme + 3)"
  "ur_len (located scheme host port path u) UF_HOST = of_nat (length host)"
  "path \<noteq> [] \<Longrightarrow> ur_off (located scheme host port path u) UF_PATH =
     of_nat (length scheme + 3 + length (host @ port_bytes port))"
  "path \<noteq> [] \<Longrightarrow> ur_len (located scheme host port path u) UF_PATH = of_nat (length path)"
  "port = Some ds \<Longrightarrow> ur_off (located scheme host port path u) UF_PORT =
     of_nat (Suc (length scheme + 3 + length host))"
  "port = Some ds \<Longrightarrow> ur_len (located scheme host port path u) UF_PORT = of_nat (length ds)"
  by (auto simp: located_def scanned_def url_grow_def url_begin_def Let_def simp del: of_nat_Suc of_nat_add
      split: option.splits)

lemma located_parts:
  assumes "length (url_bytes scheme host port path) < 65536" "ur_field_set u = {}"
    and "v = located scheme host port path u" "buf = url_bytes scheme host port path"
  shows "url_part buf v UF_SCHEMA = Some scheme" "url_part buf v UF_HOST = Some host"
    "url_part buf v UF_PORT = port" "url_part buf v UF_PATH = (if path = [] then None else Some path)"
proof -
  let ?k = "length scheme + 3" and ?hp = "host @ port_bytes port"
  note f = located_fields [where scheme = scheme and host = host and port = port and path = path
      and u = u, folded assms(3)]
  have small: "0 + length scheme < 65536" "?k + length host < 65536" "?k + length ?hp + length path < 65536"
    "port = Some ds \<Longrightarrow> Suc (?k + length host) + length ds < 65536" for ds
    using assms(1) by (auto simp: url_bytes_def port_bytes_def)
  have "take (length scheme) (drop 0 buf) = scheme"
    by (rule slice_mid [of _ "[]"]) (simp_all add: assms(4) url_bytes_def)
  with url_part_at [OF _ f(2,3) small(1), of buf] f(1) show "url_part buf v UF_SCHEMA = Some scheme" by simp
  have "take (length host) (drop ?k buf) = host"
    by (rule slice_mid [of _ "scheme @ [c_colon, c_slash, c_slash]"]) (simp_all add: assms(4) url_bytes_def)
  with url_part_at [OF _ f(4,5) small(2), of buf] f(1) show "url_part buf v UF_HOST = Some host" by simp
  show "url_part buf v UF_PORT = port"
  proof (cases port)
    case None
    with f(1) assms(2) show ?thesis by (simp add: url_part_def)
  next
    case (Some ds)
    have "take (length ds) (drop (Suc (?k + length host)) buf) = ds"
      by (rule slice_mid [of _ "scheme @ [c_colon, c_slash, c_slash] @ host @ [c_colon]"])
        (simp_all add: assms(4) url_bytes_def port_bytes_def Some)
    with url_part_at [OF _ f(8) [OF Some] f(9) [OF Some] small(4) [OF Some], of buf] f(1) Some
    show ?thesis by simp
  qed
  show "url_part buf v UF_PATH = (if path = [] then None else Some path)"
  proof (cases "path = []")
    case True
    with f(1) assms(2) show ?thesis by (simp add: url_part_def)
  next
    case False
    have "take (length path) (drop (?k + length ?hp) buf) = path"
      by (rule slice_mid [of _ "scheme @ [c_colon, c_slash, c_slash] @ ?hp" _ "[]"])
        (simp_all add: assms(4) url_bytes_def)
    with url_part_at [OF _ f(6,7) [OF False] small(3), of buf] f(1) False
    show ?thesis by simp
  qed
qed

lemma parse_port_value:
  assumes "url_part buf v UF_PORT = Some ds" "\<forall>d \<in> set ds. is_num_char d"
    and "unat (ur_off v UF_PORT) + unat (ur_len v UF_PORT) \<le> length buf"
  shows "parse_url_port buf v =
     (if dec_value ds \<le> 65535 then Inr (0, v\<lparr>ur_port := of_nat (dec_value ds)\<rparr>) else Inr (1, v))"
proof -
  have "port_loop ds 0 = (if dec_value ds \<le> 65535 then Some (of_nat (dec_value ds)) else None)"
    using port_loop_value [of ds 0] assms(2) by (simp add: dec_value_def Let_def)
  moreover have "ucast (of_nat n :: u64) = (of_nat n :: u16)" if "n \<le> 65535" for n
    using that by (simp add: unsigned_of_nat take_bit_nat_eq_self)
  ultimately show ?thesis
    using assms(1,3) by (auto simp: parse_url_port_def url_part_def Let_def split: if_splits)
qed

text \<open>
  C28. The URL parser finds the parts of every URL \<^verbatim>\<open>scheme://host:port/path\<close> of fewer than 65536
  bytes: it succeeds, each part that is there is reported with exactly its bytes, a part that
  is not there is not reported, and the port comes out as its number; a port above 65535 is
  refused.
\<close>

theorem url_parts_found:
  assumes "wf_url_parts scheme host port path" "length (url_bytes scheme host port path) < 65536"
  shows "\<exists>u'. http_parser_parse_url (url_bytes scheme host port path) False u =
         Inr (case port of None \<Rightarrow> 0 | Some ds \<Rightarrow> if dec_value ds \<le> 65535 then 0 else 1, u')
     \<and> url_part (url_bytes scheme host port path) u' UF_SCHEMA = Some scheme
     \<and> url_part (url_bytes scheme host port path) u' UF_HOST = Some host
     \<and> url_part (url_bytes scheme host port path) u' UF_PORT = port
     \<and> url_part (url_bytes scheme host port path) u' UF_PATH = (if path = [] then None else Some path)
     \<and> (\<forall>ds. port = Some ds \<and> dec_value ds \<le> 65535 \<longrightarrow> ur_port u' = of_nat (dec_value ds))"
proof -
  let ?buf = "url_bytes scheme host port path" and ?u0 = "u\<lparr>ur_port := 0, ur_field_set := {}\<rparr>"
  define v where v: "v = located scheme host port path ?u0"
  have sch: "UF_SCHEMA \<in> ur_field_set (scanned scheme host port path ?u0)"
    "UF_HOST \<in> ur_field_set (scanned scheme host port path ?u0)"
    by (simp_all add: scanned_def url_grow_def url_begin_def Let_def)
  have "?buf \<noteq> []" by (simp add: url_bytes_def)
  then have whole: "http_parser_parse_url ?buf False u = parse_url_port ?buf v"
    using url_loop_parts [OF assms(1), of ?u0] host_located [OF assms, of ?u0] sch
    by (simp add: http_parser_parse_url_def v)
  note parts = located_parts [OF assms(2) _ v refl]
  have keep: "url_part ?buf (v\<lparr>ur_port := x\<rparr>) f = url_part ?buf v f" for x f
    by (simp add: url_part_def)
  show ?thesis
  proof (cases port)
    case None
    then have "parse_url_port ?buf v = Inr (0, v)"
      using located_fields(1) [of scheme host port path ?u0, folded v] by (simp add: parse_url_port_def)
    with whole parts None show ?thesis by (intro exI [of _ v]) simp
  next
    case (Some ds)
    have "unat (ur_off v UF_PORT) + unat (ur_len v UF_PORT) \<le> length ?buf"
      using Some assms(2) unat_of_nat_le [of "Suc (length scheme + 3 + length host)"] unat_of_nat_le [of "length ds"]
      unfolding v located_fields(8,9) [OF Some]
      by (simp add: url_bytes_def port_bytes_def del: of_nat_Suc of_nat_add)
    moreover have "\<forall>d \<in> set ds. is_num_char d" using assms(1) Some by (simp add: wf_url_parts_def)
    ultimately have "parse_url_port ?buf v =
        (if dec_value ds \<le> 65535 then Inr (0, v\<lparr>ur_port := of_nat (dec_value ds)\<rparr>) else Inr (1, v))"
      using parts(3) Some by (intro parse_port_value) simp_all
    with whole parts Some keep show ?thesis
      by (cases "dec_value ds \<le> 65535") auto
  qed
qed

theorem url_parts_found_witness:
  "\<exists>u'. http_parser_parse_url (bytes_of ''rtsp://h:554/a'') False http_parser_url_init = Inr (0, u')
     \<and> ur_port u' = 554 \<and> url_part (bytes_of ''rtsp://h:554/a'') u' UF_PATH = Some (bytes_of ''/a'')"
proof -
  let ?s = "bytes_of ''rtsp''" and ?h = "bytes_of ''h''" and ?p = "Some (bytes_of ''554'')" and ?a = "bytes_of ''/a''"
  have buf: "url_bytes ?s ?h ?p ?a = bytes_of ''rtsp://h:554/a''"
    by (simp add: url_bytes_def port_bytes_def bytes_of_def byte_of_char_def)
  have wf: "wf_url_parts ?s ?h ?p ?a"
    by (simp add: wf_url_parts_def bytes_of_def byte_of_char_def is_alpha_def is_host_char_def
        is_alphanum_def is_num_char_def is_url_char_iff lower_def)
  have port: "dec_value (bytes_of ''554'') = 554"
    by (simp add: dec_value_def bytes_of_def byte_of_char_def)
  have len: "length (url_bytes ?s ?h ?p ?a) < 65536" unfolding buf by (simp add: bytes_of_def)
  show ?thesis
    using url_parts_found [OF wf len, of http_parser_url_init] unfolding buf by (auto simp: port)
qed

end
