(* ===== verification/Http_Parser_Safe.thy ===== *)
theory Http_Parser_Safe
  imports Http_Parser Http_Url_Proofs
begin

text \<open>
  The parser is safe: whatever bytes arrive, in whatever pieces, and whatever its callbacks
  answer, no assertion of the source fails, no string constant is read outside its bounds, the
  loops end, and the number of bytes reported as parsed is at most the number given.

  The proof follows the progress and preservation pattern: an invariant of the parser between
  two calls (\<open>parser_ok\<close>) and of the local variables (\<open>exec_ok\<close>), and for each case of the
  switch that it makes progress (\<open>good\<close>).
\<close>

subsection \<open>The invariant\<close>

text \<open>The only mark that may be set in a state.\<close>

definition mark_of_state :: "http_state \<Rightarrow> mark option" where
  "mark_of_state s =
     (case s of
        s_header_field \<Rightarrow> Some M_header_field
      | s_header_value \<Rightarrow> Some M_header_value
      | Url u \<Rightarrow> if u = s_req_spaces_before_url then None else Some M_url
      | Res r \<Rightarrow> if r = s_res_status then Some M_status else None
      | s_body_identity \<Rightarrow> Some M_body
      | s_body_identity_eof \<Rightarrow> Some M_body
      | s_chunk_data \<Rightarrow> Some M_body
      | s_chunk_data_almost_done \<Rightarrow> Some M_body
      | _ \<Rightarrow> None)"

definition field_states :: "header_state set" where
  "field_states = {h_general, h_C, h_CO, h_CON, h_matching_connection, h_matching_proxy_connection,
     h_matching_content_length, h_matching_transfer_encoding, h_matching_upgrade, h_connection,
     h_content_length, h_transfer_encoding, h_upgrade}"

text \<open>What holds in each state; \<open>k\<close> is the count of header bytes at the start of a chunk.\<close>

definition wf_state :: "u32 \<Rightarrow> http_state \<Rightarrow> http_parser \<Rightarrow> u32 \<Rightarrow> bool" where
  "wf_state k s pr n =
     (case s of
        s_chunk_size_start \<Rightarrow> F_CHUNKED \<in> pr_flags pr \<and> n = k
      | s_chunk_size \<Rightarrow> F_CHUNKED \<in> pr_flags pr \<and> pr_content_length pr \<noteq> ULLONG_MAX
      | s_chunk_parameters \<Rightarrow> F_CHUNKED \<in> pr_flags pr \<and> pr_content_length pr \<noteq> ULLONG_MAX
      | s_chunk_size_almost_done \<Rightarrow> F_CHUNKED \<in> pr_flags pr \<and> pr_content_length pr \<noteq> ULLONG_MAX
      | s_chunk_data \<Rightarrow> F_CHUNKED \<in> pr_flags pr \<and> pr_content_length pr \<noteq> 0
          \<and> pr_content_length pr \<noteq> ULLONG_MAX
      | s_chunk_data_almost_done \<Rightarrow> F_CHUNKED \<in> pr_flags pr \<and> pr_content_length pr = 0
      | s_chunk_data_done \<Rightarrow> F_CHUNKED \<in> pr_flags pr
      | s_body_identity \<Rightarrow> pr_content_length pr \<noteq> 0 \<and> pr_content_length pr \<noteq> ULLONG_MAX
      | s_header_field \<Rightarrow> pr_header_state pr \<in> field_states
      | s_header_value \<Rightarrow> pr_header_state pr \<notin> {h_connection, h_transfer_encoding}
      | s_req_method \<Rightarrow> pr_index pr \<le> length (method_strings (pr_method pr))
      | _ \<Rightarrow> True)"

definition parser_ok :: "http_parser \<Rightarrow> bool" where
  "parser_ok pr \<longleftrightarrow> (pr_http_errno pr = HPE_OK \<longrightarrow> wf_state 0 (pr_state pr) pr (pr_nread pr))"

definition exec_ok :: "u32 \<Rightarrow> 'u exec \<Rightarrow> bool" where
  "exec_ok k x \<longleftrightarrow> pr_http_errno (x_parser x) = HPE_OK
     \<and> wf_state k (x_state x) (x_parser x) (x_nread x)
     \<and> (\<forall>m. mark_of_state (x_state x) \<noteq> Some m \<longrightarrow> x_marks x m = None)"

text \<open>A byte is handled again only in a state of lower rank.\<close>

definition rank :: "http_state \<Rightarrow> nat" where
  "rank s =
     (case s of
        s_header_value \<Rightarrow> 4 | s_header_value_lws \<Rightarrow> 4 | s_header_value_discard_lws \<Rightarrow> 4
      | s_header_field_start \<Rightarrow> 3 | s_headers_almost_done \<Rightarrow> 2
      | Res s_res_status_code \<Rightarrow> 2 | Res s_res_status_start \<Rightarrow> 1
      | s_start_req_or_res \<Rightarrow> 1 | s_body_identity \<Rightarrow> 1
      | _ \<Rightarrow> 0)"

text \<open>What a case may do next, with \<open>n\<close> bytes of input, from the state \<open>x\<close>.\<close>

definition returns_ok :: "nat \<Rightarrow> nat \<Rightarrow> 'u exec \<Rightarrow> bool" where
  "returns_ok n v y \<longleftrightarrow>
     v \<le> n \<and> parser_ok (x_parser y) \<and> (v = 0 \<longrightarrow> pr_http_errno (x_parser y) \<noteq> HPE_OK)"

definition good_flow :: "nat \<Rightarrow> 'u exec \<Rightarrow> 'u exec flow \<Rightarrow> bool" where
  "good_flow n x fl =
     (case fl of
        Break y \<Rightarrow> exec_ok 0 y \<and> x_p x \<le> x_p y \<and> x_p y < n
      | Reexecute y \<Rightarrow> exec_ok 1 y \<and> x_p x \<le> x_p y \<and> x_p y < n \<and> rank (x_state y) < rank (x_state x)
      | Goto_error y \<Rightarrow> pr_http_errno (x_parser y) \<noteq> HPE_OK \<and> x_p y \<le> n
      | Return v y \<Rightarrow> returns_ok n v y)"

definition good :: "nat \<Rightarrow> 'u exec \<Rightarrow> 'u case_result \<Rightarrow> bool" where
  "good n x r \<longleftrightarrow> (\<exists>fl. r = Inr fl \<and> good_flow n x fl)"

subsection \<open>Rules for the macros\<close>

text \<open>What a callback changes: the owner's state, and the stored copy of the parser's state.\<close>

definition touch :: "'u \<Rightarrow> http_state \<Rightarrow> 'u exec \<Rightarrow> 'u exec" where
  "touch u s x = x\<lparr>x_user := u, x_parser := (x_parser x)\<lparr>pr_state := s\<rparr>\<rparr>"

definition unmark :: "mark \<Rightarrow> 'u exec \<Rightarrow> 'u exec" where
  "unmark m x = x\<lparr>x_marks := (x_marks x)(m := None)\<rparr>"

lemma touch_simps [simp]:
  "x_state (touch u s x) = x_state x" "x_nread (touch u s x) = x_nread x" "x_p (touch u s x) = x_p x"
  "x_marks (touch u s x) = x_marks x" "x_ch (touch u s x) = x_ch x"
  "x_parser (touch u s x) = (x_parser x)\<lparr>pr_state := s\<rparr>"
  by (simp_all add: touch_def)

lemma unmark_simps [simp]:
  "x_state (unmark m x) = x_state x" "x_nread (unmark m x) = x_nread x" "x_p (unmark m x) = x_p x"
  "x_marks (unmark m x) = (x_marks x)(m := None)" "x_ch (unmark m x) = x_ch x"
  "x_parser (unmark m x) = x_parser x"
  by (simp_all add: unmark_def)

lemma goto_state_simps [simp]:
  "x_state (goto_state s x) = s" "x_nread (goto_state s x) = x_nread x" "x_p (goto_state s x) = x_p x"
  "x_marks (goto_state s x) = x_marks x" "x_ch (goto_state s x) = x_ch x"
  "x_parser (goto_state s x) = x_parser x"
  by (simp_all add: goto_state_def)

lemma with_parser_simps [simp]:
  "x_state (with_parser f x) = x_state x" "x_nread (with_parser f x) = x_nread x"
  "x_p (with_parser f x) = x_p x" "x_marks (with_parser f x) = x_marks x" "x_ch (with_parser f x) = x_ch x"
  "x_parser (with_parser f x) = f (x_parser x)" "x_user (with_parser f x) = x_user x"
  by (simp_all add: with_parser_def)

lemma set_mark_simps [simp]:
  "x_state (set_mark m x) = x_state x" "x_nread (set_mark m x) = x_nread x" "x_p (set_mark m x) = x_p x"
  "x_ch (set_mark m x) = x_ch x" "x_parser (set_mark m x) = x_parser x"
  "x_marks (set_mark m x) = (if x_marks x m = None then (x_marks x)(m := Some (x_p x)) else x_marks x)"
  by (simp_all add: set_mark_def)

lemma wf_state_touch [simp]: "wf_state k s (pr\<lparr>pr_state := s'\<rparr>) n = wf_state k s pr n"
  "wf_state k s (pr\<lparr>pr_nread := i\<rparr>) n = wf_state k s pr n"
  by (simp_all add: wf_state_def split: http_state.split)

lemma good_next: "exec_ok 0 y \<Longrightarrow> x_p x \<le> x_p y \<Longrightarrow> x_p y < n \<Longrightarrow> good n x (next_byte y)"
  by (simp add: good_def next_byte_def good_flow_def)

lemma good_again:
  "exec_ok 1 y \<Longrightarrow> x_p x \<le> x_p y \<Longrightarrow> x_p y < n \<Longrightarrow> rank (x_state y) < rank (x_state x) \<Longrightarrow>
   good n x (Inr (Reexecute y))"
  by (simp add: good_def good_flow_def)

lemma good_fail: "e \<noteq> HPE_OK \<Longrightarrow> x_p y \<le> n \<Longrightarrow> good n x (fail e y)"
  by (simp add: good_def fail_def good_flow_def set_errno_def)

lemma good_strict: "x_p y \<le> n \<Longrightarrow> (\<not> cond \<Longrightarrow> good n x k) \<Longrightarrow> good n x (strict_check cond y k)"
  by (simp add: strict_check_def good_fail)

lemma good_expect:
  "x_p x < n \<Longrightarrow> exec_ok 0 (goto_state s x) \<Longrightarrow> good n x (expect c s x)"
  by (auto simp: expect_def intro!: good_strict good_next)

lemma good_count:
  "x_p y \<le> n \<Longrightarrow> good n x (k (y\<lparr>x_nread := x_nread y + of_nat v\<rparr>)) \<Longrightarrow> good n x (count_header_size v y k)"
  by (simp add: count_header_size_def good_fail Let_def)

lemma good_store:
  "v \<le> n \<Longrightarrow>
   (pr_http_errno (x_parser y) = HPE_OK \<Longrightarrow> 0 < v \<and> wf_state 0 (x_state y) (x_parser y) (x_nread y)) \<Longrightarrow>
   good n x (store_return v y)"
  by (auto simp: good_def store_return_def good_flow_def parser_ok_def returns_ok_def)

lemma returns_bad [simp]: "e \<noteq> HPE_OK \<Longrightarrow> returns_ok n v (set_errno e x) \<longleftrightarrow> v \<le> n"
  by (simp add: parser_ok_def set_errno_def returns_ok_def)

lemma good_return: "returns_ok n v y \<Longrightarrow> good n x (Inr (Return v y))"
  by (simp add: good_def good_flow_def)

lemma touch_eq: "(with_parser (\<lambda>pr. pr\<lparr>pr_state := s\<rparr>) y)\<lparr>x_user := u\<rparr> = touch u s y"
  by (simp add: touch_def with_parser_def)

lemma good_notify:
  assumes "pr_http_errno (x_parser y) = HPE_OK" "er \<le> n" "err \<noteq> HPE_OK"
    and k: "\<And>u s. good n x (k (touch u s y))"
  shows "good n x (callback_notify cb err er y k)"
proof (cases cb)
  case None
  have "touch (x_user y) (pr_state (x_parser y)) y = y" by (simp add: touch_def)
  with k have "good n x (k y)" by metis
  with None assms(1) show ?thesis by (simp add: callback_notify_def)
next
  case (Some f)
  obtain r u where "f (x_parser (with_parser (\<lambda>pr. pr\<lparr>pr_state := x_state y\<rparr>) y)) (x_user y) = (r, u)"
    by (cases "f (x_parser (with_parser (\<lambda>pr. pr\<lparr>pr_state := x_state y\<rparr>) y)) (x_user y)")
  then have "callback_notify cb err er y k =
      (if r \<noteq> 0 then Inr (Return er (set_errno err (touch u (x_state y) y))) else k (touch u (x_state y) y))"
    using assms(1) Some touch_eq [of u "x_state y" y] by (simp add: callback_notify_def Let_def with_parser_def)
  with assms(2,3) k show ?thesis by (simp add: good_return)
qed

lemma callback_data_rule:
  assumes e: "pr_http_errno (x_parser y) = HPE_OK"
    and r: "\<And>z e. e \<noteq> HPE_OK \<Longrightarrow> P (Inr (Return er (set_errno e z)))"
    and k: "\<And>u s. P (k (unmark m (touch u s y)))"
  shows "P (callback_data S data m stop er y k)"
proof -
  have "touch (x_user y) (pr_state (x_parser y)) y = y" by (simp add: touch_def)
  then have clear: "P (k (unmark m y))" using k by metis
  have bad: "data_errno m \<noteq> HPE_OK" by (cases m) simp_all
  show ?thesis
  proof (cases "x_marks y m")
    case None
    then have "unmark m y = y" by (simp add: unmark_def fun_upd_idem)
    with clear None e show ?thesis by (simp add: callback_data_def)
  next
    case (Some i)
    show ?thesis
    proof (cases "on_data S m")
      case None
      with clear Some e show ?thesis by (simp add: callback_data_def unmark_def)
    next
      case cb: (Some f)
      let ?x = "with_parser (\<lambda>pr. pr\<lparr>pr_state := x_state y\<rparr>) y" and ?bs = "take (stop - i) (drop i data)"
      obtain c u where "f (x_parser ?x) ?bs (x_user y) = (c, u)"
        by (cases "f (x_parser ?x) ?bs (x_user y)")
      then have "callback_data S data m stop er y k =
          (if c \<noteq> 0 then Inr (Return er (set_errno (data_errno m) (touch u (x_state y) y)))
           else k (unmark m (touch u (x_state y) y)))"
        using e Some cb by (simp add: callback_data_def Let_def unmark_def touch_eq)
      with r k bad show ?thesis by simp
    qed
  qed
qed

lemma good_data:
  "pr_http_errno (x_parser y) = HPE_OK \<Longrightarrow> er \<le> n \<Longrightarrow> (\<And>u s. good n x (k (unmark m (touch u s y)))) \<Longrightarrow>
   good n x (callback_data S data m stop er y k)"
  by (rule callback_data_rule) (auto intro: good_return)

lemma good_data_advance:
  "pr_http_errno (x_parser y) = HPE_OK \<Longrightarrow> x_p y < n \<Longrightarrow> (\<And>u s. good n x (k (unmark m (touch u s y)))) \<Longrightarrow>
   good n x (data_advance S data m y k)"
  by (simp add: data_advance_def good_data)

lemma good_data_noadvance:
  "pr_http_errno (x_parser y) = HPE_OK \<Longrightarrow> x_p y \<le> n \<Longrightarrow> (\<And>u s. good n x (k (unmark m (touch u s y)))) \<Longrightarrow>
   good n x (data_noadvance S data m y k)"
  by (simp add: data_noadvance_def good_data)

subsection \<open>Every case makes progress\<close>

text \<open>The rewrite rules for the invariant after a step.\<close>

named_theorems step_simps

lemmas [step_simps] = exec_ok_def wf_state_def mark_of_state_def rank_def set_index_def
  reset_message_def set_header_state_def add_flag_def set_major_def set_minor_def set_status_def

lemma case_dead_good: "x_state x = s_dead \<Longrightarrow> exec_ok k x \<Longrightarrow> x_p x < n \<Longrightarrow> good n x (case_dead x)"
  by (auto simp: case_dead_def step_simps intro!: good_next good_fail)

lemma case_start_req_or_res_good:
  "x_state x = s_start_req_or_res \<Longrightarrow> exec_ok k x \<Longrightarrow> x_p x < n \<Longrightarrow> good n x (case_start_req_or_res S x)"
  by (auto simp: case_start_req_or_res_def step_simps Let_def
      intro!: good_next good_notify good_again)

lemma case_res_or_resp_good:
  "x_state x = s_res_or_resp_H \<Longrightarrow> exec_ok k x \<Longrightarrow> x_p x < n \<Longrightarrow> good n x (case_res_or_resp_H x)"
  "x_state x = s_res_or_resp_R \<Longrightarrow> exec_ok k x \<Longrightarrow> x_p x < n \<Longrightarrow> good n x (case_res_or_resp_R x)"
  by (auto simp: case_res_or_resp_H_def case_res_or_resp_R_def step_simps intro!: good_next good_fail)

lemma case_start_res_good:
  "x_state x = s_start_res \<Longrightarrow> exec_ok k x \<Longrightarrow> x_p x < n \<Longrightarrow> good n x (case_start_res S x)"
  by (auto simp: case_start_res_def step_simps Let_def intro!: good_next good_notify good_fail)

lemma version_good:
  "x_p x < n \<Longrightarrow> exec_ok 0 (goto_state s (with_parser (f (digit_of (x_ch x))) x)) \<Longrightarrow>
     good n x (version_digit f s x)"
  "x_p x < n \<Longrightarrow> exec_ok 0 (goto_state s x) \<Longrightarrow> good n x (version_char c s x)"
  by (auto simp: version_digit_def version_char_def intro!: good_next good_fail)

lemma case_res_good:
  "x_state x = Res s \<Longrightarrow> exec_ok k x \<Longrightarrow> x_p x < n \<Longrightarrow> good n x (case_res S data s x)"
  by (cases s)
    (auto simp: case_res_def step_simps Let_def
      intro!: good_next good_expect good_fail good_again good_data_advance version_good)

lemma method_of_letter_length: "method_of_letter c = Some m \<Longrightarrow> 1 \<le> length (method_strings m)"
  by (auto simp: method_of_letter_def split: if_splits)

lemma method_switch_length: "method_switch m i c = Some m' \<Longrightarrow> i + 1 \<le> length (method_strings m')"
  by (cases m) (auto simp: method_switch_def split: if_splits)

lemma length_method_strings: "length (method_strings m) < 31"
  by (cases m) simp_all

lemma case_start_req_good:
  "x_state x = s_start_req \<Longrightarrow> exec_ok k x \<Longrightarrow> x_p x < n \<Longrightarrow> good n x (case_start_req S x)"
  using method_of_letter_length
  by (auto simp: case_start_req_def step_simps Let_def intro!: good_next good_fail good_notify split: option.split)

lemma case_req_method_good:
  assumes "x_state x = s_req_method" "exec_ok k x" "x_p x < n"
  shows "good n x (case_req_method x)"
proof -
  let ?m = "pr_method (x_parser x)" and ?i = "pr_index (x_parser x)"
  have i: "?i \<le> length (method_strings ?m)" "?i < 31"
    using assms(1,2) length_method_strings [of ?m] by (auto simp: exec_ok_def wf_state_def)
  obtain c where c: "string_at (method_strings ?m) ?i = Inr c" and z: "c \<noteq> 0 \<Longrightarrow> ?i < length (method_strings ?m)"
    using i(1) by (cases "?i < length (method_strings ?m)") (simp_all add: string_at_def)
  have small: "(?i + 1) mod 32 = ?i + 1" using i by simp
  have switch: "?i + 1 \<le> length (method_strings m')" if "method_switch ?m ?i (x_ch x) = Some m'" for m'
    using that by (rule method_switch_length)
  show ?thesis
    using assms c z switch i
    by (auto simp: case_req_method_def step_simps Let_def small simp del: One_nat_def
        intro!: good_next good_fail split: option.split)
qed

lemma url_step_good:
  "x_p x < n \<Longrightarrow> exec_ok k x \<Longrightarrow> x_state x = Url s0 \<Longrightarrow> s0 \<noteq> s_req_spaces_before_url \<Longrightarrow> good n x (url_step s x)"
  using parse_url_char_moves [of s "x_ch x"]
  by (auto simp: url_step_def step_simps intro!: good_next good_fail split: option.split)

lemma case_url_good:
  assumes "x_state x = Url s" "exec_ok k x" "x_p x < n"
  shows "good n x (case_url S data s x)"
proof (cases "s = s_req_spaces_before_url")
  case True
  with assms show ?thesis
    using parse_url_char_moves [of _ "x_ch x"]
    by (auto simp: case_url_def url_step_def step_simps intro!: good_next good_fail split: option.split if_splits)
next
  case False
  with assms url_step_good [OF assms(3,2,1) False, of s] show ?thesis
    by (auto simp: case_url_def step_simps intro!: good_next good_fail good_data_advance)
qed

lemma case_req_good:
  "x_state x = Req s \<Longrightarrow> exec_ok k x \<Longrightarrow> x_p x < n \<Longrightarrow> good n x (case_req s x)"
  by (cases s)
    (auto simp: case_req_def step_simps intro!: good_next good_expect good_fail version_good)


subsection \<open>Header names\<close>

text \<open>What a step over a name keeps.\<close>

definition field_ok :: "http_parser \<Rightarrow> bool" where
  "field_ok pr \<longleftrightarrow> pr_http_errno pr = HPE_OK \<and> pr_header_state pr \<in> field_states"

lemma field_ok_simps:
  "field_ok (pr\<lparr>pr_index := i\<rparr>) = field_ok pr"
  "field_ok (pr\<lparr>pr_uses_transfer_encoding := b\<rparr>) = field_ok pr"
  "field_ok (set_header_state h pr) \<longleftrightarrow> pr_http_errno pr = HPE_OK \<and> h \<in> field_states"
  by (simp_all add: field_ok_def set_header_state_def)

lemma in_field_states:
  "h_general \<in> field_states" "h_CO \<in> field_states" "h_CON \<in> field_states"
  "h_matching_connection \<in> field_states" "h_matching_content_length \<in> field_states"
  by (simp_all add: field_states_def)

lemma match_name_ok:
  assumes "length name < 31" "done \<in> field_states" "field_ok pr"
  shows "\<exists>pr'. match_name name done c pr = Inr pr' \<and> field_ok pr'"
proof -
  have g: "h_general \<in> field_states" by (simp add: field_states_def)
  show ?thesis
  proof (cases "length name < (pr_index pr + 1) mod 32")
    case True
    with assms g show ?thesis by (simp add: match_name_def set_header_state_def Let_def field_ok_def)
  next
    case False
    then obtain b where "string_at name ((pr_index pr + 1) mod 32) = Inr b"
      by (cases "(pr_index pr + 1) mod 32 < length name") (simp_all add: string_at_def)
    with False assms g show ?thesis
      by (simp add: match_name_def set_header_state_def Let_def field_ok_def)
  qed
qed

lemma field_char_ok:
  assumes "field_ok pr"
  shows "\<exists>pr'. field_char ch pr = Inr pr' \<and> field_ok pr'"
proof -
  have m: "\<exists>pr'. match_name name done (token ch) pr = Inr pr' \<and> field_ok pr'"
    if "length name < 31" "done \<in> field_states" for name "done"
    using that assms by (rule match_name_ok)
  obtain p1 where 1: "match_name ''connection'' h_connection (token ch) pr = Inr p1" "field_ok p1"
    using m [of "''connection''" h_connection] by (auto simp: field_states_def)
  obtain p2 where 2: "match_name ''proxy-connection'' h_connection (token ch) pr = Inr p2" "field_ok p2"
    using m [of "''proxy-connection''" h_connection] by (auto simp: field_states_def)
  obtain p3 where 3: "match_name ''content-length'' h_content_length (token ch) pr = Inr p3" "field_ok p3"
    using m [of "''content-length''" h_content_length] by (auto simp: field_states_def)
  obtain p4 where 4: "match_name ''transfer-encoding'' h_transfer_encoding (token ch) pr = Inr p4" "field_ok p4"
    using m [of "''transfer-encoding''" h_transfer_encoding] by (auto simp: field_states_def)
  obtain p5 where 5: "match_name ''upgrade'' h_upgrade (token ch) pr = Inr p5" "field_ok p5"
    using m [of "''upgrade''" h_upgrade] by (auto simp: field_states_def)
  have h: "pr_http_errno pr = HPE_OK" "pr_header_state pr \<in> field_states"
    using assms by (simp_all add: field_ok_def)
  have "pr_header_state pr = h_general \<or> pr_header_state pr \<in> field_states - {h_general}" using h by blast
  then show ?thesis unfolding field_char_def Let_def
    using assms h
    by (cases "pr_header_state pr")
      (simp_all add: 1 2 3 4 5 field_ok_simps in_field_states,
       simp_all add: field_states_def)
qed

lemma skip_tokens_less: "p < length data \<Longrightarrow> skip_tokens data p < length data"
proof -
  assume p: "p < length data"
  let ?l = "take (min (length data - p) HTTP_MAX_HEADER_SIZE - 1) (drop (Suc p) data)"
  have "length (takeWhile (\<lambda>c. token c \<noteq> 0) ?l) \<le> length ?l" by (rule length_takeWhile_le)
  also have "\<dots> \<le> length data - Suc p" by simp
  finally show ?thesis using p by (simp add: skip_tokens_def)
qed

lemma header_field_loop_ok:
  assumes "field_ok pr" "p \<le> length data"
  shows "\<exists>p' pr'. header_field_loop data p pr = Inr (p', pr') \<and> field_ok pr' \<and> p \<le> p' \<and> p' \<le> length data"
  using assms
proof (induction data p pr rule: header_field_loop.induct)
  case (1 data p pr)
  consider "length data \<le> p" | "p < length data" "token (data ! p) = 0"
    | "p < length data" "token (data ! p) \<noteq> 0" by linarith
  then show ?case
  proof cases
    case 3
    show ?thesis
    proof (cases "pr_header_state pr = h_general")
      case True
      have le: "Suc (skip_tokens data p) \<le> length data" "p \<le> Suc (skip_tokens data p)"
        using skip_tokens_less [OF 3(1)] skip_tokens_ge [of p data] by simp_all
      from "1.IH"(1) [OF _ 3(2) True "1.prems"(1) le(1)] 3 obtain p' pr' where
        "header_field_loop data (Suc (skip_tokens data p)) pr = Inr (p', pr')" "field_ok pr'"
        "Suc (skip_tokens data p) \<le> p'" "p' \<le> length data" by auto
      with 3 True le show ?thesis by (simp add: header_field_loop.simps [of data p pr])
    next
      case False
      obtain pr1 where pr1: "field_char (data ! p) pr = Inr pr1" "field_ok pr1"
        using field_char_ok [OF "1.prems"(1)] by blast
      from "1.IH"(2) [OF _ 3(2) False] pr1 3 obtain p' pr' where
        "header_field_loop data (Suc p) pr1 = Inr (p', pr')" "field_ok pr'" "Suc p \<le> p'" "p' \<le> length data"
        by (auto simp: Suc_le_eq)
      with pr1 3 False show ?thesis by (simp add: header_field_loop.simps [of data p pr])
    qed
  qed (use 1 in \<open>simp_all add: header_field_loop.simps [of data p]\<close>)
qed

lemma case_header_field_start_good:
  "x_state x = s_header_field_start \<Longrightarrow> exec_ok k x \<Longrightarrow> x_p x < n \<Longrightarrow> good n x (case_header_field_start x)"
  by (auto simp: case_header_field_start_def step_simps field_states_def Let_def
      intro!: good_next good_again good_fail)

lemma case_header_field_good:
  assumes "x_state x = s_header_field" "exec_ok k x" "x_p x < length data"
  shows "good (length data) x (case_header_field S data x)"
proof -
  have "field_ok (x_parser x)" using assms by (simp add: step_simps field_ok_def)
  then obtain p pr where l: "header_field_loop data (x_p x) (x_parser x) = Inr (p, pr)" "field_ok pr"
      "x_p x \<le> p" "p \<le> length data"
    using header_field_loop_ok [of "x_parser x" "x_p x" data] assms(3) by auto
  show ?thesis
    using l assms
    by (auto simp: case_header_field_def step_simps field_ok_def
        intro!: good_count good_next good_fail good_data_advance)
qed

subsection \<open>Header values\<close>

lemma case_header_value_start_good:
  assumes "mark_of_state (x_state x) \<in> {None, Some M_header_value}" "exec_ok k x" "x_p x < n"
  shows "good n x (case_header_value_start x)"
  using assms
  by (cases "pr_header_state (x_parser x)")
    (auto simp: case_header_value_start_def exec_ok_def wf_state_def mark_of_state_def set_index_def
      set_header_state_def add_flag_def Let_def intro!: good_next good_fail)


lemma case_header_value_discard_ws_good:
  "x_state x = s_header_value_discard_ws \<Longrightarrow> exec_ok k x \<Longrightarrow> x_p x < n \<Longrightarrow> good n x (case_header_value_discard_ws x)"
  using case_header_value_start_good [of x k n]
  by (auto simp: case_header_value_discard_ws_def exec_ok_def wf_state_def mark_of_state_def intro!: good_next)

text \<open>What a step over a value keeps, with the local header state \<open>h\<close>.\<close>

definition value_ok :: "header_state \<Rightarrow> http_parser \<Rightarrow> bool" where
  "value_ok h pr \<longleftrightarrow> pr_http_errno pr = HPE_OK \<and> h \<noteq> h_connection \<and> h \<noteq> h_transfer_encoding"

lemma value_ok_simps [simp]:
  "value_ok h (pr\<lparr>pr_index := i\<rparr>) = value_ok h pr" "value_ok h (add_flag f pr) = value_ok h pr"
  "value_ok h (pr\<lparr>pr_content_length := n\<rparr>) = value_ok h pr"
  by (simp_all add: value_ok_def add_flag_def)

definition step_ok :: "value_step \<Rightarrow> bool" where
  "step_ok r \<longleftrightarrow> (\<exists>e h pr. r = Inr (e, h, pr) \<and> value_ok h pr \<and> e \<noteq> Some HPE_OK)"

lemma value_matches_ok:
  assumes "value_ok h pr" "value_ok done pr" "value_ok other pr"
  shows "step_ok (value_matches name h done other c pr)"
proof (cases "length name < (pr_index pr + 1) mod 32")
  case True
  with assms show ?thesis by (simp add: value_matches_def step_ok_def Let_def)
next
  case False
  then obtain b where "string_at name ((pr_index pr + 1) mod 32) = Inr b"
    by (cases "(pr_index pr + 1) mod 32 < length name") (simp_all add: string_at_def)
  with False assms show ?thesis by (simp add: value_matches_def step_ok_def Let_def)
qed

lemma content_length_digit_ok: "pr_http_errno pr = HPE_OK \<Longrightarrow> step_ok (content_length_digit ch pr)"
  by (simp add: content_length_digit_def step_ok_def Let_def value_ok_def)

lemma value_char_ok:
  assumes "value_ok h pr"
  shows "step_ok (value_char ch h pr)"
proof -
  have e: "pr_http_errno pr = HPE_OK" using assms by (simp add: value_ok_def)
  have m: "step_ok (value_matches name h done other c pr)"
    if "value_ok done pr" "value_ok other pr" for name "done" other c
    using assms that by (rule value_matches_ok)
  show ?thesis unfolding value_char_def Let_def
    using assms content_length_digit_ok [OF e, of ch]
    by (cases h)
      (simp_all add: e connection_done_def, 
       simp_all add: value_ok_def e add_flag_def step_ok_def,
       insert m e, simp_all add: value_ok_def step_ok_def)
qed


definition value_result_ok :: "bytes \<Rightarrow> nat \<Rightarrow> (value_end \<times> nat \<times> header_state \<times> http_parser) outcome \<Rightarrow> bool" where
  "value_result_ok data p r \<longleftrightarrow>
     (\<exists>e p' h pr. r = Inr (e, p', h, pr) \<and> value_ok h pr \<and> p \<le> p' \<and> p' \<le> length data
       \<and> (e = V_cr \<or> e = V_lf \<longrightarrow> p' < length data) \<and> e \<noteq> V_error HPE_OK)"

lemma value_result_later: "value_result_ok data q r \<Longrightarrow> p \<le> q \<Longrightarrow> value_result_ok data p r"
  by (cases r) (auto simp: value_result_ok_def)

lemma plain_run_le: "p \<le> length data \<Longrightarrow> p + plain_run lenient data p \<le> length data"
proof -
  assume p: "p \<le> length data"
  have "plain_run lenient data p \<le> length (value_window data p)"
    unfolding plain_run_def by (rule length_takeWhile_le)
  also have "\<dots> \<le> length data - p" by (simp add: value_window_def)
  finally show ?thesis using p by simp
qed

lemma header_value_loop_ok:
  assumes "value_ok h pr" "p \<le> length data"
  shows "value_result_ok data p (header_value_loop data lenient p h pr)"
  using assms
proof (induction data lenient p h pr rule: header_value_loop.induct)
  case (1 data lenient p h pr)
  show ?case
  proof (cases "length data \<le> p \<or> data ! p = c_cr \<or> data ! p = c_lf \<or> \<not> lenient \<and> \<not> is_header_char (data ! p)")
    case True
    with "1.prems" show ?thesis
      by (auto simp: header_value_loop.simps [of data lenient p] value_result_ok_def Let_def)
  next
    case False
    then have p: "p < length data" and ch: "data ! p \<noteq> c_cr" "data ! p \<noteq> c_lf"
      "\<not> (\<not> lenient \<and> \<not> is_header_char (data ! p))" by auto
    show ?thesis
    proof (cases "h = h_general")
      case True
      let ?w = "value_window data p" and ?n = "plain_run lenient data p"
      have le: "p + ?n \<le> length data" using plain_run_le p by simp
      note ih = "1.IH"(1-3) [OF _ refl ch(1,2,3) True refl refl]
      show ?thesis
      proof (cases "?n < length ?w")
        case n: True
        show ?thesis
        proof (cases "is_line_end (?w ! ?n)")
          case e: True
          have "p + max ?n 1 \<le> length data" using le p by (auto simp: max_def)
          with ih(1) [OF _ n e "1.prems"(1)] p
          have "value_result_ok data (p + max ?n 1) (header_value_loop data lenient (p + max ?n 1) h pr)" by simp
          then have "value_result_ok data p (header_value_loop data lenient (p + max ?n 1) h pr)"
            by (rule value_result_later) simp
          then show ?thesis using p ch True n e
            by (auto simp: header_value_loop.simps [of data lenient p] Let_def)
        next
          case e: False
          then show ?thesis using p ch True n le "1.prems"
            by (auto simp: header_value_loop.simps [of data lenient p] Let_def value_result_ok_def)
        qed
      next
        case n: False
        show ?thesis
        proof (cases "p + ?n = length data")
          case e: True
          from ih(2) [OF _ n e "1.prems"(1) le] p
          have "value_result_ok data (p + ?n) (header_value_loop data lenient (p + ?n) h pr)" by simp
          then have "value_result_ok data p (header_value_loop data lenient (p + ?n) h pr)"
            by (rule value_result_later) simp
          then show ?thesis using p ch True n e
            by (auto simp: header_value_loop.simps [of data lenient p] Let_def)
        next
          case e: False
          with le have "Suc (p + ?n) \<le> length data" by simp
          from ih(3) [OF _ n e "1.prems"(1) this] p
          have "value_result_ok data (Suc (p + ?n)) (header_value_loop data lenient (Suc (p + ?n)) h pr)" by simp
          then have "value_result_ok data p (header_value_loop data lenient (Suc (p + ?n)) h pr)"
            by (rule value_result_later) simp
          then show ?thesis using p ch True n e
            by (auto simp: header_value_loop.simps [of data lenient p] Let_def)
        qed
      qed
    next
      case h: False
      obtain e h' pr' where v: "value_char (data ! p) h pr = Inr (e, h', pr')" "value_ok h' pr'" "e \<noteq> Some HPE_OK"
        using value_char_ok [OF "1.prems"(1), of "data ! p"] by (auto simp: step_ok_def)
      show ?thesis
      proof (cases e)
        case (Some err)
        with v p ch h show ?thesis
          by (auto simp: header_value_loop.simps [of data lenient p] Let_def value_result_ok_def value_ok_def
              set_header_state_def)
      next
        case None
        have "value_result_ok data (Suc p) (header_value_loop data lenient (Suc p) h' pr')"
          using "1.IH"(4) [OF _ refl ch h] v None p by simp
        then have "value_result_ok data p (header_value_loop data lenient (Suc p) h' pr')"
          by (rule value_result_later) simp
        with v None p ch h show ?thesis by (auto simp: header_value_loop.simps [of data lenient p h pr] Let_def)
      qed
    qed
  qed
qed

lemma case_header_value_good:
  assumes "x_state x = s_header_value" "exec_ok k x" "x_p x < length data"
  shows "good (length data) x (case_header_value S data x)"
proof -
  let ?pr = "x_parser x"
  have "value_ok (pr_header_state ?pr) ?pr" using assms by (simp add: step_simps value_ok_def)
  then obtain e p h pr where
    l: "header_value_loop data (pr_lenient_http_headers ?pr) (x_p x) (pr_header_state ?pr) ?pr = Inr (e, p, h, pr)"
      "value_ok h pr" "x_p x \<le> p" "p \<le> length data" "e = V_cr \<or> e = V_lf \<Longrightarrow> p < length data" "e \<noteq> V_error HPE_OK"
    using header_value_loop_ok [of "pr_header_state ?pr" ?pr "x_p x" data "pr_lenient_http_headers ?pr"] assms(3)
    by (auto simp: value_result_ok_def)
  show ?thesis
    using l assms
    by (cases e)
      (auto simp: case_header_value_def step_simps value_ok_def Let_def
        intro!: good_count good_next good_again good_fail good_data_advance good_data_noadvance)
qed

lemma case_header_end_good:
  "x_state x = s_header_almost_done \<Longrightarrow> exec_ok k x \<Longrightarrow> x_p x < n \<Longrightarrow> good n x (case_header_almost_done x)"
  "x_state x = s_header_value_lws \<Longrightarrow> exec_ok k x \<Longrightarrow> x_p x < n \<Longrightarrow> good n x (case_header_value_lws x)"
  "x_state x = s_header_value_discard_lws \<Longrightarrow> exec_ok k x \<Longrightarrow> x_p x < n \<Longrightarrow>
     good n x (case_header_value_discard_lws S data x)"
  by (auto simp: case_header_almost_done_def case_header_value_lws_def case_header_value_discard_lws_def
      finish_value_def step_simps split: header_state.split
      intro!: good_next good_again good_fail good_data_noadvance)


subsection \<open>The end of the headers and the body\<close>

lemma new_message_cases: "new_message pr \<in> {s_dead, s_start_req, s_start_res}"
  by (simp add: new_message_def start_state_def)

lemma good_complete:
  assumes "pr_http_errno (x_parser y) = HPE_OK" "x_p y < n"
    and "\<And>u s t. t \<in> {s_dead, s_start_req, s_start_res} \<Longrightarrow> good n x (k (touch u s (goto_state t y)))"
  shows "good n x (complete_message S y k)"
  unfolding complete_message_def
  by (rule good_notify) (use assms new_message_cases in auto)

lemma add_flag_errno: "pr_http_errno (add_flag f pr) = pr_http_errno pr"
  by (simp add: add_flag_def)

lemma good_headers_complete:
  assumes "pr_http_errno (x_parser y) = HPE_OK" "x_p y \<le> n"
    and k: "\<And>u f. pr_http_errno (f (x_parser y)) = HPE_OK \<Longrightarrow> good n x (k ((with_parser f y)\<lparr>x_user := u\<rparr>))"
  shows "good n x (headers_complete S y k)"
proof (cases "on_headers_complete S")
  case None
  have "(with_parser (\<lambda>pr. pr) y)\<lparr>x_user := x_user y\<rparr> = y" by (simp add: with_parser_def)
  with k [of "\<lambda>pr. pr" "x_user y"] None assms(1) show ?thesis by (simp add: headers_complete_def)
next
  case (Some f)
  obtain r u where f: "f (x_parser y) (x_user y) = (r, u)" by (cases "f (x_parser y) (x_user y)")
  have eq: "with_parser g (y\<lparr>x_user := u\<rparr>) = (with_parser g y)\<lparr>x_user := u\<rparr>" for g
    by (simp add: with_parser_def)
  have id: "(with_parser (\<lambda>pr. pr) y)\<lparr>x_user := u\<rparr> = y\<lparr>x_user := u\<rparr>" by (simp add: with_parser_def)
  have bad: "good n x (store_return (x_p y) (set_errno HPE_CB_headers_complete (y\<lparr>x_user := u\<rparr>)))"
    by (rule good_store) (use assms in \<open>simp_all add: set_errno_def\<close>)
  show ?thesis
    using k [of "\<lambda>pr. pr" u] k [of "\<lambda>pr. add_flag F_SKIPBODY (pr\<lparr>pr_upgrade := True\<rparr>)" u]
      k [of "add_flag F_SKIPBODY" u] Some f assms(1) bad
    by (simp add: headers_complete_def eq id Let_def add_flag_errno)
qed

lemma case_headers_almost_done_good:
  "x_state x = s_headers_almost_done \<Longrightarrow> exec_ok k x \<Longrightarrow> x_p x < n \<Longrightarrow> good n x (case_headers_almost_done S x)"
  by (auto simp: case_headers_almost_done_def step_simps Let_def
      intro!: good_strict good_notify good_again good_fail good_headers_complete)

lemma reset_nread_simps [simp]:
  "x_state (reset_nread x) = x_state x" "x_nread (reset_nread x) = 0" "x_p (reset_nread x) = x_p x"
  "x_marks (reset_nread x) = x_marks x" "x_ch (reset_nread x) = x_ch x"
  "x_parser (reset_nread x) = (x_parser x)\<lparr>pr_nread := 0\<rparr>"
  by (simp_all add: reset_nread_def)

lemma case_headers_done_good:
  assumes "x_state x = s_headers_done" "exec_ok k x" "x_p x < n"
  shows "good n x (case_headers_done S x)"
proof -
  let ?x = "reset_nread x"
  have s: "exec_ok 0 (touch u s (goto_state t ?x))" if "t \<in> {s_dead, s_start_req, s_start_res}" for u s t
    using that assms by (auto simp: step_simps)
  have m: "good n x (complete_message S ?x next_byte)"
    by (rule good_complete) (use assms s in \<open>auto simp: step_simps intro!: good_next\<close>)
  have u: "good n x (complete_message S ?x (\<lambda>y. store_return (Suc (x_p y)) y))"
    by (rule good_complete) (use assms in \<open>auto simp: step_simps intro!: good_store\<close>)
  have e: "good n x (store_return (x_p x) (set_errno HPE_INVALID_TRANSFER_ENCODING ?x))"
    by (rule good_store) (use assms in \<open>simp_all add: set_errno_def\<close>)
  have b: "good n x (next_byte (goto_state s_body_identity_eof ?x))"
    by (rule good_next) (use assms in \<open>simp_all add: step_simps\<close>)
  have i: "good n x (next_byte (goto_state s_body_identity ?x))"
    if "pr_content_length (x_parser x) \<noteq> 0" "pr_content_length (x_parser x) \<noteq> ULLONG_MAX"
    by (rule good_next) (use assms that in \<open>simp_all add: step_simps\<close>)
  have c: "good n x (next_byte (goto_state s_chunk_size_start ?x))" if "F_CHUNKED \<in> pr_flags (x_parser x)"
    by (rule good_next) (use assms that in \<open>simp_all add: step_simps\<close>)
  show ?thesis
    unfolding case_headers_done_def Let_def
    by (rule good_strict) (use assms in \<open>simp_all add: m u e b i c\<close>)
qed

lemma pass_body_simps [simp]:
  "x_state (pass_body m x) = x_state x" "x_nread (pass_body m x) = x_nread x"
  "x_p (pass_body m x) = x_p x + m - 1" "x_ch (pass_body m x) = x_ch x"
  "x_marks (pass_body m x) = x_marks (set_mark M_body x)"
  "x_parser (pass_body m x) =
     (x_parser x)\<lparr>pr_content_length := pr_content_length (x_parser x) - of_nat m\<rparr>"
  by (simp_all add: pass_body_def set_mark_def)

text \<open>A body that ends is passed whole; one that goes on ends with the input.\<close>

lemma body_left:
  assumes "pr_content_length (x_parser x) \<noteq> 0" "x_p x < length data"
  shows "1 \<le> body_bytes data x" "x_p x + body_bytes data x - 1 < length data"
    "x_p x \<le> x_p x + body_bytes data x - 1"
    "pr_content_length (x_parser x) - of_nat (body_bytes data x) \<noteq> 0 \<Longrightarrow>
       pr_content_length (x_parser x) \<noteq> ULLONG_MAX \<Longrightarrow>
       pr_content_length (x_parser x) - of_nat (body_bytes data x) \<noteq> ULLONG_MAX"
proof -
  let ?n = "pr_content_length (x_parser x)" and ?b = "body_bytes data x"
  show b: "1 \<le> ?b" using assms by (simp add: body_bytes_def Suc_le_eq unat_gt_0)
  show "x_p x + ?b - 1 < length data" using assms b by (simp add: body_bytes_def)
  show "x_p x \<le> x_p x + ?b - 1" using b by simp
  have "?b \<le> unat ?n" by (simp add: body_bytes_def)
  then have "unat (?n - of_nat ?b) = unat ?n - ?b"
    by (metis le_unat_uoi unat_sub word_le_nat_alt)
  moreover have "unat ?n - ?b < unat ?n" using b \<open>?b \<le> unat ?n\<close> by linarith
  moreover have "unat ?n \<le> unat ULLONG_MAX"
    using unsigned_less [of ?n, where ?'a = nat] by (simp add: ULLONG_MAX_def)
  ultimately show "?n - of_nat ?b \<noteq> ULLONG_MAX" by auto
qed

lemma case_body_good:
  assumes "exec_ok k x" "x_p x < length data"
  shows "x_state x = s_body_identity \<Longrightarrow> good (length data) x (case_body_identity S data x)"
    and "x_state x = s_body_identity_eof \<Longrightarrow> good (length data) x (case_body_identity_eof data x)"
    and "x_state x = s_message_done \<Longrightarrow> good (length data) x (case_message_done S x)"
proof -
  show "good (length data) x (case_body_identity S data x)" if "x_state x = s_body_identity"
    using assms that body_left [of x data]
    by (auto simp: case_body_identity_def step_simps Let_def intro!: good_data good_again good_next)
  show "good (length data) x (case_body_identity_eof data x)" if "x_state x = s_body_identity_eof"
    using assms that by (auto simp: case_body_identity_eof_def step_simps intro!: good_next)
  show "good (length data) x (case_message_done S x)" if "x_state x = s_message_done"
    using assms that
    by (auto simp: case_message_done_def step_simps intro!: good_complete good_store good_next)
qed


lemma in_chunk_eq: "F_CHUNKED \<in> pr_flags (x_parser x) \<Longrightarrow> in_chunk x r = r"
  by (simp add: in_chunk_def)

lemma set_content_length_simps [simp]:
  "x_state (set_content_length m x) = x_state x" "x_nread (set_content_length m x) = x_nread x"
  "x_p (set_content_length m x) = x_p x" "x_ch (set_content_length m x) = x_ch x"
  "x_marks (set_content_length m x) = x_marks x"
  "x_parser (set_content_length m x) = (x_parser x)\<lparr>pr_content_length := m\<rparr>"
  by (simp_all add: set_content_length_def)

text \<open>A hexadecimal digit more does not overflow, and cannot give the value that stands for no length.\<close>

lemma unhex_entry_range: "unhex_entry n = - 1 \<or> 0 \<le> unhex_entry n \<and> unhex_entry n \<le> 15"
  by (auto simp: unhex_entry_def)

lemma unhex_at_range: "unhex_at c = - 1 \<or> 0 \<le> unhex_at c \<and> unhex_at c \<le> 15"
  using unhex_entry_range [of "unat c"] by (auto simp: unhex_at_def nth_unhex)

lemma chunk_digit:
  assumes "n \<le> (ULLONG_MAX - 16) div 16" "0 \<le> v" "v \<le> 15"
  shows "n * 16 + word_of_int v \<noteq> ULLONG_MAX"
proof -
  have n: "unat n * 16 \<le> 2 ^ 64 - 17"
    using assms(1) by (simp add: word_le_nat_alt unat_div ULLONG_MAX_def)
  obtain m where m: "v = int m" "m \<le> 15" using assms(2,3) by (metis nonneg_int_cases of_nat_le_iff of_nat_numeral)
  then have v: "unat (word_of_int v :: u64) \<le> 15" by (simp add: unat_of_nat)
  have "unat (n * 16 + word_of_int v) = unat n * 16 + unat (word_of_int v :: u64)"
    using n v by (simp add: unat_word_ariths)
  then show ?thesis using n v by (auto simp: ULLONG_MAX_def)
qed

lemma case_chunk_size_good:
  assumes "exec_ok 1 x" "x_p x < n"
  shows "x_state x = s_chunk_size_start \<Longrightarrow> good n x (case_chunk_size_start x)"
    and "x_state x = s_chunk_size \<Longrightarrow> good n x (case_chunk_size x)"
    and "x_state x = s_chunk_parameters \<Longrightarrow> good n x (case_chunk_parameters x)"
    and "x_state x = s_chunk_size_almost_done \<Longrightarrow> good n x (case_chunk_size_almost_done S x)"
proof -
  have r: "unhex_at (x_ch x) = - 1 \<or> 0 \<le> unhex_at (x_ch x) \<and> unhex_at (x_ch x) \<le> 15"
    by (rule unhex_at_range)
  have first: "(word_of_int (unhex_at (x_ch x)) :: u64) \<noteq> ULLONG_MAX" if "unhex_at (x_ch x) \<noteq> - 1"
    using chunk_digit [of 0 "unhex_at (x_ch x)"] r that by simp
  show "good n x (case_chunk_size_start x)" if "x_state x = s_chunk_size_start"
    using assms that first
    by (auto simp: case_chunk_size_start_def step_simps in_chunk_eq intro!: good_next good_fail)
  show "good n x (case_chunk_size x)" if "x_state x = s_chunk_size"
    using assms that r chunk_digit [of "pr_content_length (x_parser x)" "unhex_at (x_ch x)"]
    by (auto simp: case_chunk_size_def step_simps in_chunk_eq Let_def not_less intro!: good_next good_fail)
  show "good n x (case_chunk_parameters x)" if "x_state x = s_chunk_parameters"
    using assms that
    by (auto simp: case_chunk_parameters_def step_simps in_chunk_eq intro!: good_next)
  show "good n x (case_chunk_size_almost_done S x)" if "x_state x = s_chunk_size_almost_done"
    using assms that
    by (auto simp: case_chunk_size_almost_done_def step_simps in_chunk_eq Let_def
        intro!: good_strict good_notify good_next)
qed

lemma case_chunk_data_good:
  assumes "exec_ok k x" "x_p x < length data"
  shows "x_state x = s_chunk_data \<Longrightarrow> good (length data) x (case_chunk_data data x)"
    and "x_state x = s_chunk_data_almost_done \<Longrightarrow> good (length data) x (case_chunk_data_almost_done S data x)"
    and "x_state x = s_chunk_data_done \<Longrightarrow> good (length data) x (case_chunk_data_done S x)"
proof -
  show "good (length data) x (case_chunk_data data x)" if "x_state x = s_chunk_data"
    using assms that body_left [of x data]
    by (auto simp: case_chunk_data_def step_simps in_chunk_eq Let_def intro!: good_next)
  show "good (length data) x (case_chunk_data_almost_done S data x)" if "x_state x = s_chunk_data_almost_done"
    using assms that
    by (auto simp: case_chunk_data_almost_done_def step_simps in_chunk_eq
        intro!: good_strict good_data_advance good_next)
  show "good (length data) x (case_chunk_data_done S x)" if "x_state x = s_chunk_data_done"
    using assms that
    by (auto simp: case_chunk_data_done_def step_simps in_chunk_eq
        intro!: good_strict good_notify good_next)
qed


subsection \<open>The switch, the loop and the function\<close>

text \<open>Only the first byte of a chunk size relies on the count of header bytes.\<close>

lemma exec_ok_count: "x_state x \<noteq> s_chunk_size_start \<Longrightarrow> exec_ok k x \<Longrightarrow> exec_ok l x"
  by (simp add: exec_ok_def wf_state_def split: http_state.splits)

lemma execute_case_good:
  assumes "exec_ok 1 x" "x_p x < length data"
  shows "good (length data) x (execute_case S data x)"
proof (cases "x_state x")
  case s_header_value_discard_ws_almost_done
  with assms show ?thesis
    by (auto simp: execute_case_def exec_ok_def wf_state_def mark_of_state_def intro!: good_expect)
next
  case s_header_value_start
  with assms show ?thesis
    by (auto simp: execute_case_def mark_of_state_def intro!: case_header_value_start_good)
qed (use assms in \<open>simp_all add: execute_case_def case_dead_good case_start_req_or_res_good
    case_res_or_resp_good case_start_res_good case_res_good case_start_req_good case_req_method_good
    case_url_good case_req_good case_header_field_start_good case_header_field_good
    case_header_value_discard_ws_good case_header_value_good case_header_end_good
    case_headers_almost_done_good case_headers_done_good case_body_good case_chunk_size_good
    case_chunk_data_good\<close>)

text \<open>What one byte leads to, with all the times that it is handled.\<close>

definition byte_ok :: "nat \<Rightarrow> nat \<Rightarrow> 'u case_result \<Rightarrow> bool" where
  "byte_ok n p r \<longleftrightarrow>
     (\<exists>fl. r = Inr fl \<and>
       (case fl of
          Break y \<Rightarrow> exec_ok 0 y \<and> p \<le> x_p y \<and> x_p y < n
        | Reexecute y \<Rightarrow> False
        | Goto_error y \<Rightarrow> pr_http_errno (x_parser y) \<noteq> HPE_OK \<and> x_p y \<le> n
        | Return v y \<Rightarrow> returns_ok n v y))"

lemma byte_ok_later: "byte_ok n q r \<Longrightarrow> p \<le> q \<Longrightarrow> byte_ok n p r"
  by (cases r) (auto simp: byte_ok_def split: flow.splits)

lemma reexecute_ok:
  assumes "exec_ok 1 x" "x_p x < length data" "rank (x_state x) < m"
  shows "byte_ok (length data) (x_p x) (reexecute m S data x)"
  using assms
proof (induction m arbitrary: x)
  case 0
  then show ?case by simp
next
  case (Suc m)
  obtain fl where fl: "execute_case S data x = Inr fl" "good_flow (length data) x fl"
    using execute_case_good [OF Suc.prems(1,2)] by (auto simp: good_def)
  show ?case
  proof (cases fl)
    case (Reexecute y)
    with fl(2) Suc.prems(3) have y: "exec_ok 1 y" "x_p x \<le> x_p y" "x_p y < length data" "rank (x_state y) < m"
      by (auto simp: good_flow_def)
    from Suc.IH [OF y(1,3,4)] have "byte_ok (length data) (x_p x) (reexecute m S data y)"
      using y(2) by (rule byte_ok_later)
    with fl Reexecute show ?thesis by simp
  qed (use fl in \<open>simp_all add: byte_ok_def good_flow_def\<close>)
qed

lemma rank_less: "rank s < 5"
  by (auto simp: rank_def split: http_state.split res_state.split)


text \<open>What a call ends with.\<close>

definition call_ok :: "nat \<Rightarrow> 'u case_result \<Rightarrow> bool" where
  "call_ok n r \<longleftrightarrow> (\<exists>v y. r = Inr (Return v y) \<and> returns_ok n v y)"

lemma call_ok_data:
  "pr_http_errno (x_parser y) = HPE_OK \<Longrightarrow> x_p y \<le> n \<Longrightarrow> (\<And>u s. call_ok n (k (unmark m (touch u s y)))) \<Longrightarrow>
   call_ok n (data_noadvance S data m y k)"
  unfolding data_noadvance_def by (rule callback_data_rule) (auto simp: call_ok_def)

lemma marks_left_le:
  assumes "\<forall>m. c \<noteq> Some m \<longrightarrow> x_marks x m = None"
  shows "marks_left x \<le> Suc 0"
proof (cases c)
  case None
  with assms show ?thesis by (simp add: marks_left_def)
next
  case (Some m)
  with assms have "x_marks x m' = None" if "m' \<noteq> m" for m' using that by simp
  then show ?thesis by (cases m) (simp_all add: marks_left_def)
qed

lemma end_of_input_ok:
  assumes "exec_ok 0 x" "x_p x = length data" "data \<noteq> []"
  shows "call_ok (length data) (end_of_input S data x)"
proof -
  have "marks_left x \<le> Suc 0"
    using assms(1) marks_left_le [of "mark_of_state (x_state x)" x] by (simp add: exec_ok_def)
  moreover have last: "call_ok (length data) (store_return (length data) y)"
    if "pr_http_errno (x_parser y) = HPE_OK" "wf_state 0 (x_state y) (x_parser y) (x_nread y)" for y :: "'a exec"
    using that assms(3) by (simp add: call_ok_def store_return_def parser_ok_def returns_ok_def)
  moreover have "call_ok (length data)
     (data_noadvance S data M_header_field x (\<lambda>x1.
       data_noadvance S data M_header_value x1 (\<lambda>x2.
       data_noadvance S data M_url x2 (\<lambda>x3.
       data_noadvance S data M_body x3 (\<lambda>x4.
       data_noadvance S data M_status x4 (store_return (length data)))))))"
    using assms by (intro call_ok_data last) (simp_all add: exec_ok_def)
  ultimately show ?thesis by (simp add: end_of_input_def)
qed

lemma at_error_ok: "pr_http_errno (x_parser x) \<noteq> HPE_OK \<Longrightarrow> x_p x \<le> n \<Longrightarrow> call_ok n (at_error x)"
  by (simp add: at_error_def call_ok_def store_return_def parser_ok_def returns_ok_def)

lemma first_look:
  assumes "exec_ok 0 x" "x_p x < length data"
  shows "byte_ok (length data) (x_p x)
    (let x1 = x\<lparr>x_ch := c\<rparr>
     in if parsing_header (x_state x1) then count_header_size 1 x1 (reexecute 5 S data)
        else reexecute 5 S data x1)"
proof (cases "parsing_header (x_state x)")
  case True
  let ?y = "x\<lparr>x_ch := c, x_nread := x_nread x + 1\<rparr>"
  have "exec_ok 1 ?y" using assms(1) True
    by (cases "x_state x") (simp_all add: exec_ok_def wf_state_def parsing_header_def)
  then have "byte_ok (length data) (x_p ?y) (reexecute 5 S data ?y)"
    using assms(2) rank_less by (intro reexecute_ok) simp_all
  then show ?thesis
    using True assms(2)
    by (simp add: count_header_size_def Let_def fail_def byte_ok_def set_errno_def)
next
  case False
  have "x_state x \<noteq> s_chunk_size_start" using False by (auto simp: parsing_header_def)
  then have "exec_ok 1 x" using assms(1) by (rule exec_ok_count)
  then have "exec_ok 1 (x\<lparr>x_ch := c\<rparr>)" by (simp add: exec_ok_def)
  then have "byte_ok (length data) (x_p (x\<lparr>x_ch := c\<rparr>)) (reexecute 5 S data (x\<lparr>x_ch := c\<rparr>))"
    using assms(2) rank_less by (intro reexecute_ok) simp_all
  then show ?thesis using False by (simp add: Let_def)
qed

lemma execute_loop_ok:
  assumes "exec_ok 0 x" "x_p x \<le> length data" "length data - x_p x \<le> n" "data \<noteq> []"
  shows "call_ok (length data) (execute_loop n S data x)"
  using assms
proof (induction n arbitrary: x)
  case 0
  then show ?case using end_of_input_ok [of x data S] by (simp add: execute_loop.simps [of 0])
next
  case (Suc n)
  show ?case
  proof (cases "x_p x = length data")
    case True
    with Suc.prems show ?thesis
      using end_of_input_ok [of x data S] by (simp add: execute_loop.simps [of "Suc n"])
  next
    case False
    then have p: "x_p x < length data" using Suc.prems(2) by simp
    define c where "c = data ! x_p x"
    define r where "r = (let x1 = x\<lparr>x_ch := c\<rparr>
      in if parsing_header (x_state x1) then count_header_size 1 x1 (reexecute 5 S data)
         else reexecute 5 S data x1)"
    have "byte_at data (x_p x) = Inr c" using p by (simp add: byte_at_def c_def)
    then have step: "execute_loop (Suc n) S data x = obind r (\<lambda>fl.
        case fl of
          Break x1 \<Rightarrow> execute_loop n S data (x1\<lparr>x_p := Suc (x_p x1)\<rparr>)
        | Reexecute x1 \<Rightarrow> Inl Diverges
        | Goto_error x1 \<Rightarrow> at_error x1
        | Return v x1 \<Rightarrow> Inr (Return v x1))"
      using False by (simp add: execute_loop.simps [of "Suc n"] r_def)
    obtain fl where fl: "r = Inr fl" "byte_ok (length data) (x_p x) (Inr fl)"
      using first_look [OF Suc.prems(1) p, of c S] unfolding r_def [symmetric] by (auto simp: byte_ok_def)
    show ?thesis
    proof (cases fl)
      case (Break y)
      with fl(2) have y: "exec_ok 0 y" "x_p x \<le> x_p y" "x_p y < length data" by (auto simp: byte_ok_def)
      have "call_ok (length data) (execute_loop n S data (y\<lparr>x_p := Suc (x_p y)\<rparr>))"
        by (rule Suc.IH) (use y Suc.prems(3,4) in \<open>auto simp: exec_ok_def\<close>)
      with step fl Break show ?thesis by simp
    next
      case (Goto_error y)
      with fl(2) have "call_ok (length data) (at_error y)" by (intro at_error_ok) (auto simp: byte_ok_def)
      with step fl Goto_error show ?thesis by simp
    qed (use step fl in \<open>auto simp: byte_ok_def call_ok_def\<close>)
  qed
qed

lemma exec_start_ok: "parser_ok pr \<Longrightarrow> pr_http_errno pr = HPE_OK \<Longrightarrow> exec_ok 0 (exec_start pr u)"
  by (simp add: parser_ok_def exec_ok_def exec_start_def initial_marks_def mark_of_state_def
      split: http_state.split)

lemma execute_ok:
  assumes "parser_ok pr" "data \<noteq> []"
  shows "\<exists>n pr' u'. http_parser_execute S data pr u = Inr (n, pr', u') \<and> n \<le> length data \<and> parser_ok pr'
    \<and> (n = 0 \<longrightarrow> pr_http_errno pr' \<noteq> HPE_OK)"
proof (cases "pr_http_errno pr = HPE_OK")
  case True
  have "call_ok (length data) (execute_loop (length data) S data (exec_start pr u))"
    using exec_start_ok [OF assms(1) True] assms(2) by (intro execute_loop_ok) (simp_all add: exec_start_def)
  with True assms(2) show ?thesis by (auto simp: http_parser_execute_def call_ok_def returns_ok_def)
next
  case False
  with assms(1) show ?thesis by (simp add: http_parser_execute_def)
qed

lemma parser_ok_init: "parser_ok (http_parser_init t)"
  by (simp add: parser_ok_def http_parser_init_def wf_state_def)

lemma execute_empty_ok:
  assumes "parser_ok pr"
  shows "\<exists>n pr' u'. http_parser_execute S [] pr u = Inr (n, pr', u') \<and> n \<le> 1 \<and> parser_ok pr'"
proof (cases "pr_http_errno pr = HPE_OK")
  case True
  have "pr_http_errno (x_parser (exec_start pr u)) = HPE_OK" using True by (simp add: exec_start_def)
  then have "\<exists>v y. empty_input S (exec_start pr u) = Inr (Return v y) \<and> v \<le> 1 \<and> parser_ok (x_parser y)"
    using assms True
    by (auto simp: empty_input_def callback_notify_def exec_start_def parser_ok_def set_errno_def
        wf_state_def Let_def split: option.split prod.split)
  with True show ?thesis by (auto simp: http_parser_execute_def)
next
  case False
  with assms show ?thesis by (simp add: http_parser_execute_def)
qed

text \<open>A stream of input, handed to the parser in pieces: what is left of it at the end.\<close>

definition execute_all ::
  "'u http_parser_settings \<Rightarrow> bytes list \<Rightarrow> http_parser \<times> 'u \<Rightarrow> (http_parser \<times> 'u) outcome" where
  "execute_all S = ofold (\<lambda>data (pr, u).
     obind (http_parser_execute S data pr u) (\<lambda>(n, pr', u').
     obind (oassert (n \<le> max 1 (length data))) (\<lambda>_. Inr (pr', u'))))"

lemma execute_all_ok:
  "parser_ok pr \<Longrightarrow> \<exists>pr' u'. execute_all S inputs (pr, u) = Inr (pr', u') \<and> parser_ok pr'"
proof (induction inputs arbitrary: pr u)
  case Nil
  then show ?case by (simp add: execute_all_def)
next
  case (Cons data inputs)
  obtain n pr1 u1 where "http_parser_execute S data pr u = Inr (n, pr1, u1)" "n \<le> max 1 (length data)" "parser_ok pr1"
    using execute_ok [OF Cons.prems, of data S u] execute_empty_ok [OF Cons.prems, of S u]
    by (cases "data = []") fastforce+
  with Cons.IH [of pr1 u1] show ?case by (simp add: execute_all_def)
qed

text \<open>
  C29. The HTTP and RTSP parser is safe and always returns: a parser of whichever type that gets
  any bytes in any pieces, with any callbacks, never fails an assertion, never reads a string
  constant out of bounds and never loops for ever, in any of the calls; and each call reports at
  most as many bytes as it was given (one for the empty input that ends a stream too early).
\<close>

theorem http_parser_never_aborts:
  "\<exists>pr u'. execute_all S inputs (http_parser_init t, u) = Inr (pr, u')"
  using execute_all_ok [OF parser_ok_init, of S inputs t u] by blast

end
