(* ===== verification/Rtsp_Parser.thy ===== *)
theory Rtsp_Parser
  imports Http_Parser_Safe Text_Util
begin

text \<open>
  The request parser of the RTSP side (\<^verbatim>\<open>rtsp_parser.h\<close>): the callbacks that it hands to the
  parser of \<^verbatim>\<open>http_parser.c\<close>, and its operations \<^verbatim>\<open>input\<close>, \<^verbatim>\<open>reset\<close>, \<^verbatim>\<open>complete\<close> and
  \<^verbatim>\<open>header\<close>. The callbacks are fixed in \<^verbatim>\<open>reset\<close>, so the settings are a constant here.
\<close>

record rtsp_parser =
  rp_parse_step :: int
  rp_url_port :: u16
  rp_field :: string
  rp_value :: string
  rp_url :: string
  rp_url_schema :: string
  rp_url_host :: string
  rp_url_path :: string
  rp_method :: string
  rp_body :: string
  rp_parser :: http_parser
  rp_headers :: "string \<rightharpoonup> string"

definition kParseComplete :: int where
  "kParseComplete = 1"

subsection \<open>The callbacks\<close>

text \<open>\<^verbatim>\<open>std::map::emplace\<close>: a key that is there keeps its value.\<close>

definition emplace :: "string \<Rightarrow> string \<Rightarrow> (string \<rightharpoonup> string) \<Rightarrow> (string \<rightharpoonup> string)" where
  "emplace k v m = (if m k = None then m(k \<mapsto> v) else m)"

definition rtsp_on_message_begin :: "rtsp_parser notify_cb" where
  "rtsp_on_message_begin pr self = (0, self)"

definition rtsp_on_headers_complete :: "rtsp_parser notify_cb" where
  "rtsp_on_headers_complete pr self =
     (2, if rp_field self \<noteq> []
         then self\<lparr>rp_headers := emplace (rp_field self) (rp_value self) (rp_headers self)\<rparr> else self)"

definition rtsp_on_message_complete :: "rtsp_parser notify_cb" where
  "rtsp_on_message_complete pr self =
     (0, self\<lparr>rp_parse_step := kParseComplete, rp_method := http_method_str (pr_method pr)\<rparr>)"

text \<open>The text of a field of the URL that \<open>at\<close> holds, or the old value when it has none.\<close>

definition update_url_field :: "http_parser_url \<Rightarrow> bytes \<Rightarrow> url_field \<Rightarrow> string \<Rightarrow> string" where
  "update_url_field u at f v =
     (if f \<in> ur_field_set u
      then text_of (take (unat (ur_len u f)) (drop (unat (ur_off u f)) at)) else v)"

text \<open>
  A URL that does not parse leaves the parts alone; \<^verbatim>\<open>http_parser_parse_url\<close> always returns, and
  its fields lie within \<open>at\<close> (\<^theory_text>\<open>Http_Url_Proofs\<close>).
\<close>

definition rtsp_on_url :: "rtsp_parser data_cb" where
  "rtsp_on_url pr at self =
     (let self1 = self\<lparr>rp_url := rp_url self @ text_of at\<rparr>
      in case http_parser_parse_url at False http_parser_url_init of
           Inl _ \<Rightarrow> (0, self1)
         | Inr (ret, u) \<Rightarrow>
             if ret \<noteq> 0 then (0, self1)
             else let port = update_url_field u at UF_PORT []
                  in (0, self1\<lparr>rp_url_schema := update_url_field u at UF_SCHEMA (rp_url_schema self1),
                           rp_url_host := update_url_field u at UF_HOST (rp_url_host self1),
                           rp_url_path := update_url_field u at UF_PATH (rp_url_path self1),
                           rp_url_port := (if port \<noteq> [] then of_int (atoi port) else rp_url_port self1)\<rparr>))"

definition rtsp_on_header_field :: "rtsp_parser data_cb" where
  "rtsp_on_header_field pr at self =
     (let self1 = (if rp_value self \<noteq> []
                   then self\<lparr>rp_headers := emplace (rp_field self) (rp_value self) (rp_headers self),
                             rp_field := [], rp_value := []\<rparr>
                   else self)
      in (0, self1\<lparr>rp_field := rp_field self1 @ text_of at\<rparr>))"

definition rtsp_on_header_value :: "rtsp_parser data_cb" where
  "rtsp_on_header_value pr at self = (0, self\<lparr>rp_value := rp_value self @ text_of at\<rparr>)"

definition rtsp_on_body :: "rtsp_parser data_cb" where
  "rtsp_on_body pr at self = (0, self\<lparr>rp_body := rp_body self @ text_of at\<rparr>)"

definition rtsp_settings :: "rtsp_parser http_parser_settings" where
  "rtsp_settings =
     \<lparr>on_message_begin = Some rtsp_on_message_begin,
      on_data = (\<lambda>m. case m of M_url \<Rightarrow> Some rtsp_on_url | M_header_field \<Rightarrow> Some rtsp_on_header_field
                   | M_header_value \<Rightarrow> Some rtsp_on_header_value | M_body \<Rightarrow> Some rtsp_on_body
                   | M_status \<Rightarrow> None),
      on_headers_complete = Some rtsp_on_headers_complete,
      on_message_complete = Some rtsp_on_message_complete,
      on_chunk_header = None, on_chunk_complete = None\<rparr>"

subsection \<open>The operations\<close>

text \<open>\<^verbatim>\<open>reset\<close> leaves the method, the body and the parts of the URL of the last request.\<close>

definition rtsp_parser_reset :: "rtsp_parser \<Rightarrow> rtsp_parser" where
  "rtsp_parser_reset p =
     p\<lparr>rp_parser := (http_parser_init HTTP_BOTH)\<lparr>pr_flags := {F_SKIPBODY}\<rparr>,
       rp_field := [], rp_value := [], rp_headers := Map.empty, rp_url := [], rp_parse_step := 0\<rparr>"

text \<open>The constructor; the port is not initialised, so that it has any value \<open>port\<close>.\<close>

definition rtsp_parser_create :: "u16 \<Rightarrow> rtsp_parser" where
  "rtsp_parser_create port = rtsp_parser_reset
     \<lparr>rp_parse_step = 0, rp_url_port = port, rp_field = [], rp_value = [], rp_url = [],
      rp_url_schema = [], rp_url_host = [], rp_url_path = [], rp_method = [], rp_body = [],
      rp_parser = http_parser_init HTTP_BOTH, rp_headers = Map.empty\<rparr>"

definition rtsp_complete :: "rtsp_parser \<Rightarrow> bool" where
  "rtsp_complete p \<longleftrightarrow> rp_parse_step p = kParseComplete"

definition rtsp_header :: "string \<Rightarrow> rtsp_parser \<Rightarrow> string" where
  "rtsp_header key p = (case rp_headers p key of None \<Rightarrow> [] | Some v \<Rightarrow> v)"

text \<open>\<^verbatim>\<open>static_cast<int>\<close> of a size.\<close>

definition to_c_int :: "nat \<Rightarrow> int" where
  "to_c_int n = sint (word_of_nat n :: u32)"

definition rtsp_parser_input :: "bytes \<Rightarrow> rtsp_parser \<Rightarrow> (int \<times> rtsp_parser) outcome" where
  "rtsp_parser_input data p =
     obind (http_parser_execute rtsp_settings data (rp_parser p) p) (\<lambda>(consumed, pr, p1).
       let p2 = p1\<lparr>rp_parser := pr\<rparr>
       in Inr (if pr_http_errno pr \<noteq> HPE_OK then - 1
               else if \<not> rtsp_complete p2 then - 2
               else to_c_int consumed, p2))"

subsection \<open>The interface of the parser\<close>

lemma to_c_int_small: "n < 2 ^ 31 \<Longrightarrow> to_c_int n = int n"
  by (simp add: to_c_int_def sint_of_nat_small)

lemma parser_ok_reset: "parser_ok (rp_parser (rtsp_parser_reset p))"
  by (simp add: rtsp_parser_reset_def parser_ok_def http_parser_init_def wf_state_def)

lemma errno_reset: "pr_http_errno (rp_parser (rtsp_parser_reset p)) = HPE_OK"
  by (simp add: rtsp_parser_reset_def http_parser_init_def)

text \<open>What \<^verbatim>\<open>rtsp_server_context\<close> relies on: an error, a wish for more, or a number of bytes.\<close>

lemma rtsp_parser_input_ok:
  assumes "parser_ok (rp_parser p)" "data \<noteq> []" "length data < 2 ^ 31"
  shows "\<exists>ret p'. rtsp_parser_input data p = Inr (ret, p') \<and>
     (ret = - 1 \<or> ret = - 2 \<or> rtsp_complete p' \<and> 0 < ret \<and> ret \<le> int (length data))"
proof -
  obtain n pr p1 where run: "http_parser_execute rtsp_settings data (rp_parser p) p = Inr (n, pr, p1)"
    and n: "n \<le> length data" "n = 0 \<Longrightarrow> pr_http_errno pr \<noteq> HPE_OK"
    using execute_ok [OF assms(1,2), of rtsp_settings p] by auto
  have "to_c_int n = int n" using n(1) assms(3) by (intro to_c_int_small) simp
  then show ?thesis using run n by (auto simp: rtsp_parser_input_def Let_def)
qed

end
