(* ===== verification/Http_Run.thy ===== *)
theory Http_Run
  imports Http_Parser_Safe Text_Util
begin

text \<open>
  Runs of the parser over known bytes: a relation between states of the main loop that composes
  over consecutive pieces of the input, as the execution of compiled code composes over
  consecutive pieces of a program, and the runs over the pieces of a request line.
\<close>

subsection \<open>Pieces of the input\<close>

definition reads :: "bytes \<Rightarrow> nat \<Rightarrow> bytes \<Rightarrow> bool" where
  "reads data p cs \<longleftrightarrow> p + length cs \<le> length data \<and> take (length cs) (drop p data) = cs"

lemma reads_Nil [simp]: "reads data p [] \<longleftrightarrow> p \<le> length data"
  by (simp add: reads_def)

lemma reads_Cons: "reads data p (c # cs) \<longleftrightarrow> p < length data \<and> data ! p = c \<and> reads data (Suc p) cs"
proof (cases "p < length data")
  case True
  then have "drop p data = data ! p # drop (Suc p) data" by (simp add: Cons_nth_drop_Suc)
  with True show ?thesis by (auto simp: reads_def)
qed (simp add: reads_def)

lemma reads_le: "reads data p cs \<Longrightarrow> p + length cs \<le> length data"
  by (simp add: reads_def)

lemma reads_append: "reads data p (xs @ ys) \<longleftrightarrow> reads data p xs \<and> reads data (p + length xs) ys"
proof (induction xs arbitrary: p)
  case Nil
  then show ?case using reads_le [of data p ys] by auto
qed (simp add: reads_Cons)

lemma reads_nth: "reads data p cs \<Longrightarrow> i < length cs \<Longrightarrow> p + i < length data \<and> data ! (p + i) = cs ! i"
proof (induction cs arbitrary: p i)
  case (Cons c cs)
  then show ?case using Cons.IH [of "Suc p" "i - 1"] by (cases i) (auto simp: reads_Cons)
qed simp

lemma reads_whole: "reads (pre @ cs @ post) (length pre) cs"
  by (simp add: reads_def)

lemma reads_take: "reads data p cs \<Longrightarrow> take (p + length cs - p) (drop p data) = cs"
  by (simp add: reads_def)

subsection \<open>Runs\<close>

definition runs :: "'u http_parser_settings \<Rightarrow> bytes \<Rightarrow> 'u exec \<Rightarrow> 'u exec \<Rightarrow> bool" where
  "runs S data x y \<longleftrightarrow>
     x_p x \<le> x_p y \<and>
     (\<exists>k \<le> x_p y - x_p x. \<forall>n. execute_loop (n + k) S data x = execute_loop n S data y)"

lemma runs_refl [simp]: "runs S data x x"
  by (auto simp: runs_def)

lemma runs_trans: "runs S data x y \<Longrightarrow> runs S data y z \<Longrightarrow> runs S data x z"
proof -
  assume xy: "runs S data x y" and yz: "runs S data y z"
  obtain k l where k: "k \<le> x_p y - x_p x" "\<And>n. execute_loop (n + k) S data x = execute_loop n S data y"
    and l: "l \<le> x_p z - x_p y" "\<And>n. execute_loop (n + l) S data y = execute_loop n S data z"
    using xy yz by (auto simp: runs_def)
  have "execute_loop (n + (l + k)) S data x = execute_loop n S data z" for n
    using k(2) [of "n + l"] l(2) [of n] by (simp add: add.assoc)
  moreover have "x_p x \<le> x_p y" "x_p y \<le> x_p z" using xy yz by (simp_all add: runs_def)
  ultimately show ?thesis
    unfolding runs_def using k(1) l(1) by (intro conjI exI [of _ "l + k"]) auto
qed

text \<open>
  The loop at position \<open>p\<close> of one message: so far all bytes are header bytes. \<open>look\<close> is the
  same after the byte at \<open>p\<close> has been fetched and counted.
\<close>

definition loop_at :: "bytes \<Rightarrow> nat \<Rightarrow> http_state \<Rightarrow> (mark \<Rightarrow> nat option) \<Rightarrow> http_parser \<Rightarrow> 'u \<Rightarrow> 'u exec" where
  "loop_at data p s ms pr u =
     \<lparr>x_parser = pr, x_user = u, x_state = s, x_nread = of_nat p, x_p = p,
      x_ch = (if p = 0 then 0 else data ! (p - 1)), x_marks = ms\<rparr>"

definition look :: "bytes \<Rightarrow> nat \<Rightarrow> http_state \<Rightarrow> (mark \<Rightarrow> nat option) \<Rightarrow> http_parser \<Rightarrow> 'u \<Rightarrow> 'u exec" where
  "look data p s ms pr u =
     \<lparr>x_parser = pr, x_user = u, x_state = s, x_nread = of_nat (Suc p), x_p = p,
      x_ch = data ! p, x_marks = ms\<rparr>"

lemma look_simps [simp]:
  "x_parser (look data p s ms pr u) = pr" "x_user (look data p s ms pr u) = u"
  "x_state (look data p s ms pr u) = s" "x_p (look data p s ms pr u) = p"
  "x_nread (look data p s ms pr u) = of_nat (Suc p)"
  "x_ch (look data p s ms pr u) = data ! p" "x_marks (look data p s ms pr u) = ms"
  by (simp_all add: look_def)

lemma look_updates [simp]:
  "goto_state s' (look data p s ms pr u) = look data p s' ms pr u"
  "with_parser f (look data p s ms pr u) = look data p s ms (f pr) u"
  "set_mark m (look data p s ms pr u) = look data p s (if ms m = None then ms(m := Some p) else ms) pr u"
  "set_index i (look data p s ms pr u) = look data p s ms (pr\<lparr>pr_index := i\<rparr>) u"
  "(look data p s ms pr u)\<lparr>x_user := u'\<rparr> = look data p s ms pr u'"
  "(look data p s ms pr u)\<lparr>x_marks := ms'\<rparr> = look data p s ms' pr u"
  "reset_message (look data p s ms pr u) = look data p s ms
     (pr\<lparr>pr_flags := {}, pr_uses_transfer_encoding := False, pr_content_length := ULLONG_MAX\<rparr>) u"
  by (simp_all add: look_def goto_state_def with_parser_def set_mark_def set_index_def reset_message_def)

lemma loop_at_simps [simp]: "x_p (loop_at data p s ms pr u) = p" "x_state (loop_at data p s ms pr u) = s"
  "x_parser (loop_at data p s ms pr u) = pr"
  by (simp_all add: loop_at_def)

text \<open>A byte that is handled once or twice.\<close>

lemma reexecute_break:
  "execute_case S data x = Inr (Break y) \<Longrightarrow> reexecute (Suc n) S data x = Inr (Break y)"
  "execute_case S data x = Inr (Return v y) \<Longrightarrow> reexecute (Suc n) S data x = Inr (Return v y)"
  by simp_all

lemma reexecute_again:
  "execute_case S data x = Inr (Reexecute z) \<Longrightarrow> reexecute (Suc n) S data x = reexecute n S data z"
  by simp

lemma fuel_five: "(5::nat) = Suc (Suc (Suc (Suc (Suc 0))))"
  by simp

lemma counted:
  assumes "p < HTTP_MAX_HEADER_SIZE"
  shows "\<not> of_nat HTTP_MAX_HEADER_SIZE < (of_nat (Suc p) :: u32)"
  using assms by (simp add: word_less_nat_alt unat_of_nat HTTP_MAX_HEADER_SIZE_def del: of_nat_Suc)

lemma loop_step:
  assumes "p < length data" "p < HTTP_MAX_HEADER_SIZE" "parsing_header s"
  shows "execute_loop (Suc n) S data (loop_at data p s ms pr u) =
    obind (reexecute 5 S data (look data p s ms pr u)) (\<lambda>fl.
      case fl of
        Break x1 \<Rightarrow> execute_loop n S data (x1\<lparr>x_p := Suc (x_p x1)\<rparr>)
      | Reexecute x1 \<Rightarrow> Inl Diverges
      | Goto_error x1 \<Rightarrow> at_error x1
      | Return v x1 \<Rightarrow> Inr (Return v x1))"
proof -
  have look: "(loop_at data p s ms pr u)\<lparr>x_ch := data ! p, x_nread := of_nat p + 1\<rparr> = look data p s ms pr u"
    by (simp add: loop_at_def look_def add.commute)
  have "x_nread (loop_at data p s ms pr u) = of_nat p" by (simp add: loop_at_def)
  with assms counted [OF assms(2)] look show ?thesis
    by (simp add: execute_loop.simps [of "Suc n"] count_header_size_def Let_def add.commute
        del: reexecute.simps)
qed

lemma runs_byte:
  assumes "p < length data" "p < HTTP_MAX_HEADER_SIZE" "parsing_header s" "p \<le> q"
    and "reexecute 5 S data (look data p s ms pr u) = Inr (Break (look data q s' ms' pr' u'))"
  shows "runs S data (loop_at data p s ms pr u) (loop_at data (Suc q) s' ms' pr' u')"
proof -
  have "(look data q s' ms' pr' u')\<lparr>x_p := Suc q\<rparr> = loop_at data (Suc q) s' ms' pr' u'"
    by (simp add: look_def loop_at_def)
  then have "execute_loop (n + 1) S data (loop_at data p s ms pr u) =
      execute_loop n S data (loop_at data (Suc q) s' ms' pr' u')" for n
    using loop_step [OF assms(1-3), of n S ms pr u] assms(5) by simp
  with assms(4) show ?thesis unfolding runs_def by (intro conjI exI [of _ 1]) auto
qed

text \<open>A byte that is handled once, in the state \<open>s\<close>.\<close>

lemma runs_case:
  assumes "p < length data" "p < HTTP_MAX_HEADER_SIZE" "parsing_header s"
    and "execute_case S data (look data p s ms pr u) = Inr (Break (look data p s' ms' pr' u'))"
  shows "runs S data (loop_at data p s ms pr u) (loop_at data (Suc p) s' ms' pr' u')"
  using assms by (intro runs_byte) (simp_all add: fuel_five)

text \<open>A run that ends the call.\<close>

lemma runs_return:
  assumes "runs S data (loop_at data 0 s0 ms0 pr0 u0) (loop_at data p s ms pr u)"
    and "p < length data" "p < HTTP_MAX_HEADER_SIZE" "parsing_header s"
    and "reexecute 5 S data (look data p s ms pr u) = Inr (Return v y)"
  shows "execute_loop (length data) S data (loop_at data 0 s0 ms0 pr0 u0) = Inr (Return v y)"
proof -
  obtain k where k: "k \<le> p" "\<And>n. execute_loop (n + k) S data (loop_at data 0 s0 ms0 pr0 u0) =
      execute_loop n S data (loop_at data p s ms pr u)"
    using assms(1) by (auto simp: runs_def)
  obtain n where n: "length data = Suc n + k"
    using k(1) assms(2) by (metis add_Suc less_imp_Suc_add less_le_trans not_less add.commute le_less)
  show ?thesis
    unfolding n k(2) using loop_step [OF assms(2-4), of n S ms pr u] assms(5) by simp
qed


text \<open>Callbacks that go well.\<close>

lemma notify_look:
  "pr_http_errno pr = HPE_OK \<Longrightarrow> f (pr\<lparr>pr_state := s\<rparr>) u = (0, u') \<Longrightarrow>
   callback_notify (Some f) err er (look data p s ms pr u) k = k (look data p s ms (pr\<lparr>pr_state := s\<rparr>) u')"
  by (simp add: callback_notify_def Let_def)

lemma data_look:
  "pr_http_errno pr = HPE_OK \<Longrightarrow> ms m = Some i \<Longrightarrow> on_data S m = Some f \<Longrightarrow>
   f (pr\<lparr>pr_state := s\<rparr>) (take (p - i) (drop i data)) u = (0, u') \<Longrightarrow>
   data_advance S data m (look data p s ms pr u) k =
     k (look data p s (ms(m := None)) (pr\<lparr>pr_state := s\<rparr>) u')"
  by (simp add: data_advance_def callback_data_def Let_def)

subsection \<open>The request line\<close>

text \<open>A parser in the middle of a request with the method \<open>m\<close> that has set no flag.\<close>

definition in_request :: "http_method \<Rightarrow> http_parser \<Rightarrow> bool" where
  "in_request m pr \<longleftrightarrow> pr_http_errno pr = HPE_OK \<and> pr_flags pr = {} \<and> pr_method pr = m"

lemma in_request_simps [simp]:
  "in_request m (pr\<lparr>pr_state := s\<rparr>) = in_request m pr" "in_request m (pr\<lparr>pr_index := i\<rparr>) = in_request m pr"
  "in_request m (set_header_state h pr) = in_request m pr" "in_request m (set_major i pr) = in_request m pr"
  "in_request m (pr\<lparr>pr_header_state := h\<rparr>) = in_request m pr" "in_request m (set_minor i pr) = in_request m pr"
  "in_request m (pr\<lparr>pr_uses_transfer_encoding := b\<rparr>) = in_request m pr"
  "in_request m (pr\<lparr>pr_upgrade := b\<rparr>) = in_request m pr"
  "in_request m (pr\<lparr>pr_nread := k\<rparr>) = in_request m pr"
  by (simp_all add: in_request_def set_header_state_def set_major_def set_minor_def)

text \<open>How the name of a method is recognised, letter by letter.\<close>

fun method_scan :: "http_method \<Rightarrow> nat \<Rightarrow> bytes \<Rightarrow> http_method option" where
  "method_scan m i [] = (if i = length (method_strings m) then Some m else None)"
| "method_scan m i (c # cs) =
     (if c = 0 \<or> c = c_sp then None
      else if i < length (method_strings m) \<and> c = byte_of_char (method_strings m ! i)
      then method_scan m (i + 1) cs
      else if i \<le> length (method_strings m) \<and> (c_A \<le> c \<and> c \<le> c_Z \<or> c = c_minus)
      then (case method_switch m i c of None \<Rightarrow> None | Some m' \<Rightarrow> method_scan m' (i + 1) cs)
      else None)"

definition name_scan :: "bytes \<Rightarrow> http_method option" where
  "name_scan cs =
     (case cs of [] \<Rightarrow> None
      | c # cs \<Rightarrow> if c \<in> {c_cr, c_lf, c_H, c_R} \<or> \<not> is_alpha c then None
                else case method_of_letter c of None \<Rightarrow> None | Some m \<Rightarrow> method_scan m 1 cs)"

text \<open>
  The methods that a parser of both types of message recognises in a request: not those that
  begin with the letter of a response, nor the one whose name is written with spaces. (\<^verbatim>\<open>HEAD\<close>
  is recognised on another path.)
\<close>

lemma method_scans:
  assumes "m \<notin> {HTTP_HEAD, HTTP_REPORT, HTTP_REBIND, HTTP_MSEARCH}"
  shows "name_scan (bytes_of (method_strings m)) = Some m"
  using assms
  by (cases m)
    (simp_all add: name_scan_def bytes_of_def byte_of_char_def method_of_letter_def method_switch_def
      is_alpha_def lower_def)


abbreviation no_marks :: "mark \<Rightarrow> nat option" where
  "no_marks \<equiv> \<lambda>_. None"

lemma method_step:
  assumes scan: "method_scan m i (c # cs) = Some m'"
    and p: "p < length data" "data ! p = c" "p < HTTP_MAX_HEADER_SIZE"
    and pr: "in_request m pr" "pr_index pr = i" "i < 31"
  shows "\<exists>m1 pr1. runs S data (loop_at data p s_req_method ms pr u) (loop_at data (Suc p) s_req_method ms pr1 u)
    \<and> in_request m1 pr1 \<and> pr_index pr1 = i + 1 \<and> method_scan m1 (i + 1) cs = Some m'"
proof -
  have m: "pr_method pr = m" and ok: "pr_http_errno pr = HPE_OK" "pr_flags pr = {}"
    using pr(1) by (simp_all add: in_request_def)
  have c: "c \<noteq> 0" "c \<noteq> c_sp" using scan by (auto split: if_splits)
  define m1 where "m1 = (if i < length (method_strings m) \<and> c = byte_of_char (method_strings m ! i) then m
                         else the (method_switch m i c))"
  define pr1 where "pr1 = pr\<lparr>pr_method := m1, pr_index := i + 1\<rparr>"
  have rest: "method_scan m1 (i + 1) cs = Some m'"
    using scan by (auto simp: m1_def split: if_splits option.splits)
  have i: "i \<le> length (method_strings m)" "(i + 1) mod 32 = i + 1"
    using scan pr(3) by (auto split: if_splits)
  obtain d where d: "string_at (method_strings m) i = Inr d"
    "d = c \<longleftrightarrow> i < length (method_strings m) \<and> c = byte_of_char (method_strings m ! i)"
    using i(1) c(1) by (cases "i < length (method_strings m)") (auto simp: string_at_def)
  have "case_req_method (look data p s_req_method ms pr u) =
      Inr (Break (look data p s_req_method ms pr1 u))"
  proof (cases "i < length (method_strings m) \<and> c = byte_of_char (method_strings m ! i)")
    case True
    have "pr1 = pr\<lparr>pr_index := i + 1\<rparr>" using True m by (simp add: pr1_def m1_def)
    with True d c i(2) pr(2) p(2) m show ?thesis
      by (simp add: case_req_method_def Let_def next_byte_def del: One_nat_def add_Suc_right)
  next
    case False
    with scan c i have "c_A \<le> c \<and> c \<le> c_Z \<or> c = c_minus" "method_switch m i c = Some m1"
      by (auto simp: m1_def split: if_splits option.splits)
    moreover have "d \<noteq> c" "c \<noteq> d" using False d(2) by auto
    ultimately show ?thesis using d(1) c i(2) pr(2) p(2) m
      by (simp add: case_req_method_def Let_def next_byte_def pr1_def del: One_nat_def add_Suc_right)
  qed
  then have "runs S data (loop_at data p s_req_method ms pr u) (loop_at data (Suc p) s_req_method ms pr1 u)"
    using p by (intro runs_case) (simp_all add: execute_case_def parsing_header_def)
  moreover have "in_request m1 pr1" "pr_index pr1 = i + 1"
    using ok by (simp_all add: pr1_def in_request_def)
  ultimately show ?thesis using rest by blast
qed

lemma run_method_rest:
  assumes "method_scan m i cs = Some m'" "reads data p cs" "p + length cs \<le> HTTP_MAX_HEADER_SIZE"
    "in_request m pr" "pr_index pr = i" "i + length cs < 32"
  shows "\<exists>pr'. runs S data (loop_at data p s_req_method ms pr u)
      (loop_at data (p + length cs) s_req_method ms pr' u)
    \<and> in_request m' pr' \<and> pr_index pr' = length (method_strings m')"
  using assms
proof (induction cs arbitrary: m i p pr)
  case Nil
  then have "m = m'" "i = length (method_strings m)" by (simp_all split: if_splits)
  with Nil show ?case by (intro exI [of _ pr]) simp
next
  case (Cons c cs)
  obtain m1 pr1 where step: "runs S data (loop_at data p s_req_method ms pr u) (loop_at data (Suc p) s_req_method ms pr1 u)"
    and 1: "in_request m1 pr1" "pr_index pr1 = i + 1" "method_scan m1 (i + 1) cs = Some m'"
    using method_step [OF Cons.prems(1), of p data pr S ms u] Cons.prems by (auto simp: reads_Cons)
  from Cons.IH [OF 1(3) _ _ 1(1,2), of "Suc p"] Cons.prems(2,3,6)
  obtain pr' where "runs S data (loop_at data (Suc p) s_req_method ms pr1 u)
      (loop_at data (p + length (c # cs)) s_req_method ms pr' u)"
    "in_request m' pr'" "pr_index pr' = length (method_strings m')" by (auto simp: reads_Cons)
  with step show ?case by (blast intro: runs_trans)
qed

text \<open>The first letter: the parser of both types decides for a request.\<close>

lemma name_scan_Cons:
  "name_scan cs = Some m \<Longrightarrow> \<exists>c cs' m0. cs = c # cs' \<and> c \<notin> {c_cr, c_lf, c_H, c_R} \<and> is_alpha c
     \<and> method_of_letter c = Some m0 \<and> method_scan m0 1 cs' = Some m"
  by (auto simp: name_scan_def split: list.splits if_splits option.splits)

lemma run_first_letter:
  assumes c: "c \<notin> {c_cr, c_lf, c_H, c_R}" "is_alpha c" "method_of_letter c = Some m0"
    and p: "p < length data" "data ! p = c" "p < HTTP_MAX_HEADER_SIZE"
    and pr: "pr_http_errno pr = HPE_OK"
    and cb: "on_message_begin S = Some f" "\<And>pr. f pr u = (0, u)"
  shows "\<exists>pr'. runs S data (loop_at data p s_start_req_or_res no_marks pr u)
      (loop_at data (Suc p) s_req_method no_marks pr' u) \<and> in_request m0 pr' \<and> pr_index pr' = 1"
proof -
  define pr1 where "pr1 = pr\<lparr>pr_type := HTTP_REQUEST, pr_flags := {}, pr_uses_transfer_encoding := False,
    pr_content_length := ULLONG_MAX, pr_method := m0, pr_index := 1, pr_state := s_req_method\<rparr>"
  have "reexecute 5 S data (look data p s_start_req_or_res no_marks pr u) =
      Inr (Break (look data p s_req_method no_marks pr1 u))"
    unfolding fuel_five
    using p(2) c pr cb
    by (simp add: execute_case_def case_start_req_or_res_def case_start_req_def is_line_end_def Let_def
        notify_look next_byte_def pr1_def)
  then have "runs S data (loop_at data p s_start_req_or_res no_marks pr u)
      (loop_at data (Suc p) s_req_method no_marks pr1 u)"
    using p by (intro runs_byte) (simp_all add: parsing_header_def)
  moreover have "in_request m0 pr1" "pr_index pr1 = 1" using pr by (simp_all add: in_request_def pr1_def)
  ultimately show ?thesis by blast
qed

lemma run_method:
  assumes scan: "name_scan cs = Some m" and r: "reads data p (cs @ [c_sp])"
    and n: "p + length cs < HTTP_MAX_HEADER_SIZE" "length cs < 32"
    and pr: "pr_http_errno pr = HPE_OK"
    and cb: "on_message_begin S = Some f" "\<And>pr. f pr u = (0, u)"
  shows "\<exists>pr'. runs S data (loop_at data p s_start_req_or_res no_marks pr u)
      (loop_at data (Suc (p + length cs)) (Url s_req_spaces_before_url) no_marks pr' u) \<and> in_request m pr'"
proof -
  obtain c cs' m0 where cs: "cs = c # cs'" and c: "c \<notin> {c_cr, c_lf, c_H, c_R}" "is_alpha c"
      "method_of_letter c = Some m0" and rest: "method_scan m0 1 cs' = Some m"
    using name_scan_Cons [OF scan] by blast
  have p: "p < length data" "data ! p = c" "reads data (Suc p) cs'" "p < HTTP_MAX_HEADER_SIZE"
    and sp: "p + length cs < length data" "data ! (p + length cs) = c_sp"
    using r n by (simp_all add: cs reads_Cons reads_append)
  obtain pr1 where first: "runs S data (loop_at data p s_start_req_or_res no_marks pr u)
      (loop_at data (Suc p) s_req_method no_marks pr1 u)"
    and pr1: "in_request m0 pr1" "pr_index pr1 = 1"
    using run_first_letter [OF c p(1,2,4) pr cb] by blast
  obtain pr2 where name: "runs S data (loop_at data (Suc p) s_req_method no_marks pr1 u)
      (loop_at data (Suc p + length cs') s_req_method no_marks pr2 u)"
    and pr2: "in_request m pr2" "pr_index pr2 = length (method_strings m)"
    using run_method_rest [OF rest p(3) _ pr1, of S no_marks u] n by (auto simp: cs)
  have "case_req_method (look data (p + length cs) s_req_method no_marks pr2 u) =
      Inr (Break (look data (p + length cs) (Url s_req_spaces_before_url) no_marks
        (pr2\<lparr>pr_index := (length (method_strings m) + 1) mod 32\<rparr>) u))"
    using sp(2) pr2 by (simp add: case_req_method_def Let_def string_at_def in_request_def next_byte_def)
  then have "runs S data (loop_at data (p + length cs) s_req_method no_marks pr2 u)
      (loop_at data (Suc (p + length cs)) (Url s_req_spaces_before_url) no_marks
        (pr2\<lparr>pr_index := (length (method_strings m) + 1) mod 32\<rparr>) u)"
    using sp(1) n by (intro runs_case) (simp_all add: execute_case_def parsing_header_def)
  with first name have "runs S data (loop_at data p s_start_req_or_res no_marks pr u)
      (loop_at data (Suc (p + length cs)) (Url s_req_spaces_before_url) no_marks
        (pr2\<lparr>pr_index := (length (method_strings m) + 1) mod 32\<rparr>) u)"
    by (auto simp: cs intro: runs_trans)
  with pr2 show ?thesis by (intro exI conjI) (assumption, simp)
qed

text \<open>The URL: no space and no line end, and each character is one that the parser of URLs takes.\<close>

fun url_scan :: "url_state \<Rightarrow> bytes \<Rightarrow> url_state option" where
  "url_scan s [] = Some s"
| "url_scan s (c # cs) =
     (if c \<in> {c_sp, c_cr, c_lf} then None
      else case parse_url_char s c of None \<Rightarrow> None | Some s' \<Rightarrow> url_scan s' cs)"

definition url_accepted :: "bytes \<Rightarrow> bool" where
  "url_accepted cs \<longleftrightarrow>
     cs \<noteq> [] \<and>
     (case url_scan s_req_spaces_before_url cs of
        None \<Rightarrow> False
      | Some s \<Rightarrow> s \<notin> {s_req_schema, s_req_schema_slash, s_req_schema_slash_slash, s_req_server_start,
                      s_req_spaces_before_url})"

lemma url_step_run:
  assumes scan: "url_scan s (c # cs) = Some s'" "s \<noteq> s_req_spaces_before_url"
    and p: "p < length data" "data ! p = c" "p < HTTP_MAX_HEADER_SIZE"
  shows "\<exists>s1. runs S data (loop_at data p (Url s) ms pr u) (loop_at data (Suc p) (Url s1) ms pr u)
    \<and> url_scan s1 cs = Some s' \<and> s1 \<noteq> s_req_spaces_before_url"
proof -
  obtain s1 where s1: "parse_url_char s c = Some s1" and c: "c \<noteq> c_sp" "c \<noteq> c_cr" "c \<noteq> c_lf"
    and rest: "url_scan s1 cs = Some s'"
    using scan(1) by (auto split: if_splits option.splits)
  have "case_url S data s (look data p (Url s) ms pr u) = Inr (Break (look data p (Url s1) ms pr u))"
    using scan(2) c p(2) s1 by (simp add: case_url_def url_step_def is_line_end_def next_byte_def)
  then have "runs S data (loop_at data p (Url s) ms pr u) (loop_at data (Suc p) (Url s1) ms pr u)"
    using p by (intro runs_case) (simp_all add: execute_case_def parsing_header_def)
  moreover have "s1 \<noteq> s_req_spaces_before_url" using s1 parse_url_char_moves [of s c] by auto
  ultimately show ?thesis using rest by blast
qed

lemma run_url_rest:
  assumes "url_scan s cs = Some s'" "reads data p cs" "p + length cs \<le> HTTP_MAX_HEADER_SIZE"
    "s \<noteq> s_req_spaces_before_url"
  shows "runs S data (loop_at data p (Url s) ms pr u) (loop_at data (p + length cs) (Url s') ms pr u)"
  using assms
proof (induction cs arbitrary: s p)
  case (Cons c cs)
  obtain s1 where step: "runs S data (loop_at data p (Url s) ms pr u) (loop_at data (Suc p) (Url s1) ms pr u)"
    and s1: "url_scan s1 cs = Some s'" "s1 \<noteq> s_req_spaces_before_url"
    using url_step_run [OF Cons.prems(1,4), of p data S ms pr u] Cons.prems(2,3) by (auto simp: reads_Cons)
  have "runs S data (loop_at data (Suc p) (Url s1) ms pr u) (loop_at data (Suc p + length cs) (Url s') ms pr u)"
    using Cons.IH [OF s1(1) _ _ s1(2), of "Suc p"] Cons.prems(2,3) by (simp add: reads_Cons)
  with step show ?case by (auto intro: runs_trans)
qed simp

lemma url_accepted_Cons:
  "url_accepted cs \<Longrightarrow> \<exists>c cs' s1 s. cs = c # cs' \<and> c \<noteq> c_sp
     \<and> parse_url_char s_req_spaces_before_url c = Some s1 \<and> url_scan s1 cs' = Some s
     \<and> s \<notin> {s_req_schema, s_req_schema_slash, s_req_schema_slash_slash, s_req_server_start, s_req_spaces_before_url}"
  by (cases cs) (auto simp: url_accepted_def split: option.splits if_splits)

lemma run_url_first:
  assumes "parse_url_char s_req_spaces_before_url c = Some s1" "c \<noteq> c_sp" "in_request m pr" "m \<noteq> HTTP_CONNECT"
    and "p < length data" "data ! p = c" "p < HTTP_MAX_HEADER_SIZE"
  shows "runs S data (loop_at data p (Url s_req_spaces_before_url) no_marks pr u)
      (loop_at data (Suc p) (Url s1) (no_marks(M_url := Some p)) pr u)"
proof -
  have "pr_method pr = m" using assms(3) by (simp add: in_request_def)
  then have "case_url S data s_req_spaces_before_url (look data p (Url s_req_spaces_before_url) no_marks pr u) =
      Inr (Break (look data p (Url s1) (no_marks(M_url := Some p)) pr u))"
    using assms by (simp add: case_url_def url_step_def next_byte_def)
  then show ?thesis
    using assms(5-7) by (intro runs_case) (simp_all add: execute_case_def parsing_header_def)
qed

lemma run_url:
  assumes url: "url_accepted cs" and r: "reads data p (cs @ [c_sp])" and n: "p + length cs < HTTP_MAX_HEADER_SIZE"
    and pr: "in_request m pr" "m \<noteq> HTTP_CONNECT"
    and cb: "on_data S M_url = Some f" "\<And>pr. f pr cs u = (0, u')"
  shows "\<exists>pr'. runs S data (loop_at data p (Url s_req_spaces_before_url) no_marks pr u)
      (loop_at data (Suc (p + length cs)) (Req s_req_http_start) no_marks pr' u') \<and> in_request m pr'"
proof -
  obtain c cs' s1 s where cs: "cs = c # cs'" and s1: "c \<noteq> c_sp" "parse_url_char s_req_spaces_before_url c = Some s1"
    and rest: "url_scan s1 cs' = Some s"
    and s: "s \<notin> {s_req_schema, s_req_schema_slash, s_req_schema_slash_slash, s_req_server_start, s_req_spaces_before_url}"
    using url_accepted_Cons [OF url] by blast
  have p: "p < length data" "data ! p = c" "reads data (Suc p) cs'" "p < HTTP_MAX_HEADER_SIZE"
    and sp: "p + length cs < length data" "data ! (p + length cs) = c_sp" and "reads data p cs"
    using r n by (simp_all add: cs reads_Cons reads_append)
  then have piece: "take (length cs) (drop p data) = cs" by (simp add: reads_def)
  let ?ms = "no_marks(M_url := Some p)"
  have meth: "pr_method pr = m" "pr_http_errno pr = HPE_OK" using pr(1) by (simp_all add: in_request_def)
  have "runs S data (loop_at data p (Url s_req_spaces_before_url) no_marks pr u) (loop_at data (Suc p) (Url s1) ?ms pr u)"
    using run_url_first [OF s1(2,1) pr p(1,2,4)] .
  moreover have "runs S data (loop_at data (Suc p) (Url s1) ?ms pr u) (loop_at data (p + length cs) (Url s) ?ms pr u)"
    using run_url_rest [OF rest p(3), of S ?ms pr u] n parse_url_char_moves [of s_req_spaces_before_url c] s1(2)
    by (auto simp: cs)
  moreover have "case_url S data s (look data (p + length cs) (Url s) ?ms pr u) =
      Inr (Break (look data (p + length cs) (Req s_req_http_start) no_marks
        (pr\<lparr>pr_state := Req s_req_http_start\<rparr>) u'))"
    using s sp meth cb piece
    by (simp add: case_url_def data_look next_byte_def)
  then have "runs S data (loop_at data (p + length cs) (Url s) ?ms pr u)
      (loop_at data (Suc (p + length cs)) (Req s_req_http_start) no_marks (pr\<lparr>pr_state := Req s_req_http_start\<rparr>) u')"
    using sp(1) n by (intro runs_case) (simp_all add: execute_case_def parsing_header_def)
  ultimately have "runs S data (loop_at data p (Url s_req_spaces_before_url) no_marks pr u)
      (loop_at data (Suc (p + length cs)) (Req s_req_http_start) no_marks (pr\<lparr>pr_state := Req s_req_http_start\<rparr>) u')"
    by (blast intro: runs_trans)
  with pr(1) show ?thesis by (intro exI conjI) (assumption, simp)
qed


text \<open>The version that ends the request line of RTSP.\<close>

definition version_line :: bytes where
  "version_line = bytes_of ''RTSP/1.0'' @ [c_cr, c_lf]"

lemma version_line_bytes: "version_line = [82, 84, 83, 80, 47, 49, 46, 48, 13, 10]"
  by (simp add: version_line_def bytes_of_def byte_of_char_def)

text \<open>The state and the parser after \<open>j\<close> bytes of the version.\<close>

definition version_states :: "http_state list" where
  "version_states = map Req [s_req_http_start, s_req_http_R, s_req_http_RT, s_req_http_RTS, s_req_http_RTSP,
     s_req_http_major, s_req_http_dot, s_req_http_minor, s_req_http_end, s_req_line_almost_done] @ [s_header_field_start]"

definition version_parser :: "nat \<Rightarrow> http_parser \<Rightarrow> http_parser" where
  "version_parser j pr =
     (if j < 6 then pr else if j < 8 then set_major 1 pr else set_minor 0 (set_major 1 pr))"

lemma version_step:
  assumes "j < 10" "p + j < length data" "data ! (p + j) = version_line ! j" "p + j < HTTP_MAX_HEADER_SIZE"
  shows "runs S data (loop_at data (p + j) (version_states ! j) no_marks (version_parser j pr) u)
    (loop_at data (Suc (p + j)) (version_states ! Suc j) no_marks (version_parser (Suc j) pr) u)"
proof -
  note simps = case_req_def expect_def strict_check_def next_byte_def version_digit_def version_char_def
    is_num_char_def digit_of_def version_states_def version_parser_def version_line_bytes
  have "j = 0 \<or> j = 1 \<or> j = 2 \<or> j = 3 \<or> j = 4 \<or> j = 5 \<or> j = 6 \<or> j = 7 \<or> j = 8 \<or> j = 9"
    using assms(1) by presburger
  then have "execute_case S data (look data (p + j) (version_states ! j) no_marks (version_parser j pr) u) =
      Inr (Break (look data (p + j) (version_states ! Suc j) no_marks (version_parser (Suc j) pr) u))
    \<and> parsing_header (version_states ! j)"
    using assms(3) by (elim disjE) (simp_all add: simps execute_case_def parsing_header_def)
  then show ?thesis using assms(2,4) by (intro runs_case) simp_all
qed

lemma run_version_part:
  assumes "reads data p (take j version_line)" "j \<le> 10" "p + j \<le> HTTP_MAX_HEADER_SIZE"
  shows "runs S data (loop_at data p (Req s_req_http_start) no_marks pr u)
    (loop_at data (p + j) (version_states ! j) no_marks (version_parser j pr) u)"
  using assms
proof (induction j)
  case 0
  then show ?case by (simp add: version_states_def version_parser_def)
next
  case (Suc j)
  have len: "length version_line = 10" by (simp add: version_line_bytes)
  have r: "reads data p (take j version_line)" "p + j < length data" "data ! (p + j) = version_line ! j"
    using Suc.prems(1,2) reads_nth [OF Suc.prems(1), of j] len
    by (simp_all add: take_Suc_conv_app_nth reads_append nth_append)
  show ?case
    using runs_trans [OF Suc.IH [OF r(1)] version_step [of j p data S pr u]] r Suc.prems(2,3) by simp
qed

lemma run_version:
  assumes r: "reads data p version_line" and n: "p + 10 \<le> HTTP_MAX_HEADER_SIZE" and pr: "in_request m pr"
  shows "\<exists>pr'. runs S data (loop_at data p (Req s_req_http_start) no_marks pr u)
      (loop_at data (p + 10) s_header_field_start no_marks pr' u) \<and> in_request m pr'"
proof -
  have "take 10 version_line = version_line" by (simp add: version_line_bytes)
  with run_version_part [of data p 10 S pr u] r n
  have "runs S data (loop_at data p (Req s_req_http_start) no_marks pr u)
      (loop_at data (p + 10) s_header_field_start no_marks (version_parser 10 pr) u)"
    by (simp add: version_states_def)
  moreover have "in_request m (version_parser 10 pr)" using pr by (simp add: version_parser_def)
  ultimately show ?thesis by blast
qed

end
