(* ===== verification/Http_Header_Run.thy ===== *)
theory Http_Header_Run
  imports Http_Run
begin

text \<open>
  Runs of the parser over header lines. The names that mean something to the parser are
  recognised exactly: the state for one of them is reached only by its name, in letters of
  either case. Every other header is passed on to the callbacks as it is.
\<close>

subsection \<open>The names that are recognised\<close>

definition special_names :: "bytes set" where
  "special_names = {bytes_of ''connection'', bytes_of ''proxy-connection'', bytes_of ''content-length'',
     bytes_of ''transfer-encoding'', bytes_of ''upgrade''}"

definition partly :: "string \<Rightarrow> bytes \<Rightarrow> nat \<Rightarrow> bool" where
  "partly name w i \<longleftrightarrow>
     length w = Suc i \<and> length w < length name \<and> length name < 31 \<and> w = take (length w) (bytes_of name)"

text \<open>What the state of the matcher says about the part of the name read so far, in small letters.\<close>

definition matched :: "bytes \<Rightarrow> http_parser \<Rightarrow> bool" where
  "matched w pr \<longleftrightarrow>
     (case pr_header_state pr of
        h_general \<Rightarrow> True
      | h_C \<Rightarrow> w = bytes_of ''c'' \<and> pr_index pr = 0
      | h_CO \<Rightarrow> w = bytes_of ''co'' \<and> pr_index pr = 1
      | h_CON \<Rightarrow> w = bytes_of ''con'' \<and> pr_index pr = 2
      | h_matching_connection \<Rightarrow> partly ''connection'' w (pr_index pr)
      | h_matching_proxy_connection \<Rightarrow> partly ''proxy-connection'' w (pr_index pr)
      | h_matching_content_length \<Rightarrow> partly ''content-length'' w (pr_index pr)
      | h_matching_transfer_encoding \<Rightarrow> partly ''transfer-encoding'' w (pr_index pr)
      | h_matching_upgrade \<Rightarrow> partly ''upgrade'' w (pr_index pr)
      | h_connection \<Rightarrow> w = bytes_of ''connection'' \<or> w = bytes_of ''proxy-connection''
      | h_content_length \<Rightarrow> w = bytes_of ''content-length''
      | h_transfer_encoding \<Rightarrow> w = bytes_of ''transfer-encoding''
      | h_upgrade \<Rightarrow> w = bytes_of ''upgrade''
      | _ \<Rightarrow> False)"

lemma nth_bytes_of: "i < length s \<Longrightarrow> bytes_of s ! i = byte_of_char (s ! i)"
  by (simp add: bytes_of_def)

lemma match_name_step:
  assumes "partly name w (pr_index pr)"
  shows "\<exists>pr'. match_name name done c pr = Inr pr' \<and>
     (pr_header_state pr' = h_general
      \<or> pr_header_state pr' = done \<and> w @ [c] = bytes_of name
      \<or> pr_header_state pr' = pr_header_state pr \<and> partly name (w @ [c]) (pr_index pr'))"
proof -
  let ?i = "pr_index pr + 1"
  have i: "length w = ?i" "?i < length name" "?i mod 32 = ?i" "length name < 31"
    using assms by (simp_all add: partly_def)
  have w: "w = take (length w) (bytes_of name)" using assms unfolding partly_def by blast
  have at: "string_at name ?i = Inr (byte_of_char (name ! ?i))" using i(2) by (simp add: string_at_def)
  have longer: "w @ [byte_of_char (name ! ?i)] = take (Suc ?i) (bytes_of name)"
    using w i(1,2) by (simp add: take_Suc_conv_app_nth nth_bytes_of)
  show ?thesis
  proof (cases "c = byte_of_char (name ! ?i)")
    case False
    with at i show ?thesis by (simp add: match_name_def Let_def set_header_state_def)
  next
    case True
    show ?thesis
    proof (cases "?i = length name - 1")
      case last: True
      then have "w @ [c] = bytes_of name" using longer True i(2) by simp
      with True last at i show ?thesis by (simp add: match_name_def Let_def set_header_state_def)
    next
      case inner: False
      then have "partly name (w @ [c]) ?i" using longer True i by (simp add: partly_def)
      with True inner at i show ?thesis
        by (simp add: match_name_def Let_def set_header_state_def del: One_nat_def add_Suc_right)
    qed
  qed
qed


lemma match_name_keeps: "match_name name done c pr = Inr pr' \<Longrightarrow> in_request m pr' = in_request m pr"
  by (auto simp: match_name_def Let_def obind_eq_Inr split: if_splits)

lemma matched_simps:
  "matched w (pr\<lparr>pr_uses_transfer_encoding := b\<rparr>) = matched w pr"
  "matched w (set_header_state h_general pr)"
  by (simp_all add: matched_def set_header_state_def cong: header_state.case_cong)

text \<open>The first letters by hand, the rest by the matcher.\<close>

lemma field_char_step:
  assumes m: "matched w pr" and c: "token ch = c" "c \<noteq> 0"
  shows "\<exists>pr'. field_char ch pr = Inr pr' \<and> matched (w @ [c]) pr'"
proof -
  have sp: "ch \<noteq> c_sp" using c by (auto simp: token_def)
  have gen: "\<exists>pr'. Inr (set_header_state h_general pr1) = Inr pr' \<and> matched (w @ [c]) pr'" for pr1
    by (simp add: matched_simps)
  show ?thesis
  proof (cases "pr_header_state pr")
    case h_general
    with m show ?thesis by (simp add: field_char_def matched_def)
  next
    case h_C
    with m c show ?thesis
      by (auto simp: field_char_def matched_def set_header_state_def Let_def bytes_of_def byte_of_char_def)
  next
    case h_CO
    with m c show ?thesis
      by (auto simp: field_char_def matched_def set_header_state_def Let_def bytes_of_def byte_of_char_def)
  next
    case h_CON
    with m c show ?thesis
      by (auto simp: field_char_def matched_def set_header_state_def Let_def bytes_of_def byte_of_char_def partly_def)
  next
    case h_matching_connection
    then have "partly ''connection'' w (pr_index pr)" using m by (simp add: matched_def)
    from match_name_step [OF this, of h_connection c] h_matching_connection c show ?thesis
      by (auto simp: field_char_def matched_def Let_def)
  next
    case h_matching_proxy_connection
    then have "partly ''proxy-connection'' w (pr_index pr)" using m by (simp add: matched_def)
    from match_name_step [OF this, of h_connection c] h_matching_proxy_connection c show ?thesis
      by (auto simp: field_char_def matched_def Let_def)
  next
    case h_matching_content_length
    then have "partly ''content-length'' w (pr_index pr)" using m by (simp add: matched_def)
    from match_name_step [OF this, of h_content_length c] h_matching_content_length c show ?thesis
      by (auto simp: field_char_def matched_def Let_def)
  next
    case h_matching_transfer_encoding
    then have "partly ''transfer-encoding'' w (pr_index pr)" using m by (simp add: matched_def)
    from match_name_step [OF this, of h_transfer_encoding c] h_matching_transfer_encoding c
    obtain pr1 where "match_name ''transfer-encoding'' h_transfer_encoding c pr = Inr pr1" "matched (w @ [c]) pr1"
      by (auto simp: matched_def)
    with h_matching_transfer_encoding c show ?thesis by (simp add: field_char_def matched_simps Let_def)
  next
    case h_matching_upgrade
    then have "partly ''upgrade'' w (pr_index pr)" using m by (simp add: matched_def)
    from match_name_step [OF this, of h_upgrade c] h_matching_upgrade c show ?thesis
      by (auto simp: field_char_def matched_def Let_def)
  qed (use m sp in \<open>simp_all add: matched_def [of w] field_char_def matched_simps\<close>)
qed

lemma field_char_keeps: "field_char ch pr = Inr pr' \<Longrightarrow> in_request m pr' = in_request m pr"
  by (cases "pr_header_state pr")
    (auto simp: field_char_def Let_def obind_eq_Inr match_name_keeps split: if_splits)

lemma field_run:
  assumes "\<forall>c \<in> set cs. token c \<noteq> 0" "matched w pr" "in_request m pr"
  shows "\<exists>pr'. ofold field_char cs pr = Inr pr' \<and> matched (w @ map token cs) pr' \<and> in_request m pr'"
  using assms
proof (induction cs arbitrary: w pr)
  case (Cons c cs)
  obtain pr1 where pr1: "field_char c pr = Inr pr1" "matched (w @ [token c]) pr1"
    using field_char_step [OF Cons.prems(2) refl, of c] Cons.prems(1) by auto
  with Cons.IH [of "w @ [token c]" pr1] Cons.prems field_char_keeps [OF pr1(1), of m] show ?case by simp
qed simp

text \<open>The loop over a name does the same as the steps in a row, whatever it skips.\<close>

lemma field_general: "pr_header_state pr = h_general \<Longrightarrow> ofold field_char cs pr = Inr pr"
  by (induction cs) (simp_all add: field_char_def)

definition name_at :: "bytes \<Rightarrow> nat \<Rightarrow> bytes" where
  "name_at data p = takeWhile (\<lambda>c. token c \<noteq> 0) (drop p data)"

lemma name_at_stop: "length data \<le> p \<or> token (data ! p) = 0 \<Longrightarrow> name_at data p = []"
  by (cases "p < length data") (auto simp: name_at_def simp flip: Cons_nth_drop_Suc)

lemma name_at_Cons: "p < length data \<Longrightarrow> token (data ! p) \<noteq> 0 \<Longrightarrow> name_at data p = data ! p # name_at data (Suc p)"
  by (simp add: name_at_def flip: Cons_nth_drop_Suc)

lemma takeWhile_window: "takeWhile P (take n xs) = take (length (takeWhile P (take n xs))) xs"
  by (induction xs arbitrary: n) (auto simp: take_Cons')

lemma name_at_skip:
  assumes "p < length data" "token (data ! p) \<noteq> 0"
  shows "p + length (name_at data p) = Suc (skip_tokens data p) + length (name_at data (Suc (skip_tokens data p)))"
proof -
  define t where "t = takeWhile (\<lambda>c. token c \<noteq> 0) (take (min (length data - p) HTTP_MAX_HEADER_SIZE - 1) (drop (Suc p) data))"
  have skip: "skip_tokens data p = p + length t" by (simp add: skip_tokens_def t_def)
  have "t = take (length t) (drop (Suc p) data)" unfolding t_def by (rule takeWhile_window)
  then have "drop (Suc p) data = t @ drop (length t) (drop (Suc p) data)"
    using append_take_drop_id [of "length t" "drop (Suc p) data"] by simp
  then have "drop (Suc p) data = t @ drop (Suc (skip_tokens data p)) data" by (simp add: skip add.commute)
  moreover have "\<forall>c \<in> set t. token c \<noteq> 0" unfolding t_def by (auto dest: set_takeWhileD)
  ultimately have "name_at data (Suc p) = t @ name_at data (Suc (skip_tokens data p))"
    unfolding name_at_def by (simp add: takeWhile_append2)
  then show ?thesis using name_at_Cons [OF assms] skip by simp
qed

lemma header_field_loop_steps:
  "header_field_loop data p pr = obind (ofold field_char (name_at data p) pr) (\<lambda>pr'. Inr (p + length (name_at data p), pr'))"
proof (induction data p pr rule: header_field_loop.induct)
  case (1 data p pr)
  show ?case
  proof (cases "length data \<le> p \<or> token (data ! p) = 0")
    case True
    then show ?thesis using name_at_stop [OF True] by (auto simp: header_field_loop.simps [of data p])
  next
    case False
    then have p: "p < length data" "token (data ! p) \<noteq> 0" by auto
    show ?thesis
    proof (cases "pr_header_state pr = h_general")
      case True
      let ?q = "Suc (skip_tokens data p)"
      have "header_field_loop data ?q pr = Inr (?q + length (name_at data ?q), pr)"
        using "1.IH"(1) p True by (simp add: field_general)
      with p True name_at_skip [OF p] show ?thesis
        by (simp add: header_field_loop.simps [of data p] field_general)
    next
      case False
      then have step: "header_field_loop data p pr = obind (field_char (data ! p) pr) (header_field_loop data (Suc p))"
        using p by (simp add: header_field_loop.simps [of data p])
      show ?thesis
      proof (cases "field_char (data ! p) pr")
        case (Inl e)
        with step name_at_Cons [OF p] show ?thesis by simp
      next
        case (Inr pr1)
        have "header_field_loop data (Suc p) pr1 = obind (ofold field_char (name_at data (Suc p)) pr1)
            (\<lambda>pr'. Inr (Suc p + length (name_at data (Suc p)), pr'))"
          using "1.IH"(2) p False Inr by simp
        with Inr step name_at_Cons [OF p] show ?thesis by simp
      qed
    qed
  qed
qed

text \<open>
  C30. The fast path over the name of a header does what the slow path does: the loop of the parser,
  which in the state \<^verbatim>\<open>h_general\<close> runs ahead over characters without looking at its state, and never by
  more than the limit for a header at once, is the loop that takes the name one character at a
  time, on every input, at every position and in every state of the parser: it stops at the same
  place, in the same state, or fails in the same way.
\<close>

theorem header_name_fast_path:
  "header_field_loop data p pr =
     obind (ofold field_char (takeWhile (\<lambda>c. token c \<noteq> 0) (drop p data)) pr)
       (\<lambda>pr'. Inr (p + length (takeWhile (\<lambda>c. token c \<noteq> 0) (drop p data)), pr'))"
  by (rule header_field_loop_steps [unfolded name_at_def])

lemma header_field_loop_run:
  assumes r: "reads data p cs" and cs: "\<forall>c \<in> set cs. token c \<noteq> 0" and q: "q = p + length cs"
    and stop: "q < length data \<Longrightarrow> token (data ! q) = 0"
  shows "header_field_loop data p pr = obind (ofold field_char cs pr) (\<lambda>pr'. Inr (q, pr'))"
proof -
  have split: "drop p data = cs @ drop q data"
    using r append_take_drop_id [of "length cs" "drop p data"] by (simp add: reads_def q add.commute)
  have "name_at data p = cs @ name_at data q"
    unfolding name_at_def split using cs by (intro takeWhile_append2) blast
  moreover have "name_at data q = []" using stop by (cases "q < length data") (simp_all add: name_at_stop)
  ultimately show ?thesis using q by (simp add: header_field_loop_steps)
qed

lemma matched_special: "matched w pr \<Longrightarrow> w \<notin> special_names \<Longrightarrow>
   pr_header_state pr \<notin> {h_connection, h_content_length, h_transfer_encoding, h_upgrade,
     h_matching_transfer_encoding_token_start, h_content_length_ws, h_matching_connection_token_start}"
  by (auto simp: matched_def special_names_def)

subsection \<open>Values\<close>

lemma header_value_loop_run:
  assumes r: "reads data p (vs @ [c_cr])" and vs: "\<forall>c \<in> set vs. is_header_char c \<and> \<not> is_line_end c"
    and n: "length vs < HTTP_MAX_HEADER_SIZE"
  shows "header_value_loop data lenient p h_general pr = Inr (V_cr, p + length vs, h_general, pr)"
proof -
  let ?q = "p + length vs" and ?w = "value_window data p"
  have q: "?q < length data" "data ! ?q = c_cr" using r by (simp_all add: reads_Cons reads_append)
  have cr: "header_value_loop data lenient ?q h_general pr = Inr (V_cr, ?q, h_general, pr)"
    using q by (simp add: header_value_loop.simps [of data lenient ?q] Let_def)
  show ?thesis
  proof (cases vs)
    case Nil
    with cr show ?thesis by simp
  next
    case (Cons v vs')
    have v: "p < length data" "data ! p = v" "is_header_char v" "\<not> is_line_end v"
      using r vs by (simp_all add: Cons reads_Cons)
    have "drop p data = vs @ c_cr # drop (Suc ?q) data"
      using r by (metis Cons_nth_drop_Suc append_take_drop_id drop_drop q reads_append reads_def add.commute)
    moreover obtain k where "min (length data - p) HTTP_MAX_HEADER_SIZE = length vs + Suc k"
      using less_imp_Suc_add [of "length vs" "min (length data - p) HTTP_MAX_HEADER_SIZE"] q(1) n
      by (auto simp: less_diff_conv add.commute)
    ultimately obtain ys where w: "?w = vs @ c_cr # ys"
      by (simp add: value_window_def)
    have "takeWhile (plain_char lenient) ?w = vs"
      using vs by (auto simp: w takeWhile_append takeWhile_eq_all_conv plain_char_def is_line_end_def)
    then have run: "plain_run lenient data p = length vs" by (simp add: plain_run_def)
    have "max (length vs) 1 = length vs" using Cons by simp
    with v run w cr show ?thesis
      by (simp add: header_value_loop.simps [of data lenient p] Let_def is_line_end_def)
  qed
qed

text \<open>A value that the input ends in.\<close>

lemma header_value_loop_more:
  assumes "reads data p vs" "p + length vs = length data" "\<forall>c \<in> set vs. is_header_char c \<and> \<not> is_line_end c"
    and "length vs < HTTP_MAX_HEADER_SIZE"
  shows "header_value_loop data lenient p h_general pr = Inr (V_more, length data, h_general, pr)"
proof (cases vs)
  case Nil
  then show ?thesis using assms(2) by (simp add: header_value_loop.simps [of data lenient "length data"])
next
  case (Cons v vs')
  have stop: "header_value_loop data lenient (length data) h_general pr = Inr (V_more, length data, h_general, pr)"
    by (simp add: header_value_loop.simps [of data lenient "length data"])
  have v: "p < length data" "data ! p = v" "is_header_char v" "\<not> is_line_end v"
    using assms by (simp_all add: Cons reads_Cons)
  have "drop p data = vs" using assms(1,2) by (simp add: reads_def)
  then have w: "value_window data p = vs" using assms(2,4) by (auto simp: value_window_def)
  have all: "takeWhile (plain_char lenient) vs = vs"
    using assms(3) by (auto simp: takeWhile_eq_all_conv plain_char_def is_line_end_def)
  have run: "plain_run lenient data p = length vs" unfolding plain_run_def w all ..
  show ?thesis
    using v w run assms(2) stop
    by (simp add: header_value_loop.simps [of data lenient p] Let_def is_line_end_def)
qed

subsection \<open>A header line\<close>

definition wf_header :: "bytes \<times> bytes \<Rightarrow> bool" where
  "wf_header h \<longleftrightarrow>
     fst h \<noteq> [] \<and> (\<forall>c \<in> set (fst h). token c \<noteq> 0) \<and> map token (fst h) \<notin> special_names
     \<and> snd h \<noteq> [] \<and> hd (snd h) \<notin> {c_sp, c_ht}
     \<and> (\<forall>c \<in> set (snd h). is_header_char c \<and> \<not> is_line_end c)"

definition header_line :: "bytes \<times> bytes \<Rightarrow> bytes" where
  "header_line h = fst h @ [c_colon, c_sp] @ snd h @ [c_cr, c_lf]"

text \<open>A header may begin here: after the request line, or after another header.\<close>

definition header_start :: "http_state \<Rightarrow> http_parser \<Rightarrow> bool" where
  "header_start s pr \<longleftrightarrow>
     s = s_header_field_start \<or> s = s_header_value_lws \<and> pr_header_state pr = h_general"

lemma at_header_start:
  assumes "header_start s pr" "data ! p \<notin> {c_sp, c_ht}"
    and "execute_case S data (look data p s_header_field_start ms pr u) = Inr (Break y)"
  shows "reexecute 5 S data (look data p s ms pr u) = Inr (Break y)"
proof (cases "s = s_header_field_start")
  case False
  with assms(1) have s: "s = s_header_value_lws" "pr_header_state pr = h_general"
    by (simp_all add: header_start_def)
  have "finish_value pr = pr" using s(2) by (simp add: finish_value_def)
  then have "execute_case S data (look data p s ms pr u) =
      Inr (Reexecute (look data p s_header_field_start ms pr u))"
    using assms(2) s(1) by (simp add: execute_case_def case_header_value_lws_def)
  then show ?thesis unfolding fuel_five using assms(3) by simp
qed (use assms(3) in \<open>simp add: fuel_five\<close>)

lemma token_not_end: "token c \<noteq> 0 \<Longrightarrow> c \<notin> {c_cr, c_lf, c_sp, c_ht, c_colon}"
  by (auto simp: token_def tokens_def)

lemma first_header_state:
  assumes "token c \<noteq> 0"
  shows "matched [token c] (set_header_state
     (if token c = c_c then h_C else if token c = c_p then h_matching_proxy_connection
      else if token c = c_t then h_matching_transfer_encoding
      else if token c = c_u then h_matching_upgrade else h_general) (pr\<lparr>pr_index := 0\<rparr>))"
  by (simp add: matched_def set_header_state_def partly_def bytes_of_def byte_of_char_def)


lemma count_moved:
  assumes "p \<le> q" "q < HTTP_MAX_HEADER_SIZE"
  shows "count_header_size (q - p) ((look data p s ms pr u)\<lparr>x_parser := pr', x_p := q, x_ch := data ! q\<rparr>) k =
     k (look data q s ms pr' u)"
proof -
  have "x_nread ((look data p s ms pr u)\<lparr>x_parser := pr', x_p := q, x_ch := data ! q\<rparr>) + of_nat (q - p) =
      of_nat (Suc q)"
    using assms(1) by (simp add: of_nat_diff)
  then show ?thesis
    using counted [OF assms(2)] by (simp add: count_header_size_def Let_def look_def del: of_nat_Suc)
qed

lemma run_name_first:
  assumes c: "token c \<noteq> 0" and p: "p < length data" "data ! p = c" "p < HTTP_MAX_HEADER_SIZE"
    and pr: "in_request m pr" "header_start s pr"
  shows "\<exists>pr1. runs S data (loop_at data p s no_marks pr u)
      (loop_at data (Suc p) s_header_field (no_marks(M_header_field := Some p)) pr1 u)
    \<and> matched [token c] pr1 \<and> in_request m pr1"
proof -
  let ?ms = "no_marks(M_header_field := Some p)"
  obtain pr1 where pr1: "pr1 = set_header_state
     (if token c = c_c then h_C else if token c = c_p then h_matching_proxy_connection
      else if token c = c_t then h_matching_transfer_encoding
      else if token c = c_u then h_matching_upgrade else h_general) (pr\<lparr>pr_index := 0\<rparr>)" by simp
  have "execute_case S data (look data p s_header_field_start no_marks pr u) =
      Inr (Break (look data p s_header_field ?ms pr1 u))"
    using p c token_not_end [OF c]
    by (simp add: execute_case_def case_header_field_start_def Let_def next_byte_def pr1)
  then have "reexecute 5 S data (look data p s no_marks pr u) = Inr (Break (look data p s_header_field ?ms pr1 u))"
    using at_header_start [OF pr(2), of data p S no_marks u] token_not_end [OF c] p(2) by simp
  then have "runs S data (loop_at data p s no_marks pr u) (loop_at data (Suc p) s_header_field ?ms pr1 u)"
    using p pr(2) by (intro runs_byte) (auto simp: header_start_def parsing_header_def)
  moreover have "matched [token c] pr1" "in_request m pr1"
    using first_header_state [OF c] pr(1) by (simp_all add: pr1)
  ultimately show ?thesis by blast
qed

lemma run_header_name:
  assumes name: "name \<noteq> []" "\<forall>c \<in> set name. token c \<noteq> 0"
    and r: "reads data p (name @ [c_colon])" and n: "p + length name < HTTP_MAX_HEADER_SIZE"
    and pr: "in_request m pr" "header_start s pr"
    and cb: "on_data S M_header_field = Some f" "\<And>pr. f pr name u = (0, u')"
  shows "\<exists>pr'. runs S data (loop_at data p s no_marks pr u)
      (loop_at data (Suc (p + length name)) s_header_value_discard_ws no_marks pr' u')
    \<and> in_request m pr' \<and> matched (map token name) pr'"
proof -
  obtain c cs where cs: "name = c # cs" using name(1) by (cases name) simp_all
  let ?q = "p + length name" and ?ms = "no_marks(M_header_field := Some p)"
  have p: "p < length data" "data ! p = c" "token c \<noteq> 0" "reads data (Suc p) cs" "p < HTTP_MAX_HEADER_SIZE"
    and q: "?q < length data" "data ! ?q = c_colon" and "reads data p name"
    using r n name(2) by (simp_all add: cs reads_Cons reads_append)
  then have piece: "take (length name) (drop p data) = name" by (simp add: reads_def)
  obtain pr1 where first: "runs S data (loop_at data p s no_marks pr u) (loop_at data (Suc p) s_header_field ?ms pr1 u)"
    and pr1: "matched [token c] pr1" "in_request m pr1"
    using run_name_first [OF p(3,1,2,5) pr, of S u] by (elim exE conjE) (rule that; assumption)
  obtain pr2 where pr2: "ofold field_char cs pr1 = Inr pr2" "matched (map token name) pr2" "in_request m pr2"
    using field_run [OF _ pr1, of cs] name(2) by (auto simp: cs)
  have colon: "token c_colon = 0" by (simp add: token_def nth_tokens token_entry_def)
  have loop: "header_field_loop data (Suc p) pr1 = Inr (?q, pr2)"
    using header_field_loop_run [OF p(4), of ?q pr1] name(2) q pr2(1) colon by (simp add: cs)
  have ok: "pr_http_errno pr2 = HPE_OK" using pr2(3) by (simp add: in_request_def)
  have moved: "count_header_size (?q - Suc p) ((look data (Suc p) s_header_field ?ms pr1 u)
      \<lparr>x_parser := pr2, x_p := ?q, x_ch := c_colon\<rparr>) k = k (look data ?q s_header_field ?ms pr2 u)" for k
    using count_moved [where p = "Suc p" and q = ?q and data = data and s = s_header_field and ms = ?ms
        and pr = pr1 and u = u and pr' = pr2 and k = k] q(2) n cs by simp
  have "case_header_field S data (look data (Suc p) s_header_field ?ms pr1 u) =
      Inr (Break (look data ?q s_header_value_discard_ws no_marks (pr2\<lparr>pr_state := s_header_value_discard_ws\<rparr>) u'))"
    using loop q moved ok cb piece
    by (simp add: case_header_field_def data_look next_byte_def)
  then have "runs S data (loop_at data (Suc p) s_header_field ?ms pr1 u)
      (loop_at data (Suc ?q) s_header_value_discard_ws no_marks (pr2\<lparr>pr_state := s_header_value_discard_ws\<rparr>) u')"
    using p q n by (intro runs_byte) (simp_all add: cs execute_case_def parsing_header_def fuel_five)
  with first have "runs S data (loop_at data p s no_marks pr u)
      (loop_at data (Suc ?q) s_header_value_discard_ws no_marks (pr2\<lparr>pr_state := s_header_value_discard_ws\<rparr>) u')"
    by (rule runs_trans)
  moreover have "matched (map token name) (pr2\<lparr>pr_state := s_header_value_discard_ws\<rparr>)"
    using pr2(2) by (simp add: matched_def cong: header_state.case_cong)
  ultimately show ?thesis using pr2(3) by (intro exI conjI) (assumption, simp_all)
qed


lemma data_advance_ok:
  "pr_http_errno (x_parser y) = HPE_OK \<Longrightarrow> x_marks y m = Some i \<Longrightarrow> on_data S m = Some f \<Longrightarrow>
   f ((x_parser y)\<lparr>pr_state := x_state y\<rparr>) (take (x_p y - i) (drop i data)) (x_user y) = (0, u') \<Longrightarrow>
   data_advance S data m y k =
     k (y\<lparr>x_parser := (x_parser y)\<lparr>pr_state := x_state y\<rparr>, x_user := u', x_marks := (x_marks y)(m := None)\<rparr>)"
  by (simp add: data_advance_def callback_data_def Let_def with_parser_def)

lemma value_line_end:
  assumes loop: "header_value_loop data (pr_lenient_http_headers pr) p (pr_header_state pr) pr = Inr (V_cr, q, h, pr)"
    and pq: "p \<le> q" "q < HTTP_MAX_HEADER_SIZE" "data ! q = c_cr"
    and ok: "pr_http_errno pr = HPE_OK" "ms M_header_value = Some i" "on_data S M_header_value = Some f"
    and cb: "\<And>pr. f pr (take (q - i) (drop i data)) u = (0, u')"
  shows "case_header_value S data (look data p s ms pr u) =
     Inr (Break (look data q s_header_almost_done (ms(M_header_value := None))
       (pr\<lparr>pr_header_state := h, pr_state := s_header_almost_done\<rparr>) u'))"
proof -
  have "(of_nat (Suc p) :: u32) + of_nat (q - p) = of_nat (Suc q)" using pq(1) by (simp add: of_nat_diff)
  then show ?thesis
    using loop pq ok cb counted [OF pq(2)]
    by (simp add: case_header_value_def Let_def data_advance_ok count_header_size_def next_byte_def
        set_header_state_def look_def goto_state_def with_parser_def del: of_nat_Suc)
qed

lemma run_value_blank:
  assumes "p < length data" "data ! p = c_sp" "p < HTTP_MAX_HEADER_SIZE"
  shows "runs S data (loop_at data p s_header_value_discard_ws no_marks pr u)
      (loop_at data (Suc p) s_header_value_discard_ws no_marks pr u)"
  using assms by (intro runs_case)
    (simp_all add: execute_case_def case_header_value_discard_ws_def next_byte_def parsing_header_def)

lemma run_value_first:
  assumes "p < length data" "data ! p \<notin> {c_sp, c_ht, c_cr, c_lf}" "p < HTTP_MAX_HEADER_SIZE"
    and pr: "in_request m pr" "matched w pr" "w \<notin> special_names"
  shows "\<exists>pr1. runs S data (loop_at data p s_header_value_discard_ws no_marks pr u)
      (loop_at data (Suc p) s_header_value (no_marks(M_header_value := Some p)) pr1 u)
    \<and> in_request m pr1 \<and> pr_header_state pr1 = h_general"
proof -
  define pr1 where "pr1 = pr\<lparr>pr_index := 0, pr_header_state := h_general\<rparr>"
  have "case_header_value_start (look data p s_header_value_discard_ws no_marks pr u) =
      Inr (Break (look data p s_header_value (no_marks(M_header_value := Some p)) pr1 u))"
    using matched_special [OF pr(2,3)]
    by (cases "pr_header_state pr")
      (simp_all add: case_header_value_start_def Let_def next_byte_def set_header_state_def pr1_def)
  then have "runs S data (loop_at data p s_header_value_discard_ws no_marks pr u)
      (loop_at data (Suc p) s_header_value (no_marks(M_header_value := Some p)) pr1 u)"
    using assms(1-3) by (intro runs_case)
      (simp_all add: execute_case_def case_header_value_discard_ws_def parsing_header_def)
  moreover have "in_request m pr1" "pr_header_state pr1 = h_general"
    using pr(1) by (simp_all add: pr1_def in_request_def)
  ultimately show ?thesis by blast
qed

lemma run_header_value:
  assumes v: "val \<noteq> []" "hd val \<notin> {c_sp, c_ht}" "\<forall>c \<in> set val. is_header_char c \<and> \<not> is_line_end c"
    and r: "reads data p (c_sp # val @ [c_cr, c_lf])" and n: "p + length val + 3 \<le> HTTP_MAX_HEADER_SIZE"
    and pr: "in_request m pr" "matched w pr" "w \<notin> special_names"
    and cb: "on_data S M_header_value = Some f" "\<And>pr. f pr val u = (0, u')"
  shows "\<exists>pr'. runs S data (loop_at data p s_header_value_discard_ws no_marks pr u)
      (loop_at data (p + length val + 3) s_header_value_lws no_marks pr' u')
    \<and> in_request m pr' \<and> header_start s_header_value_lws pr'"
proof -
  obtain c cs where cs: "val = c # cs" using v(1) by (cases val) simp_all
  let ?q = "p + 1 + length val" and ?ms = "no_marks(M_header_value := Some (Suc p))"
  have p: "p < length data" "data ! p = c_sp" "Suc p < length data" "data ! Suc p = c"
      "reads data (Suc (Suc p)) (cs @ [c_cr])" "reads data (Suc p) val"
    and q: "?q < length data" "data ! ?q = c_cr" "Suc ?q < length data" "data ! Suc ?q = c_lf"
    using r by (simp_all add: cs reads_Cons reads_append)
  have piece: "take (?q - Suc p) (drop (Suc p) data) = val" using p(6) by (simp add: reads_def)
  have c: "c \<noteq> c_sp" "c \<noteq> c_ht" "c \<noteq> c_cr" "c \<noteq> c_lf" using v(2,3) by (simp_all add: cs is_line_end_def)
  have blank: "runs S data (loop_at data p s_header_value_discard_ws no_marks pr u)
      (loop_at data (Suc p) s_header_value_discard_ws no_marks pr u)"
    using p n by (intro run_value_blank) simp_all
  obtain pr1 where first: "runs S data (loop_at data (Suc p) s_header_value_discard_ws no_marks pr u)
      (loop_at data (Suc (Suc p)) s_header_value ?ms pr1 u)"
    and ok: "in_request m pr1" "pr_header_state pr1 = h_general"
    using run_value_first [of "Suc p" data m pr w S u] p(3,4) c n pr by auto
  have errno: "pr_http_errno pr1 = HPE_OK" using ok(1) by (simp add: in_request_def)
  have "length cs < HTTP_MAX_HEADER_SIZE" using n by (simp add: cs)
  then have loop: "header_value_loop data (pr_lenient_http_headers pr1) (Suc (Suc p)) (pr_header_state pr1) pr1 =
      Inr (V_cr, ?q, h_general, pr1)"
    using header_value_loop_run [OF p(5)] v(3) ok(2) by (simp add: cs)
  let ?pr2 = "pr1\<lparr>pr_header_state := h_general, pr_state := s_header_almost_done\<rparr>"
  have "case_header_value S data (look data (Suc (Suc p)) s_header_value ?ms pr1 u) =
      Inr (Break (look data ?q s_header_almost_done no_marks ?pr2 u'))"
    using value_line_end [OF loop _ _ q(2) errno, of ?ms "Suc p" S f u u' s_header_value] n cb piece by (simp add: cs)
  then have last: "runs S data (loop_at data (Suc (Suc p)) s_header_value ?ms pr1 u)
      (loop_at data (Suc ?q) s_header_almost_done no_marks ?pr2 u')"
    using p q n by (intro runs_byte) (simp_all add: cs execute_case_def parsing_header_def fuel_five)
  have "runs S data (loop_at data (Suc ?q) s_header_almost_done no_marks ?pr2 u')
      (loop_at data (Suc (Suc ?q)) s_header_value_lws no_marks ?pr2 u')"
    using q n by (intro runs_case)
      (simp_all add: execute_case_def case_header_almost_done_def next_byte_def parsing_header_def)
  with blank first last have "runs S data (loop_at data p s_header_value_discard_ws no_marks pr u)
      (loop_at data (Suc (Suc ?q)) s_header_value_lws no_marks ?pr2 u')"
    by (blast intro: runs_trans)
  moreover have eq: "p + length val + 3 = Suc (Suc ?q)" by simp
  ultimately show ?thesis unfolding eq using ok(1) by (intro exI [of _ ?pr2]) (simp add: header_start_def)
qed

text \<open>A whole header: the name and the value reach their callbacks, in this order.\<close>

lemma run_header:
  assumes h: "wf_header h" and r: "reads data p (header_line h)"
    and n: "p + length (header_line h) \<le> HTTP_MAX_HEADER_SIZE"
    and pr: "in_request m pr" "header_start s pr"
    and name: "on_data S M_header_field = Some f" "\<And>pr. f pr (fst h) u = (0, u1)"
    and val: "on_data S M_header_value = Some g" "\<And>pr. g pr (snd h) u1 = (0, u2)"
  shows "\<exists>pr' s'. runs S data (loop_at data p s no_marks pr u)
      (loop_at data (p + length (header_line h)) s' no_marks pr' u2) \<and> in_request m pr' \<and> header_start s' pr'"
proof -
  let ?q = "Suc (p + length (fst h))"
  have r: "reads data p (fst h @ [c_colon])" "reads data ?q (c_sp # snd h @ [c_cr, c_lf])"
    using r by (simp_all add: header_line_def reads_append reads_Cons)
  have "p + length (fst h) < HTTP_MAX_HEADER_SIZE" using n by (simp add: header_line_def)
  then obtain pr1 where 1: "runs S data (loop_at data p s no_marks pr u)
      (loop_at data ?q s_header_value_discard_ws no_marks pr1 u1)"
    "in_request m pr1" "matched (map token (fst h)) pr1"
    using run_header_name [OF _ _ r(1) _ pr name] h by (auto simp: wf_header_def)
  have "?q + length (snd h) + 3 \<le> HTTP_MAX_HEADER_SIZE" using n by (simp add: header_line_def)
  then obtain pr2 where 2: "runs S data (loop_at data ?q s_header_value_discard_ws no_marks pr1 u1)
      (loop_at data (?q + length (snd h) + 3) s_header_value_lws no_marks pr2 u2)"
    "in_request m pr2" "header_start s_header_value_lws pr2"
    using run_header_value [OF _ _ _ r(2) _ 1(2,3) _ val] h by (auto simp: wf_header_def)
  have eq: "p + length (header_line h) = ?q + length (snd h) + 3" by (simp add: header_line_def)
  show ?thesis unfolding eq using runs_trans [OF 1(1) 2(1)] 2(2,3) by blast
qed

end
