(* ===== verification/Rtsp_Request.thy ===== *)
theory Rtsp_Request
  imports Rtsp_Parser Http_Header_Run
begin

text \<open>
  A request that is printed and then read by the parser of the RTSP side: method, URL and
  headers come back, and exactly the bytes of the request are consumed, whatever follows them.
\<close>

subsection \<open>Requests\<close>

type_synonym header_list = "(bytes \<times> bytes) list"

definition request_bytes :: "http_method \<Rightarrow> bytes \<Rightarrow> header_list \<Rightarrow> bytes" where
  "request_bytes m url hs =
     bytes_of (method_strings m) @ [c_sp] @ url @ [c_sp] @ version_line
     @ concat (map header_line hs) @ [c_cr, c_lf]"

definition wf_request :: "http_method \<Rightarrow> bytes \<Rightarrow> header_list \<Rightarrow> bool" where
  "wf_request m url hs \<longleftrightarrow>
     m \<notin> {HTTP_HEAD, HTTP_REPORT, HTTP_REBIND, HTTP_MSEARCH, HTTP_CONNECT}
     \<and> url_accepted url \<and> (\<forall>h \<in> set hs. wf_header h)
     \<and> length (request_bytes m url hs) \<le> HTTP_MAX_HEADER_SIZE"

definition header_texts :: "header_list \<Rightarrow> (string \<times> string) list" where
  "header_texts hs = map (\<lambda>(n, v). (text_of n, text_of v)) hs"

subsection \<open>What the callbacks collect\<close>

lemma settings_simps [simp]:
  "on_message_begin rtsp_settings = Some rtsp_on_message_begin"
  "on_data rtsp_settings M_url = Some rtsp_on_url"
  "on_data rtsp_settings M_header_field = Some rtsp_on_header_field"
  "on_data rtsp_settings M_header_value = Some rtsp_on_header_value"
  "on_headers_complete rtsp_settings = Some rtsp_on_headers_complete"
  "on_message_complete rtsp_settings = Some rtsp_on_message_complete"
  by (simp_all add: rtsp_settings_def)

text \<open>The headers, with the one that is still in the hands of the callbacks.\<close>

definition pending :: "rtsp_parser \<Rightarrow> (string \<rightharpoonup> string)" where
  "pending u = (if rp_field u \<noteq> [] then emplace (rp_field u) (rp_value u) (rp_headers u) else rp_headers u)"

definition paired :: "rtsp_parser \<Rightarrow> bool" where
  "paired u \<longleftrightarrow> (rp_field u = [] \<longleftrightarrow> rp_value u = [])"

lemma on_url_result:
  "\<exists>u'. (\<forall>pr. rtsp_on_url pr at u = (0, u')) \<and> rp_url u' = rp_url u @ text_of at
     \<and> rp_field u' = rp_field u \<and> rp_value u' = rp_value u \<and> rp_headers u' = rp_headers u
     \<and> rp_parse_step u' = rp_parse_step u"
proof (cases "http_parser_parse_url at False http_parser_url_init")
  case (Inl e)
  then show ?thesis by (auto simp: rtsp_on_url_def Let_def)
next
  case (Inr r)
  then show ?thesis by (cases r) (auto simp: rtsp_on_url_def Let_def)
qed

definition next_field :: "rtsp_parser \<Rightarrow> bytes \<Rightarrow> rtsp_parser" where
  "next_field u name = snd (rtsp_on_header_field (rp_parser u) name u)"

definition next_value :: "rtsp_parser \<Rightarrow> bytes \<Rightarrow> rtsp_parser" where
  "next_value u val = u\<lparr>rp_value := rp_value u @ text_of val\<rparr>"

lemma text_of_Nil_iff [simp]: "text_of bs = [] \<longleftrightarrow> bs = []"
  by (simp add: text_of_def)

lemma on_header_result:
  assumes "paired u" "name \<noteq> []" "val \<noteq> []"
  shows "rtsp_on_header_field pr name u = (0, next_field u name)"
    "rtsp_on_header_value pr val (next_field u name) = (0, next_value (next_field u name) val)"
    "paired (next_value (next_field u name) val)"
    "pending (next_value (next_field u name) val) = emplace (text_of name) (text_of val) (pending u)"
    "rp_url (next_value (next_field u name) val) = rp_url u"
  using assms
  by (auto simp: rtsp_on_header_field_def rtsp_on_header_value_def next_field_def next_value_def Let_def
      paired_def pending_def)

lemma run_headers:
  assumes "\<forall>h \<in> set hs. wf_header h" "reads data p (concat (map header_line hs))"
    "p + length (concat (map header_line hs)) \<le> HTTP_MAX_HEADER_SIZE"
    "in_request m pr" "header_start s pr" "paired u"
  shows "\<exists>pr' s' u'. runs rtsp_settings data (loop_at data p s no_marks pr u)
      (loop_at data (p + length (concat (map header_line hs))) s' no_marks pr' u')
    \<and> in_request m pr' \<and> header_start s' pr' \<and> rp_url u' = rp_url u
    \<and> pending u' = fold (\<lambda>(n, v). emplace n v) (header_texts hs) (pending u)"
  using assms
proof (induction hs arbitrary: p s pr u)
  case Nil
  then show ?case
    by (intro exI [of _ pr] exI [of _ s] exI [of _ u]) (simp add: header_texts_def)
next
  case (Cons h hs)
  let ?q = "p + length (header_line h)" and ?u = "next_value (next_field u (fst h)) (snd h)"
  have h: "wf_header h" "fst h \<noteq> []" "snd h \<noteq> []" using Cons.prems(1) by (simp_all add: wf_header_def)
  have r: "reads data p (header_line h)" "reads data ?q (concat (map header_line hs))"
    using Cons.prems(2) by (simp_all add: reads_append)
  note u = on_header_result [OF Cons.prems(6) h(2,3)]
  obtain pr1 s1 where 1: "runs rtsp_settings data (loop_at data p s no_marks pr u) (loop_at data ?q s1 no_marks pr1 ?u)"
      "in_request m pr1" "header_start s1 pr1"
    using run_header [OF h(1) r(1) _ Cons.prems(4,5) settings_simps(3) u(1) settings_simps(4) u(2)] Cons.prems(3)
    by auto
  have n: "?q + length (concat (map header_line hs)) \<le> HTTP_MAX_HEADER_SIZE" using Cons.prems(3) by simp
  obtain pr2 s2 u2 where 2: "runs rtsp_settings data (loop_at data ?q s1 no_marks pr1 ?u)
      (loop_at data (?q + length (concat (map header_line hs))) s2 no_marks pr2 u2)"
    "in_request m pr2" "header_start s2 pr2" "rp_url u2 = rp_url ?u"
    "pending u2 = fold (\<lambda>(n, v). emplace n v) (header_texts hs) (pending ?u)"
    using Cons.IH [OF _ r(2) n 1(2,3) u(3)] Cons.prems(1) by auto
  have "p + length (concat (map header_line (h # hs))) = ?q + length (concat (map header_line hs))" by simp
  moreover have "pending u2 = fold (\<lambda>(n, v). emplace n v) (header_texts (h # hs)) (pending u)"
    using 2(5) u(4) by (simp add: header_texts_def case_prod_unfold)
  ultimately show ?case using runs_trans [OF 1(1) 2(1)] 2(2-4) u(5) by metis
qed

text \<open>The first of several headers with one name is kept.\<close>

lemma fold_emplace: "fold (\<lambda>(n, v). emplace n v) hs g k = (case g k of Some v \<Rightarrow> Some v | None \<Rightarrow> map_of hs k)"
proof (induction hs arbitrary: g)
  case (Cons h hs)
  then show ?case by (cases h) (auto simp: emplace_def split: option.split)
qed (simp split: option.split)

subsection \<open>The end of a request\<close>

lemma run_end_first:
  assumes p: "p < length data" "data ! p = c_cr" "p < HTTP_MAX_HEADER_SIZE" and pr: "header_start s pr"
  shows "runs S data (loop_at data p s no_marks pr u) (loop_at data (Suc p) s_headers_almost_done no_marks pr u)"
proof -
  have "execute_case S data (look data p s_header_field_start no_marks pr u) =
      Inr (Break (look data p s_headers_almost_done no_marks pr u))"
    using p(2) by (simp add: execute_case_def case_header_field_start_def next_byte_def)
  then have "reexecute 5 S data (look data p s no_marks pr u) =
      Inr (Break (look data p s_headers_almost_done no_marks pr u))"
    using at_header_start [OF pr, of data p S no_marks u] p(2) by simp
  then show ?thesis using p pr by (intro runs_byte) (auto simp: header_start_def parsing_header_def)
qed

lemma run_end:
  assumes r: "reads data p [c_cr, c_lf]" and n: "Suc (Suc p) \<le> HTTP_MAX_HEADER_SIZE"
    and pr: "in_request m pr" "header_start s pr"
  shows "\<exists>pr1 y. runs rtsp_settings data (loop_at data p s no_marks pr u)
      (loop_at data (Suc p) s_headers_almost_done no_marks pr1 u)
    \<and> reexecute 5 rtsp_settings data (look data (Suc p) s_headers_almost_done no_marks pr1 u) =
        Inr (Return (Suc (Suc p)) y)
    \<and> pr_http_errno (x_parser y) = HPE_OK
    \<and> rp_parse_step (x_user y) = kParseComplete \<and> rp_method (x_user y) = method_strings m
    \<and> rp_url (x_user y) = rp_url u \<and> rp_headers (x_user y) = pending u"
proof -
  have p: "p < length data" "data ! p = c_cr" "Suc p < length data" "data ! Suc p = c_lf"
    using r by (simp_all add: reads_Cons)
  have first: "runs rtsp_settings data (loop_at data p s no_marks pr u)
      (loop_at data (Suc p) s_headers_almost_done no_marks pr u)"
    using p n pr(2) by (intro run_end_first) simp_all
  let ?u = "u\<lparr>rp_headers := pending u\<rparr>" and ?pr = "add_flag F_SKIPBODY (pr\<lparr>pr_upgrade := True\<rparr>)"
  have flags: "pr_flags pr = {}" "pr_http_errno pr = HPE_OK" "pr_method pr = m"
    using pr(1) by (simp_all add: in_request_def)
  have cb: "rtsp_on_headers_complete pr' u = (2, ?u)" for pr'
    by (simp add: rtsp_on_headers_complete_def pending_def)
  have almost: "execute_case rtsp_settings data (look data (Suc p) s_headers_almost_done no_marks pr u) =
      Inr (Reexecute (look data (Suc p) s_headers_done no_marks ?pr ?u))"
    using p(4) flags cb
    by (simp add: execute_case_def case_headers_almost_done_def strict_check_def headers_complete_def Let_def
        add_flag_def)
  obtain y where last: "execute_case rtsp_settings data (look data (Suc p) s_headers_done no_marks ?pr ?u) =
      Inr (Return (Suc (Suc p)) y)" "pr_http_errno (x_parser y) = HPE_OK"
      "x_user y = ?u\<lparr>rp_parse_step := kParseComplete, rp_method := method_strings m\<rparr>"
    using p(4) flags
    by (simp add: execute_case_def case_headers_done_def strict_check_def Let_def add_flag_def complete_message_def
        callback_notify_def rtsp_on_message_complete_def http_method_str_def store_return_def reset_nread_def
        with_parser_def goto_state_def)
  have "reexecute 5 rtsp_settings data (look data (Suc p) s_headers_almost_done no_marks pr u) =
      Inr (Return (Suc (Suc p)) y)"
    unfolding fuel_five reexecute_again [OF almost] by (rule reexecute_break(2) [OF last(1)])
  with first last(2,3) show ?thesis by (intro exI [of _ pr] exI [of _ y]) simp
qed


subsection \<open>The whole request\<close>

lemma run_request:
  assumes wf: "wf_request m url hs" and u: "rp_field u = []" "rp_value u = []" and pr: "pr_http_errno pr = HPE_OK"
  shows "\<exists>y. execute_loop (length (request_bytes m url hs @ rest)) rtsp_settings (request_bytes m url hs @ rest)
       (loop_at (request_bytes m url hs @ rest) 0 s_start_req_or_res no_marks pr u) =
      Inr (Return (length (request_bytes m url hs)) y)
    \<and> pr_http_errno (x_parser y) = HPE_OK
    \<and> rp_parse_step (x_user y) = kParseComplete \<and> rp_method (x_user y) = method_strings m
    \<and> rp_url (x_user y) = rp_url u @ text_of url
    \<and> rp_headers (x_user y) = fold (\<lambda>(n, v). emplace n v) (header_texts hs) (rp_headers u)"
proof -
  let ?name = "bytes_of (method_strings m)" and ?hs = "concat (map header_line hs)"
  define data where "data = request_bytes m url hs @ rest"
  have m: "m \<notin> {HTTP_HEAD, HTTP_REPORT, HTTP_REBIND, HTTP_MSEARCH}" "m \<noteq> HTTP_CONNECT" "url_accepted url"
    and hs: "\<forall>h \<in> set hs. wf_header h"
    and n: "length (request_bytes m url hs) \<le> HTTP_MAX_HEADER_SIZE"
    using wf by (simp_all add: wf_request_def)
  define p1 where "p1 = Suc (length ?name)"
  define p2 where "p2 = Suc (p1 + length url)"
  define p3 where "p3 = p2 + 10"
  define p4 where "p4 = p3 + length ?hs"
  have len: "length (request_bytes m url hs) = Suc (Suc p4)"
    by (simp add: request_bytes_def version_line_bytes p1_def p2_def p3_def p4_def)
  have parts: "request_bytes m url hs = (?name @ [c_sp]) @ (url @ [c_sp]) @ version_line @ ?hs @ [c_cr, c_lf]"
    by (simp add: request_bytes_def)
  have at: "0 + length (?name @ [c_sp]) = p1" "p1 + length (url @ [c_sp]) = p2" "p2 + length version_line = p3"
      "p3 + length ?hs = p4"
    by (simp_all add: p1_def p2_def p3_def p4_def version_line_bytes)
  have "reads data 0 (request_bytes m url hs)" by (simp add: data_def reads_def)
  then have r: "reads data 0 (?name @ [c_sp])" "reads data p1 (url @ [c_sp])" "reads data p2 version_line"
      "reads data p3 ?hs" "reads data p4 [c_cr, c_lf]"
    unfolding parts reads_append [of _ _ "?name @ [c_sp]"] reads_append [of _ _ "url @ [c_sp]"]
      reads_append [of _ _ version_line] reads_append [of _ _ ?hs] at by blast+
  have b: "0 + length ?name < HTTP_MAX_HEADER_SIZE" "p1 + length url < HTTP_MAX_HEADER_SIZE"
      "p2 + 10 \<le> HTTP_MAX_HEADER_SIZE" "p3 + length ?hs \<le> HTTP_MAX_HEADER_SIZE" "Suc (Suc p4) \<le> HTTP_MAX_HEADER_SIZE"
    using n len by (simp_all add: p1_def p2_def p3_def p4_def)
  have short: "length ?name < 32" using length_method_strings [of m] by simp
  have "\<And>pr. rtsp_on_message_begin pr u = (0, u)" by (simp add: rtsp_on_message_begin_def)
  then obtain pr1 where 1: "runs rtsp_settings data (loop_at data 0 s_start_req_or_res no_marks pr u)
      (loop_at data p1 (Url s_req_spaces_before_url) no_marks pr1 u)" "in_request m pr1"
    using run_method [OF method_scans [OF m(1)] r(1) b(1) short pr settings_simps(1)] by (auto simp: p1_def)
  obtain u2 where url: "\<And>pr. rtsp_on_url pr url u = (0, u2)" "rp_url u2 = rp_url u @ text_of url"
      "rp_field u2 = []" "rp_value u2 = []" "rp_headers u2 = rp_headers u"
    using on_url_result [of url u] u by auto
  obtain pr2 where 2: "runs rtsp_settings data (loop_at data p1 (Url s_req_spaces_before_url) no_marks pr1 u)
      (loop_at data p2 (Req s_req_http_start) no_marks pr2 u2)" "in_request m pr2"
    using run_url [OF m(3) r(2) b(2) 1(2) m(2) settings_simps(2) url(1)] by (auto simp: p2_def)
  obtain pr3 where 3: "runs rtsp_settings data (loop_at data p2 (Req s_req_http_start) no_marks pr2 u2)
      (loop_at data p3 s_header_field_start no_marks pr3 u2)" "in_request m pr3"
    using run_version [OF r(3) b(3) 2(2), of rtsp_settings u2] by (auto simp: p3_def)
  have "header_start s_header_field_start pr3" "paired u2" using url(3,4) by (simp_all add: header_start_def paired_def)
  then obtain pr4 s4 u4 where 4: "runs rtsp_settings data (loop_at data p3 s_header_field_start no_marks pr3 u2)
      (loop_at data p4 s4 no_marks pr4 u4)" "in_request m pr4" "header_start s4 pr4" "rp_url u4 = rp_url u2"
      "pending u4 = fold (\<lambda>(n, v). emplace n v) (header_texts hs) (pending u2)"
    using run_headers [OF hs r(4) b(4) 3(2), of s_header_field_start u2] unfolding p4_def by blast
  obtain pr5 y where 5: "runs rtsp_settings data (loop_at data p4 s4 no_marks pr4 u4)
      (loop_at data (Suc p4) s_headers_almost_done no_marks pr5 u4)"
      "reexecute 5 rtsp_settings data (look data (Suc p4) s_headers_almost_done no_marks pr5 u4) =
        Inr (Return (Suc (Suc p4)) y)"
      "pr_http_errno (x_parser y) = HPE_OK" "rp_parse_step (x_user y) = kParseComplete"
      "rp_method (x_user y) = method_strings m" "rp_url (x_user y) = rp_url u4" "rp_headers (x_user y) = pending u4"
    using run_end [OF r(5) b(5) 4(2,3)] by blast
  have run: "runs rtsp_settings data (loop_at data 0 s_start_req_or_res no_marks pr u)
      (loop_at data (Suc p4) s_headers_almost_done no_marks pr5 u4)"
    by (rule runs_trans [OF 1(1) runs_trans [OF 2(1) runs_trans [OF 3(1) runs_trans [OF 4(1) 5(1)]]]])
  have "Suc p4 < length data" "Suc p4 < HTTP_MAX_HEADER_SIZE" using b(5) by (simp_all add: data_def len)
  from runs_return [OF run this _ 5(2)]
  have "execute_loop (length data) rtsp_settings data (loop_at data 0 s_start_req_or_res no_marks pr u) =
      Inr (Return (Suc (Suc p4)) y)"
    by (simp add: parsing_header_def)
  moreover have "pending u2 = rp_headers u" using url(3,5) by (simp add: pending_def)
  ultimately show ?thesis
    using 5(3-7) 4(4,5) url(2) len unfolding data_def [symmetric] by auto
qed

lemma request_read:
  assumes "wf_request m url hs"
  shows "\<exists>p'. rtsp_parser_input (request_bytes m url hs @ rest) (rtsp_parser_reset p) =
       Inr (int (length (request_bytes m url hs)), p')
     \<and> rtsp_complete p' \<and> rp_method p' = method_strings m \<and> rp_url p' = text_of url
     \<and> rp_headers p' = map_of (header_texts hs)"
proof -
  let ?p = "rtsp_parser_reset p" and ?data = "request_bytes m url hs @ rest"
  have p: "rp_field ?p = []" "rp_value ?p = []" "rp_url ?p = []" "rp_headers ?p = Map.empty"
      "pr_http_errno (rp_parser ?p) = HPE_OK" "pr_state (rp_parser ?p) = s_start_req_or_res"
      "pr_nread (rp_parser ?p) = 0"
    by (simp_all add: rtsp_parser_reset_def http_parser_init_def)
  have start: "exec_start (rp_parser ?p) ?p = loop_at ?data 0 s_start_req_or_res no_marks (rp_parser ?p) ?p"
    using p by (simp add: exec_start_def loop_at_def initial_marks_def)
  obtain y where y: "execute_loop (length ?data) rtsp_settings ?data (exec_start (rp_parser ?p) ?p) =
      Inr (Return (length (request_bytes m url hs)) y)"
    "pr_http_errno (x_parser y) = HPE_OK" "rp_parse_step (x_user y) = kParseComplete"
    "rp_method (x_user y) = method_strings m" "rp_url (x_user y) = text_of url"
    "rp_headers (x_user y) = fold (\<lambda>(n, v). emplace n v) (header_texts hs) Map.empty"
    using run_request [OF assms p(1,2,5), of rest] p(3,4) unfolding start by auto
  have "request_bytes m url hs \<noteq> []" by (simp add: request_bytes_def)
  then have run: "http_parser_execute rtsp_settings ?data (rp_parser ?p) ?p =
      Inr (length (request_bytes m url hs), x_parser y, x_user y)"
    using p(5) y(1) by (simp add: http_parser_execute_def)
  have "length (request_bytes m url hs) < 2 ^ 31"
    using assms by (simp add: wf_request_def HTTP_MAX_HEADER_SIZE_def)
  moreover have "fold (\<lambda>(n, v). emplace n v) (header_texts hs) Map.empty = map_of (header_texts hs)"
    by (rule ext) (simp add: fold_emplace)
  ultimately show ?thesis
    using run y(2-6) by (simp add: rtsp_parser_input_def rtsp_complete_def to_c_int_small)
qed

text \<open>A request that is well formed.\<close>

definition sample_url :: bytes where
  "sample_url = bytes_of ''rtsp://h:554/live/a''"

definition sample_headers :: header_list where
  "sample_headers = [(bytes_of ''CSeq'', bytes_of ''7''), (bytes_of ''User-Agent'', bytes_of ''x y'')]"

lemma sample_length: "length (request_bytes HTTP_OPTIONS sample_url sample_headers) = 66"
  by (simp add: request_bytes_def version_line_bytes header_line_def sample_url_def sample_headers_def)

lemma sample_wf: "wf_request HTTP_OPTIONS sample_url sample_headers"
proof -
  have url: "url_accepted sample_url"
    by (simp add: sample_url_def url_accepted_def bytes_of_def byte_of_char_def parse_url_char_def
        parse_server_char_def is_url_char_iff is_alpha_def lower_def is_userinfo_char_def is_alphanum_def
        is_num_char_def)
  have hs: "\<forall>h \<in> set sample_headers. wf_header h"
    by (simp add: sample_headers_def wf_header_def special_names_def bytes_of_def byte_of_char_def token_def
        nth_tokens token_entry_def is_header_char_def is_line_end_def)
  show ?thesis
    using url hs sample_length by (simp add: wf_request_def HTTP_MAX_HEADER_SIZE_def)
qed



end
