(* ===== verification/Rtsp_Server_Context.thy ===== *)
theory Rtsp_Server_Context
  imports Rtsp_Request Frame_Buffer
begin

text \<open>
  The server side of an RTSP connection (\<^verbatim>\<open>rtsp_server_context.h\<close>, \<^verbatim>\<open>rtsp_server_context.cc\<close>): it
  keeps the bytes that have not been used in a cache, tells interleaved RTCP packets from requests,
  and calls the handler of its owner for each of them.

  The handlers are the \<^verbatim>\<open>std::function\<close> members of \<^verbatim>\<open>rtsp_server_context_handler\<close>; each may be
  empty. They change the state \<^verbatim>\<open>'s\<close> of their owner, get the sequence number of the request (which
  they read with \<^verbatim>\<open>ctx->seq()\<close>), and their result is not used by the callers.
\<close>

subsection \<open>State\<close>

record rtsp_transport =
  tp_transport :: int
  tp_multicast :: int
  tp_client_port1 :: u16
  tp_client_port2 :: u16
  tp_interleaved1 :: int
  tp_interleaved2 :: int

record 's rtsp_server_context_handler =
  on_options :: "(string \<Rightarrow> int \<Rightarrow> 's \<Rightarrow> 's outcome) option"
  on_describe :: "(string \<Rightarrow> int \<Rightarrow> 's \<Rightarrow> 's outcome) option"
  on_setup :: "(string \<Rightarrow> string \<Rightarrow> rtsp_transport \<Rightarrow> int \<Rightarrow> 's \<Rightarrow> 's outcome) option"
  on_play :: "(string \<Rightarrow> string \<Rightarrow> int \<Rightarrow> 's \<Rightarrow> 's outcome) option"
  on_rtcp :: "(int \<Rightarrow> frame_buffer \<Rightarrow> 's \<Rightarrow> 's outcome) option"
  on_teardown :: "(string \<Rightarrow> string \<Rightarrow> int \<Rightarrow> 's \<Rightarrow> 's outcome) option"

record rtsp_server_context =
  rs_seq :: int
  rs_cache :: fixed_frame_buffer
  rs_parser :: rtsp_parser

definition rtsp_server_context_create :: "u16 \<Rightarrow> rtsp_server_context" where
  "rtsp_server_context_create port =
     \<lparr>rs_seq = - 1, rs_cache = fixed_create, rs_parser = rtsp_parser_create port\<rparr>"

definition RTSP_PARSE_ERROR :: int where
  "RTSP_PARSE_ERROR = - 1"

definition RTSP_PARSE_CONTINUE :: int where
  "RTSP_PARSE_CONTINUE = - 2"

definition kRtcpPrefixLength :: nat where
  "kRtcpPrefixLength = 4"

subsection \<open>The transport header\<close>

text \<open>
  \<^verbatim>\<open>sscanf(s, "<prefix>%d-%d", &a, &b)\<close>: the numbers that are assigned. The conversion \<^verbatim>\<open>%hu\<close>
  reads the same numerals and keeps the last 16 bits.
\<close>

definition sscanf_pair :: "string \<Rightarrow> string \<Rightarrow> (int \<times> int option) option" where
  "sscanf_pair lead s =
     (if \<not> starts_with s lead then None
      else case scan_int (drop (length lead) s) of
             None \<Rightarrow> None
           | Some (a, rest) \<Rightarrow>
               Some (a, case rest of
                 [] \<Rightarrow> None
               | c # cs \<Rightarrow> if c = CHR ''-'' then map_option fst (scan_int cs) else None))"

definition rtsp_transport_init :: rtsp_transport where
  "rtsp_transport_init =
     \<lparr>tp_transport = 0, tp_multicast = 0, tp_client_port1 = 0, tp_client_port2 = 0,
      tp_interleaved1 = - 1, tp_interleaved2 = - 1\<rparr>"

definition parse_transport_token :: "string \<Rightarrow> rtsp_transport \<Rightarrow> rtsp_transport" where
  "parse_transport_token t r =
     (let r1 = (if t = ''RTP/AVP/TCP'' then r\<lparr>tp_transport := 1\<rparr> else r);
          r2 = (if t = ''multicast'' then r1\<lparr>tp_multicast := 1\<rparr> else r1);
          r3 = (if starts_with t ''interleaved''
                then case sscanf_pair ''interleaved='' t of
                       None \<Rightarrow> r2
                     | Some (a, Some b) \<Rightarrow> r2\<lparr>tp_interleaved1 := a, tp_interleaved2 := b\<rparr>
                     | Some (a, None) \<Rightarrow> r2\<lparr>tp_interleaved1 := a, tp_interleaved2 := a + 1\<rparr>
                else r2)
      in if starts_with t ''client_port''
         then case sscanf_pair ''client_port='' t of
                None \<Rightarrow> r3
              | Some (a, Some b) \<Rightarrow> r3\<lparr>tp_client_port1 := of_int a, tp_client_port2 := of_int b\<rparr>
              | Some (a, None) \<Rightarrow>
                  (let p = (of_int a :: u16) div 2 * 2
                   in r3\<lparr>tp_client_port1 := p, tp_client_port2 := p + 1\<rparr>)
         else r3)"

definition parse_transport :: "string \<Rightarrow> rtsp_transport" where
  "parse_transport s = fold parse_transport_token (split_char (CHR '';'') s) rtsp_transport_init"

subsection \<open>Requests\<close>

definition options_request ::
  "'s rtsp_server_context_handler \<Rightarrow> rtsp_parser \<Rightarrow> int \<Rightarrow> 's \<Rightarrow> 's outcome" where
  "options_request H p seq s = (case on_options H of None \<Rightarrow> Inr s | Some f \<Rightarrow> f (rp_url p) seq s)"

definition describe_request ::
  "'s rtsp_server_context_handler \<Rightarrow> rtsp_parser \<Rightarrow> int \<Rightarrow> 's \<Rightarrow> 's outcome" where
  "describe_request H p seq s = (case on_describe H of None \<Rightarrow> Inr s | Some f \<Rightarrow> f (rp_url p) seq s)"

definition setup_request ::
  "'s rtsp_server_context_handler \<Rightarrow> rtsp_parser \<Rightarrow> int \<Rightarrow> 's \<Rightarrow> 's outcome" where
  "setup_request H p seq s =
     (case on_setup H of
        None \<Rightarrow> Inr s
      | Some f \<Rightarrow> f (rp_url p) (rtsp_header ''Session'' p) (parse_transport (rtsp_header ''Transport'' p)) seq s)"

definition play_request ::
  "'s rtsp_server_context_handler \<Rightarrow> rtsp_parser \<Rightarrow> int \<Rightarrow> 's \<Rightarrow> 's outcome" where
  "play_request H p seq s =
     (case on_play H of None \<Rightarrow> Inr s | Some f \<Rightarrow> f (rp_url p) (rtsp_header ''Session'' p) seq s)"

definition teardown_request ::
  "'s rtsp_server_context_handler \<Rightarrow> rtsp_parser \<Rightarrow> int \<Rightarrow> 's \<Rightarrow> 's outcome" where
  "teardown_request H p seq s =
     (case on_teardown H of None \<Rightarrow> Inr s | Some f \<Rightarrow> f (rp_url p) (rtsp_header ''Session'' p) seq s)"

text \<open>A method without a handler is consumed without an answer.\<close>

definition process_request ::
  "'s rtsp_server_context_handler \<Rightarrow> rtsp_server_context \<times> 's \<Rightarrow> (rtsp_server_context \<times> 's) outcome" where
  "process_request H cs =
     (let (c, s) = cs; p = rs_parser c; m = rp_method p;
          seq = atoi (rtsp_header ''CSeq'' p); c1 = c\<lparr>rs_seq := seq\<rparr>;
          request = (\<lambda>f. obind (f H p seq s) (\<lambda>s'. Inr (c1, s')))
      in if m = ''OPTIONS'' then request options_request
         else if m = ''DESCRIBE'' then request describe_request
         else if m = ''SETUP'' then request setup_request
         else if m = ''PLAY'' then request play_request
         else if m = ''TEARDOWN'' then request teardown_request
         else Inr (c1, s))"

definition reset_parser :: "rtsp_server_context \<Rightarrow> rtsp_server_context" where
  "reset_parser c = c\<lparr>rs_parser := rtsp_parser_reset (rs_parser c)\<rparr>"

text \<open>The cache is parsed from its beginning each time; an incomplete request stays in it.\<close>

definition parse_rtsp_message ::
  "'s rtsp_server_context_handler \<Rightarrow> rtsp_server_context \<times> 's \<Rightarrow> (int \<times> rtsp_server_context \<times> 's) outcome" where
  "parse_rtsp_message H cs =
     (let (c, s) = cs
      in obind (rtsp_parser_input (ff_payload (rs_cache c)) (rs_parser c)) (\<lambda>(ret, p).
           let c1 = c\<lparr>rs_parser := p\<rparr>
           in if ret = RTSP_PARSE_ERROR then Inr (ret, c1, s)
              else if ret = RTSP_PARSE_CONTINUE then Inr (ret, reset_parser c1, s)
              else obind (oassert (rtsp_complete p)) (\<lambda>_.
                   obind (process_request H (c1, s)) (\<lambda>(c2, s').
                   Inr (ret, reset_parser c2, s')))))"

text \<open>The length is kept in an \<^verbatim>\<open>int\<close> that 16 bits fit in.\<close>

definition parse_rtcp_message ::
  "'s rtsp_server_context_handler \<Rightarrow> rtsp_server_context \<times> 's \<Rightarrow> (int \<times> rtsp_server_context \<times> 's) outcome" where
  "parse_rtcp_message H cs =
     (let (c, s) = cs; frame = Fixed (rs_cache c); data = fb_data frame
      in if fb_size frame < kRtcpPrefixLength then Inr (RTSP_PARSE_CONTINUE, c, s)
         else
           obind (byte_at data 1) (\<lambda>interleaved.
           obind (byte_at data 2) (\<lambda>high.
           obind (byte_at data 3) (\<lambda>low.
           let n = unat high * 256 + unat low
           in if n < 12 then Inr (RTSP_PARSE_ERROR, c, s)
              else if fb_size frame < n + 4 then Inr (RTSP_PARSE_CONTINUE, c, s)
              else obind (case on_rtcp H of
                            None \<Rightarrow> Inr s
                          | Some f \<Rightarrow> f (int (unat interleaved)) (ref_create 4 n frame) s) (\<lambda>s'.
                   Inr (int (n + kRtcpPrefixLength), c, s'))))))"

definition c_dollar_sign :: byte where
  "c_dollar_sign = 0x24"

lemma cache_process_request:
  "process_request H (c, s) = Inr (c', s') \<Longrightarrow> rs_cache c' = rs_cache c"
  by (auto simp: process_request_def Let_def obind_eq_Inr split: if_splits)

lemma cache_parse_rtsp:
  assumes "parse_rtsp_message H (c, s) = Inr (ret, c', s')"
  shows "rs_cache c' = rs_cache c"
proof -
  obtain r p where p: "rtsp_parser_input (ff_payload (rs_cache c)) (rs_parser c) = Inr (r, p)"
    using assms by (auto simp: parse_rtsp_message_def obind_eq_Inr)
  show ?thesis
  proof (cases "r = RTSP_PARSE_ERROR \<or> r = RTSP_PARSE_CONTINUE")
    case True
    with assms p show ?thesis
      by (auto simp: parse_rtsp_message_def Let_def reset_parser_def RTSP_PARSE_ERROR_def RTSP_PARSE_CONTINUE_def)
  next
    case False
    with assms p obtain c2 where "process_request H (c\<lparr>rs_parser := p\<rparr>, s) = Inr (c2, s')" "c' = reset_parser c2"
      by (auto simp: parse_rtsp_message_def Let_def obind_eq_Inr)
    with cache_process_request [of H "c\<lparr>rs_parser := p\<rparr>" s c2 s'] show ?thesis
      by (simp add: reset_parser_def)
  qed
qed

lemma cache_parse_rtcp: "parse_rtcp_message H (c, s) = Inr (ret, c', s') \<Longrightarrow> c' = c"
  by (auto simp: parse_rtcp_message_def Let_def obind_eq_Inr split: if_splits)

text \<open>The loop of \<^verbatim>\<open>input\<close>: every round but the last takes something from the cache.\<close>

function input_loop ::
  "'s rtsp_server_context_handler \<Rightarrow> int \<Rightarrow> rtsp_server_context \<times> 's \<Rightarrow> (int \<times> rtsp_server_context \<times> 's) outcome" where
  "input_loop H ret (c, s) =
     (if fb_empty (Fixed (rs_cache c)) then Inr (ret, c, s)
      else
        obind (fb_peek (Fixed (rs_cache c))) (\<lambda>b.
        obind (if b = c_dollar_sign then parse_rtcp_message H (c, s) else parse_rtsp_message H (c, s)) (\<lambda>(ret1, c1, s1).
          if ret1 = RTSP_PARSE_CONTINUE then Inr (0, c1, s1)
          else if ret1 = RTSP_PARSE_ERROR then Inr (- 1, c1, s1)
          else if \<not> 0 < ret1 then Inl Assert_failed
          else input_loop H ret1 (c1\<lparr>rs_cache := fixed_erase (nat ret1) (rs_cache c1)\<rparr>, s1))))"
  by pat_completeness auto
termination
proof (relation "measure (\<lambda>(H, ret, c, s). length (ff_payload (rs_cache c)))", goal_cases)
  case (2 H ret c s b x ret1 y c1 s1)
  then have "rs_cache c1 = rs_cache c"
    using cache_parse_rtsp [of H c s ret1 c1 s1] cache_parse_rtcp [of H c s ret1 c1 s1]
    by (auto split: if_splits)
  with 2 show ?case by simp
qed auto

declare input_loop.simps [simp del]

definition rtsp_server_input ::
  "'s rtsp_server_context_handler \<Rightarrow> frame_ptr \<Rightarrow> rtsp_server_context \<times> 's \<Rightarrow> (int \<times> rtsp_server_context \<times> 's) outcome" where
  "rtsp_server_input H frame cs =
     (let (c, s) = cs in input_loop H 0 (c\<lparr>rs_cache := fixed_append_frame frame (rs_cache c)\<rparr>, s))"

end
