(* ===== verification/Rtsp_Cut.thy ===== *)
theory Rtsp_Cut
  imports Rtsp_Request
begin

text \<open>
  A request that has not arrived in full: wherever it is cut, the parser of the RTSP side wants more
  bytes, without an error and without a message. This is why it does not matter to the server how a
  connection cuts the stream of messages into frames.
\<close>

subsection \<open>The input ends within a piece\<close>

definition breaks :: "bytes \<Rightarrow> nat \<Rightarrow> bytes \<Rightarrow> bool" where
  "breaks data p cs \<longleftrightarrow> p \<le> length data \<and> length data < p + length cs \<and> drop p data = take (length data - p) cs"

lemma breaks_Nil [simp]: "\<not> breaks data p []"
  by (simp add: breaks_def)

lemma breaks_append:
  assumes "breaks data p (xs @ ys)"
  shows "breaks data p xs \<or> reads data p xs \<and> breaks data (p + length xs) ys"
proof (cases "length data < p + length xs")
  case True
  with assms show ?thesis by (simp add: breaks_def)
next
  case False
  then have "drop p data = xs @ take (length data - p - length xs) ys" "p + length xs \<le> length data"
    using assms by (simp_all add: breaks_def)
  then have "reads data p xs" "drop (p + length xs) data = take (length data - (p + length xs)) ys"
    using drop_drop [of "length xs" p data] by (simp_all add: reads_def add.commute)
  with assms False show ?thesis by (simp add: breaks_def)
qed

lemma breaks_Cons:
  "breaks data p (c # cs) \<longleftrightarrow> p = length data \<or> p < length data \<and> data ! p = c \<and> breaks data (Suc p) cs"
proof (cases "p < length data")
  case True
  then have "drop p data = data ! p # drop (Suc p) data" "length data - p = Suc (length data - Suc p)"
    by (simp_all add: Cons_nth_drop_Suc)
  with True show ?thesis by (auto simp: breaks_def)
qed (auto simp: breaks_def)

lemma breaks_end: "breaks data p cs \<Longrightarrow> reads data p (take (length data - p) cs)"
  by (auto simp: breaks_def reads_def min_def)

lemma breaks_prefix: "k < length cs \<Longrightarrow> breaks (take k cs) 0 cs"
  by (simp add: breaks_def)

subsection \<open>The parser at the end of its input\<close>

text \<open>The run from \<open>x\<close> comes to the end of the input without an error and without a message.\<close>

definition waits :: "bytes \<Rightarrow> rtsp_parser exec \<Rightarrow> bool" where
  "waits data x \<longleftrightarrow>
     (\<forall>n \<ge> length data - x_p x. \<exists>v y. execute_loop n rtsp_settings data x = Inr (Return v y)
        \<and> pr_http_errno (x_parser y) = HPE_OK \<and> rp_parse_step (x_user y) = 0)"

lemma waits_runs:
  assumes "runs rtsp_settings data x y" "waits data y" "x_p y \<le> length data"
  shows "waits data x"
  unfolding waits_def
proof (intro allI impI)
  fix n assume n: "length data - x_p x \<le> n"
  obtain k where k: "k \<le> x_p y - x_p x" "\<And>n. execute_loop (n + k) rtsp_settings data x = execute_loop n rtsp_settings data y"
    and le: "x_p x \<le> x_p y"
    using assms(1) by (auto simp: runs_def)
  then have "k \<le> n" "length data - x_p y \<le> n - k" using n assms(3) by linarith+
  with assms(2) k(2) [of "n - k"] show "\<exists>v y. execute_loop n rtsp_settings data x = Inr (Return v y)
        \<and> pr_http_errno (x_parser y) = HPE_OK \<and> rp_parse_step (x_user y) = 0"
    by (simp add: waits_def)
qed

lemma collects:
  "on_data rtsp_settings M_url = Some f \<Longrightarrow> \<exists>u'. f pr bs u = (0, u') \<and> rp_parse_step u' = rp_parse_step u"
  "on_data rtsp_settings M_header_field = Some f \<Longrightarrow> \<exists>u'. f pr bs u = (0, u') \<and> rp_parse_step u' = rp_parse_step u"
  "on_data rtsp_settings M_header_value = Some f \<Longrightarrow> \<exists>u'. f pr bs u = (0, u') \<and> rp_parse_step u' = rp_parse_step u"
  by (auto simp: rtsp_on_url_def rtsp_on_header_field_def rtsp_on_header_value_def Let_def split: sum.split)

definition open_marks :: "(mark \<Rightarrow> nat option) \<Rightarrow> bool" where
  "open_marks ms \<longleftrightarrow>
     ms = no_marks \<or> (\<exists>m i. m \<in> {M_url, M_header_field, M_header_value} \<and> ms = no_marks(m := Some i))"

lemma waits_end:
  assumes "x_p x = length data" "open_marks (x_marks x)" "pr_http_errno (x_parser x) = HPE_OK"
    and "rp_parse_step (x_user x) = 0"
  shows "waits data x"
proof -
  have "\<exists>v y. end_of_input rtsp_settings data x = Inr (Return v y)
      \<and> pr_http_errno (x_parser y) = HPE_OK \<and> rp_parse_step (x_user y) = 0"
    using assms(2) unfolding open_marks_def
  proof
    assume "x_marks x = no_marks"
    with assms show ?thesis
      by (simp add: end_of_input_def marks_left_def data_noadvance_def callback_data_def store_return_def)
  next
    assume "\<exists>m i. m \<in> {M_url, M_header_field, M_header_value} \<and> x_marks x = no_marks(m := Some i)"
    then obtain m i where m: "m \<in> {M_url, M_header_field, M_header_value}" "x_marks x = no_marks(m := Some i)" by blast
    obtain f where f: "on_data rtsp_settings m = Some f" using m(1) by auto
    obtain u' where u': "f ((x_parser x)\<lparr>pr_state := x_state x\<rparr>) (take (x_p x - i) (drop i data)) (x_user x) = (0, u')"
        "rp_parse_step u' = 0"
      using collects m(1) f assms(4) by (metis empty_iff insert_iff)
    define y where "y = x\<lparr>x_parser := (x_parser x)\<lparr>pr_state := x_state x\<rparr>, x_user := u', x_marks := no_marks\<rparr>"
    have at_mark: "data_noadvance rtsp_settings data m x k = k y" for k
      using f u' m(2) assms(3)
      by (simp add: data_noadvance_def callback_data_def with_parser_def Let_def y_def fun_upd_idem)
    have y: "x_marks y = no_marks" "pr_http_errno (x_parser y) = HPE_OK" "rp_parse_step (x_user y) = 0"
      using assms(3) u'(2) by (simp_all add: y_def)
    have quiet: "data_noadvance rtsp_settings data m' y k = k y"
      if "x_marks y m' = None" "pr_http_errno (x_parser y) = HPE_OK" for m' y k
      using that by (simp add: data_noadvance_def callback_data_def)
    have "marks_left x \<le> 1" using m by (auto simp: marks_left_def)
    then have "end_of_input rtsp_settings data x = store_return (length data) y"
      using m at_mark assms(3) y by (auto simp: end_of_input_def quiet)
    with y show ?thesis by (simp add: store_return_def)
  qed
  with assms(1) show ?thesis by (simp add: waits_def execute_loop.simps)
qed

subsection \<open>A request line that is cut\<close>

lemma waits_here:
  "open_marks ms \<Longrightarrow> pr_http_errno pr = HPE_OK \<Longrightarrow> rp_parse_step u = 0 \<Longrightarrow>
   waits data (loop_at data (length data) s ms pr u)"
  by (rule waits_end) (simp_all add: loop_at_def)

lemma open_no_marks [simp]: "open_marks no_marks" "open_marks (no_marks(M_url := Some p))"
  "open_marks (no_marks(M_header_field := Some p))" "open_marks (no_marks(M_header_value := Some p))"
  by (auto simp: open_marks_def)

lemma method_waits:
  assumes "method_scan m i cs = Some m'" "breaks data p (cs @ [c_sp])" "p + length cs \<le> HTTP_MAX_HEADER_SIZE"
    "in_request m pr" "pr_index pr = i" "i + length cs < 32" "rp_parse_step u = 0"
  shows "waits data (loop_at data p s_req_method no_marks pr u)"
  using assms
proof (induction cs arbitrary: m i p pr)
  case Nil
  then have "p = length data" by (simp add: breaks_Cons)
  with Nil show ?case by (simp add: waits_here in_request_def)
next
  case (Cons c cs)
  show ?case
  proof (cases "p = length data")
    case True
    with Cons.prems show ?thesis by (simp add: waits_here in_request_def)
  next
    case False
    then have p: "p < length data" "data ! p = c" "breaks data (Suc p) (cs @ [c_sp])"
      using Cons.prems(2) by (simp_all add: breaks_Cons)
    obtain m1 pr1 where step: "runs rtsp_settings data (loop_at data p s_req_method no_marks pr u)
        (loop_at data (Suc p) s_req_method no_marks pr1 u)"
      and 1: "in_request m1 pr1" "pr_index pr1 = i + 1" "method_scan m1 (i + 1) cs = Some m'"
      using method_step [OF Cons.prems(1) p(1,2) _ Cons.prems(4,5), of rtsp_settings no_marks u] Cons.prems(3,6) by auto
    have "waits data (loop_at data (Suc p) s_req_method no_marks pr1 u)"
      using Cons.IH [OF 1(3) p(3) _ 1(1,2) _ Cons.prems(7)] Cons.prems(3,6) by simp
    with step p(1) show ?thesis by (intro waits_runs [OF step]) simp_all
  qed
qed

text \<open>Running over a piece that has arrived, and waiting in the next.\<close>

lemma waits_step:
  "runs rtsp_settings data x (loop_at data q s ms pr u) \<Longrightarrow> q \<le> length data \<Longrightarrow>
   waits data (loop_at data q s ms pr u) \<Longrightarrow> waits data x"
  by (rule waits_runs [where y = "loop_at data q s ms pr u"]) simp_all

lemma begins: "on_message_begin rtsp_settings = Some rtsp_on_message_begin" "\<And>pr. rtsp_on_message_begin pr u = (0, u)"
  by (simp_all add: rtsp_on_message_begin_def)

lemma start_waits:
  assumes scan: "name_scan cs = Some m" and b: "breaks data p (cs @ [c_sp])"
    and n: "p + length cs < HTTP_MAX_HEADER_SIZE" "length cs < 32"
    and pr: "pr_http_errno pr = HPE_OK" "rp_parse_step u = 0"
  shows "waits data (loop_at data p s_start_req_or_res no_marks pr u)"
proof (cases "p = length data")
  case True
  with pr show ?thesis by (simp add: waits_here)
next
  case False
  obtain c cs' m0 where cs: "cs = c # cs'" and c: "c \<notin> {c_cr, c_lf, c_H, c_R}" "is_alpha c"
      "method_of_letter c = Some m0" and rest: "method_scan m0 1 cs' = Some m"
    using name_scan_Cons [OF scan] by blast
  have p: "p < length data" "data ! p = c" "breaks data (Suc p) (cs' @ [c_sp])" "p < HTTP_MAX_HEADER_SIZE"
    using b n False by (simp_all add: cs breaks_Cons)
  obtain pr1 where first: "runs rtsp_settings data (loop_at data p s_start_req_or_res no_marks pr u)
      (loop_at data (Suc p) s_req_method no_marks pr1 u)"
    and pr1: "in_request m0 pr1" "pr_index pr1 = 1"
    using run_first_letter [OF c p(1,2,4) pr(1) begins, of u] by blast
  have "waits data (loop_at data (Suc p) s_req_method no_marks pr1 u)"
    using method_waits [OF rest p(3) _ pr1 _ pr(2)] n by (simp add: cs)
  with waits_step [OF first] p(1) show ?thesis by simp
qed

lemma url_rest_waits:
  assumes "url_scan s cs = Some s'" "breaks data p (cs @ [c_sp])" "p + length cs \<le> HTTP_MAX_HEADER_SIZE"
    "s \<noteq> s_req_spaces_before_url" "open_marks ms" "pr_http_errno pr = HPE_OK" "rp_parse_step u = 0"
  shows "waits data (loop_at data p (Url s) ms pr u)"
  using assms
proof (induction cs arbitrary: s p)
  case Nil
  then have "p = length data" by (simp add: breaks_Cons)
  with Nil show ?case by (simp add: waits_here)
next
  case (Cons c cs)
  show ?case
  proof (cases "p = length data")
    case True
    with Cons.prems show ?thesis by (simp add: waits_here)
  next
    case False
    then have p: "p < length data" "data ! p = c" "breaks data (Suc p) (cs @ [c_sp])"
      using Cons.prems(2) by (simp_all add: breaks_Cons)
    obtain s1 where step: "runs rtsp_settings data (loop_at data p (Url s) ms pr u) (loop_at data (Suc p) (Url s1) ms pr u)"
      and s1: "url_scan s1 cs = Some s'" "s1 \<noteq> s_req_spaces_before_url"
      using url_step_run [OF Cons.prems(1,4) p(1,2), of rtsp_settings ms pr u] Cons.prems(3) by auto
    show ?thesis
      using waits_step [OF step] Cons.IH [OF s1(1) p(3) _ s1(2)] Cons.prems p(1) by simp
  qed
qed

lemma url_waits:
  assumes url: "url_accepted cs" and b: "breaks data p (cs @ [c_sp])" and n: "p + length cs < HTTP_MAX_HEADER_SIZE"
    and pr: "in_request m pr" "m \<noteq> HTTP_CONNECT" "rp_parse_step u = 0"
  shows "waits data (loop_at data p (Url s_req_spaces_before_url) no_marks pr u)"
proof (cases "p = length data")
  case True
  with pr show ?thesis by (simp add: waits_here in_request_def)
next
  case False
  obtain c cs' s1 s where cs: "cs = c # cs'" and s1: "c \<noteq> c_sp" "parse_url_char s_req_spaces_before_url c = Some s1"
    and rest: "url_scan s1 cs' = Some s"
    using url_accepted_Cons [OF url] by blast
  have p: "p < length data" "data ! p = c" "breaks data (Suc p) (cs' @ [c_sp])" "p < HTTP_MAX_HEADER_SIZE"
    using b n False by (simp_all add: cs breaks_Cons)
  have "waits data (loop_at data (Suc p) (Url s1) (no_marks(M_url := Some p)) pr u)"
    using url_rest_waits [OF rest p(3)] n pr parse_url_char_moves [of s_req_spaces_before_url c] s1(2)
    by (auto simp: cs in_request_def)
  with waits_step [OF run_url_first [OF s1(2,1) pr(1,2) p(1,2,4)]] p(1) show ?thesis by simp
qed

lemma version_waits:
  assumes b: "breaks data p version_line" and n: "p + 10 \<le> HTTP_MAX_HEADER_SIZE"
    and pr: "in_request m pr" "rp_parse_step u = 0"
  shows "waits data (loop_at data p (Req s_req_http_start) no_marks pr u)"
proof -
  let ?j = "length data - p"
  have j: "?j \<le> 10" "p + ?j = length data" using b by (auto simp: breaks_def version_line_bytes)
  have ok: "in_request m (version_parser ?j pr)" using pr(1) by (simp add: version_parser_def)
  have "runs rtsp_settings data (loop_at data p (Req s_req_http_start) no_marks pr u)
      (loop_at data (length data) (version_states ! ?j) no_marks (version_parser ?j pr) u)"
    using run_version_part [OF breaks_end [OF b] j(1), of rtsp_settings pr u] j n by simp
  from waits_step [OF this] ok pr(2) show ?thesis by (simp add: waits_here in_request_def)
qed

subsection \<open>A header that is cut\<close>

lemma breaks_take: "breaks data p (cs @ [c]) \<Longrightarrow> reads data p (take (length data - p) cs)"
  using breaks_end [of data p "cs @ [c]"] by (auto simp: breaks_def)

lemma last_nth: "p < length data \<Longrightarrow> last data = data ! (length data - 1)"
  by (rule last_conv_nth) auto

lemma name_waits:
  assumes name: "name \<noteq> []" "\<forall>c \<in> set name. token c \<noteq> 0"
    and b: "breaks data p (name @ [c_colon])" and n: "p + length name < HTTP_MAX_HEADER_SIZE"
    and pr: "in_request m pr" "header_start s pr" "rp_parse_step u = 0"
  shows "waits data (loop_at data p s no_marks pr u)"
proof (cases "p = length data")
  case True
  with pr show ?thesis by (simp add: waits_here in_request_def)
next
  case False
  obtain c cs where cs: "name = c # cs" using name(1) by (cases name) simp_all
  let ?ms = "no_marks(M_header_field := Some p)" and ?l = "length data"
  have p: "p < ?l" "data ! p = c" "token c \<noteq> 0" "breaks data (Suc p) (cs @ [c_colon])" "p < HTTP_MAX_HEADER_SIZE"
    using b n name(2) False by (simp_all add: cs breaks_Cons)
  obtain pr1 where first: "runs rtsp_settings data (loop_at data p s no_marks pr u)
      (loop_at data (Suc p) s_header_field ?ms pr1 u)"
    and pr1: "matched [token c] pr1" "in_request m pr1"
    using run_name_first [OF p(3,1,2,5) pr(1,2), of rtsp_settings u] by (elim exE conjE) (rule that; assumption)
  have "waits data (loop_at data (Suc p) s_header_field ?ms pr1 u)"
  proof (cases "Suc p = ?l")
    case True
    with pr1(2) pr(3) show ?thesis by (simp add: waits_here in_request_def)
  next
    case more: False
    let ?vs = "take (?l - Suc p) cs" and ?q = "?l - 1"
    have r: "reads data (Suc p) ?vs" by (rule breaks_take [OF p(4)])
    have len: "?l \<le> Suc p + length cs" using p(4) by (simp add: breaks_def)
    have tok: "\<forall>c \<in> set ?vs. token c \<noteq> 0" using name(2) by (auto simp: cs dest: in_set_takeD)
    obtain pr2 where pr2: "ofold field_char ?vs pr1 = Inr pr2" "in_request m pr2"
      using field_run [OF tok pr1] by auto
    have bound: "?l = Suc p + length ?vs" "?l \<le> HTTP_MAX_HEADER_SIZE" using len n p(1) by (simp_all add: cs)
    have loop: "header_field_loop data (Suc p) pr1 = Inr (?l, pr2)"
      using header_field_loop_run [OF r tok bound(1), of pr1] pr2(1) by simp
    have at: "Suc p \<le> ?q" "?q < HTTP_MAX_HEADER_SIZE" "last data = data ! ?q"
      using p(1) more bound(2) last_nth [OF p(1)] by simp_all
    have "count_header_size (?q - Suc p) ((look data (Suc p) s_header_field ?ms pr1 u)
        \<lparr>x_parser := pr2, x_p := ?q, x_ch := data ! ?q\<rparr>) next_byte = next_byte (look data ?q s_header_field ?ms pr2 u)"
      by (rule count_moved [OF at(1,2)])
    then have "case_header_field rtsp_settings data (look data (Suc p) s_header_field ?ms pr1 u) =
        Inr (Break (look data ?q s_header_field ?ms pr2 u))"
      using loop at(3) by (simp add: case_header_field_def next_byte_def)
    then have "runs rtsp_settings data (loop_at data (Suc p) s_header_field ?ms pr1 u)
        (loop_at data (Suc ?q) s_header_field ?ms pr2 u)"
      using p(1) more at bound(2) by (intro runs_byte) (simp_all add: execute_case_def parsing_header_def fuel_five)
    moreover have "Suc ?q = ?l" using p(1) by simp
    ultimately show ?thesis
      using waits_step [of data _ ?l s_header_field ?ms pr2 u] pr2(2) pr(3) by (simp add: waits_here in_request_def)
  qed
  with waits_step [OF first] p(1) show ?thesis by simp
qed

lemma value_rest_waits:
  assumes cs: "\<forall>c \<in> set cs. is_header_char c \<and> \<not> is_line_end c"
    and b: "breaks data p (cs @ [c_cr, c_lf])" and n: "p + length cs + 1 \<le> HTTP_MAX_HEADER_SIZE"
    and pr: "in_request m pr" "pr_header_state pr = h_general" "rp_parse_step u = 0"
  shows "waits data (loop_at data p s_header_value (no_marks(M_header_value := Some i)) pr u)"
proof -
  let ?l = "length data" and ?ms = "no_marks(M_header_value := Some i)"
  have errno: "pr_http_errno pr = HPE_OK" using pr(1) by (simp add: in_request_def)
  have split: "breaks data p (cs @ [c_cr]) \<or> reads data p (cs @ [c_cr]) \<and> Suc (p + length cs) = ?l"
    using breaks_append [of data p "cs @ [c_cr]" "[c_lf]"] b by (auto simp: breaks_Cons)
  show ?thesis
  proof (cases "p = ?l")
    case True
    with errno pr(3) show ?thesis by (simp add: waits_here)
  next
    case False
    then have p: "p < ?l" "p < HTTP_MAX_HEADER_SIZE" using b n by (auto simp: breaks_def)
    from split show ?thesis
    proof
      assume b: "breaks data p (cs @ [c_cr])"
      let ?vs = "take (?l - p) cs" and ?q = "?l - 1"
      have r: "reads data p ?vs" by (rule breaks_take [OF b])
      have len: "p + length ?vs = ?l" using b by (auto simp: breaks_def)
      have vs: "\<forall>c \<in> set ?vs. is_header_char c \<and> \<not> is_line_end c" using cs by (auto dest: in_set_takeD)
      have "length ?vs < HTTP_MAX_HEADER_SIZE" using n by simp
      from header_value_loop_more [OF r len vs this]
      have loop: "header_value_loop data (pr_lenient_http_headers pr) p (pr_header_state pr) pr =
          Inr (V_more, ?l, h_general, pr)"
        using pr(2) by simp
      have at: "p \<le> ?q" "?q < HTTP_MAX_HEADER_SIZE" "last data = data ! ?q"
        using p len n last_nth [OF p(1)] by simp_all
      obtain pr2 where pr2: "pr2 = pr\<lparr>pr_header_state := h_general\<rparr>" by simp
      have order: "(look data p s_header_value ?ms pr u)\<lparr>x_p := ?q, x_ch := data ! ?q, x_parser := pr2\<rparr> =
          (look data p s_header_value ?ms pr u)\<lparr>x_parser := pr2, x_p := ?q, x_ch := data ! ?q\<rparr>" by simp
      have "count_header_size (?q - p) ((look data p s_header_value ?ms pr u)
          \<lparr>x_p := ?q, x_ch := data ! ?q, x_parser := pr2\<rparr>) next_byte = next_byte (look data ?q s_header_value ?ms pr2 u)"
        unfolding order by (rule count_moved [OF at(1,2)])
      then have "case_header_value rtsp_settings data (look data p s_header_value ?ms pr u) =
          Inr (Break (look data ?q s_header_value ?ms pr2 u))"
        using loop at(3)
        by (simp add: case_header_value_def Let_def next_byte_def with_parser_def set_header_state_def pr2)
      then have "runs rtsp_settings data (loop_at data p s_header_value ?ms pr u)
          (loop_at data (Suc ?q) s_header_value ?ms pr2 u)"
        using p at by (intro runs_byte) (simp_all add: execute_case_def parsing_header_def fuel_five)
      moreover have "Suc ?q = ?l" using p by simp
      ultimately show ?thesis
        using waits_step [of data _ ?l s_header_value ?ms pr2 u] pr2 errno pr(3) by (simp add: waits_here)
    next
      assume r: "reads data p (cs @ [c_cr]) \<and> Suc (p + length cs) = ?l"
      let ?q = "p + length cs" and ?pr = "pr\<lparr>pr_header_state := h_general, pr_state := s_header_almost_done\<rparr>"
      let ?u = "u\<lparr>rp_value := rp_value u @ text_of (take (?q - i) (drop i data))\<rparr>"
      have len: "length cs < HTTP_MAX_HEADER_SIZE" using n by simp
      have q: "p \<le> ?q" "?q < HTTP_MAX_HEADER_SIZE" "data ! ?q = c_cr"
        using r n by (simp_all add: reads_append reads_Cons)
      have loop: "header_value_loop data (pr_lenient_http_headers pr) p (pr_header_state pr) pr =
          Inr (V_cr, ?q, h_general, pr)"
        using header_value_loop_run [OF _ cs len] r pr(2) by simp
      have cb: "rtsp_on_header_value pr (take (?q - i) (drop i data)) u = (0, ?u)" for pr
        by (simp add: rtsp_on_header_value_def)
      have "case_header_value rtsp_settings data (look data p s_header_value ?ms pr u) =
          Inr (Break (look data ?q s_header_almost_done no_marks ?pr ?u))"
        using value_line_end [OF loop q errno, of ?ms i rtsp_settings rtsp_on_header_value u ?u s_header_value] cb
        by simp
      then have "runs rtsp_settings data (loop_at data p s_header_value ?ms pr u)
          (loop_at data (Suc ?q) s_header_almost_done no_marks ?pr ?u)"
        using p q by (intro runs_byte) (simp_all add: execute_case_def parsing_header_def fuel_five)
      from waits_step [OF this] r errno pr(3) show ?thesis by (simp add: waits_here)
    qed
  qed
qed

lemma value_waits:
  assumes v: "val \<noteq> []" "hd val \<notin> {c_sp, c_ht}" "\<forall>c \<in> set val. is_header_char c \<and> \<not> is_line_end c"
    and b: "breaks data p (c_sp # val @ [c_cr, c_lf])" and n: "p + length val + 3 \<le> HTTP_MAX_HEADER_SIZE"
    and pr: "in_request m pr" "matched w pr" "w \<notin> special_names" "rp_parse_step u = 0"
  shows "waits data (loop_at data p s_header_value_discard_ws no_marks pr u)"
proof -
  let ?l = "length data"
  have stop: ?thesis if "p = ?l" using that pr by (simp add: waits_here in_request_def)
  obtain c cs where cs: "val = c # cs" using v(1) by (cases val) simp_all
  have c: "c \<notin> {c_sp, c_ht, c_cr, c_lf}" using v(2,3) by (auto simp: cs is_line_end_def)
  show ?thesis
  proof (cases "p = ?l")
    case False
    then have p: "p < ?l" "data ! p = c_sp" "breaks data (Suc p) (c # cs @ [c_cr, c_lf])"
      using b by (simp_all add: breaks_Cons cs)
    have blank: "runs rtsp_settings data (loop_at data p s_header_value_discard_ws no_marks pr u)
        (loop_at data (Suc p) s_header_value_discard_ws no_marks pr u)"
      using p n by (intro run_value_blank) simp_all
    have "waits data (loop_at data (Suc p) s_header_value_discard_ws no_marks pr u)"
    proof (cases "Suc p = ?l")
      case True
      with pr show ?thesis by (simp add: waits_here in_request_def)
    next
      case more: False
      let ?p = "Suc (Suc p)" and ?ms = "no_marks(M_header_value := Some (Suc p))"
      have q: "Suc p < ?l" "data ! Suc p = c" "breaks data ?p (cs @ [c_cr, c_lf])"
        using p(3) more by (simp_all add: breaks_Cons)
      have ch: "data ! Suc p \<notin> {c_sp, c_ht, c_cr, c_lf}" "Suc p < HTTP_MAX_HEADER_SIZE" using q(2) c n by simp_all
      obtain pr1 where first: "runs rtsp_settings data (loop_at data (Suc p) s_header_value_discard_ws no_marks pr u)
          (loop_at data ?p s_header_value ?ms pr1 u)"
        and ok: "in_request m pr1" "pr_header_state pr1 = h_general"
        using run_value_first [OF q(1) ch pr(1-3), of rtsp_settings u] by (elim exE conjE) (rule that; assumption)
      have "waits data (loop_at data ?p s_header_value ?ms pr1 u)"
        by (rule value_rest_waits) (use q(3) ok pr(4) v(3) n in \<open>auto simp: cs\<close>)
      with waits_step [OF first] q(1) show ?thesis by simp
    qed
    with waits_step [OF blank] p(1) show ?thesis by simp
  qed (rule stop)
qed

text \<open>A header, and all the headers with the empty line after them.\<close>

lemma on_header:
  "rtsp_on_header_field pr name u = (0, next_field u name)" "rtsp_on_header_value pr val u = (0, next_value u val)"
  "rp_parse_step (next_field u name) = rp_parse_step u" "rp_parse_step (next_value u val) = rp_parse_step u"
  by (simp_all add: rtsp_on_header_field_def rtsp_on_header_value_def next_field_def next_value_def Let_def)

lemma header_waits:
  assumes h: "wf_header h" and b: "breaks data p (header_line h)"
    and n: "p + length (header_line h) \<le> HTTP_MAX_HEADER_SIZE"
    and pr: "in_request m pr" "header_start s pr" "rp_parse_step u = 0"
  shows "waits data (loop_at data p s no_marks pr u)"
proof -
  let ?q = "Suc (p + length (fst h))"
  have parts: "header_line h = (fst h @ [c_colon]) @ (c_sp # snd h @ [c_cr, c_lf])" by (simp add: header_line_def)
  have name: "fst h \<noteq> []" "\<forall>c \<in> set (fst h). token c \<noteq> 0" "map token (fst h) \<notin> special_names"
    and val: "snd h \<noteq> []" "hd (snd h) \<notin> {c_sp, c_ht}" "\<forall>c \<in> set (snd h). is_header_char c \<and> \<not> is_line_end c"
    using h by (simp_all add: wf_header_def)
  have bounds: "p + length (fst h) < HTTP_MAX_HEADER_SIZE" "?q + length (snd h) + 3 \<le> HTTP_MAX_HEADER_SIZE"
    using n by (simp_all add: header_line_def)
  from breaks_append [OF b [unfolded parts]] show ?thesis
  proof
    assume "breaks data p (fst h @ [c_colon])"
    then show ?thesis using name_waits [OF name(1,2) _ bounds(1) pr] by blast
  next
    assume r: "reads data p (fst h @ [c_colon]) \<and>
      breaks data (p + length (fst h @ [c_colon])) (c_sp # snd h @ [c_cr, c_lf])"
    then have r1: "reads data p (fst h @ [c_colon])" and r2: "breaks data ?q (c_sp # snd h @ [c_cr, c_lf])" by simp_all
    obtain pr1 where run: "runs rtsp_settings data (loop_at data p s no_marks pr u)
        (loop_at data ?q s_header_value_discard_ws no_marks pr1 (next_field u (fst h)))"
      and pr1: "in_request m pr1" "matched (map token (fst h)) pr1"
      using run_header_name [OF name(1,2) r1 bounds(1) pr(1,2) settings_simps(3) on_header(1)] by blast
    have "waits data (loop_at data ?q s_header_value_discard_ws no_marks pr1 (next_field u (fst h)))"
      using value_waits [OF val r2 bounds(2) pr1 name(3)] pr(3) by (simp add: on_header(3))
    moreover have "?q \<le> length data" using r2 by (simp add: breaks_def)
    ultimately show ?thesis using waits_step [OF run] by simp
  qed
qed

lemma headers_wait:
  assumes "\<forall>h \<in> set hs. wf_header h" "breaks data p (concat (map header_line hs) @ [c_cr, c_lf])"
    "p + length (concat (map header_line hs)) + 2 \<le> HTTP_MAX_HEADER_SIZE"
    "in_request m pr" "header_start s pr" "rp_parse_step u = 0"
  shows "waits data (loop_at data p s no_marks pr u)"
  using assms
proof (induction hs arbitrary: p s pr u)
  case Nil
  show ?case
  proof (cases "p = length data")
    case True
    with Nil.prems show ?thesis by (simp add: waits_here in_request_def)
  next
    case False
    then have p: "p < length data" "data ! p = c_cr" "Suc p = length data" "p < HTTP_MAX_HEADER_SIZE"
      using Nil.prems(2,3) by (simp_all add: breaks_Cons)
    show ?thesis
      using waits_step [OF run_end_first [OF p(1,2,4) Nil.prems(5), of rtsp_settings u]] p(3) Nil.prems(4,6)
      by (simp add: waits_here in_request_def)
  qed
next
  case (Cons h hs)
  let ?q = "p + length (header_line h)" and ?u = "next_value (next_field u (fst h)) (snd h)"
  have h: "wf_header h" "p + length (header_line h) \<le> HTTP_MAX_HEADER_SIZE" using Cons.prems(1,3) by simp_all
  have parts: "concat (map header_line (h # hs)) @ [c_cr, c_lf] =
      header_line h @ concat (map header_line hs) @ [c_cr, c_lf]" by simp
  from breaks_append [OF Cons.prems(2) [unfolded parts]] show ?case
  proof
    assume "breaks data p (header_line h)"
    then show ?thesis using header_waits [OF h(1) _ h(2) Cons.prems(4-6)] by blast
  next
    assume r: "reads data p (header_line h) \<and> breaks data ?q (concat (map header_line hs) @ [c_cr, c_lf])"
    obtain pr1 s1 where run: "runs rtsp_settings data (loop_at data p s no_marks pr u) (loop_at data ?q s1 no_marks pr1 ?u)"
      and pr1: "in_request m pr1" "header_start s1 pr1"
      using run_header [OF h(1) _ h(2) Cons.prems(4,5) settings_simps(3) on_header(1) settings_simps(4) on_header(2)] r
      by blast
    have "waits data (loop_at data ?q s1 no_marks pr1 ?u)"
      using Cons.IH [OF _ _ _ pr1, of ?q ?u] r Cons.prems(1,3,6) by (simp add: on_header(3,4))
    moreover have "?q \<le> length data" using r by (simp add: breaks_def)
    ultimately show ?thesis using waits_step [OF run] by simp
  qed
qed

subsection \<open>A request that is cut\<close>

lemma request_waits:
  assumes wf: "wf_request m url hs" and b: "breaks data 0 (request_bytes m url hs)"
    and pr: "pr_http_errno pr = HPE_OK" "rp_parse_step u = 0"
  shows "waits data (loop_at data 0 s_start_req_or_res no_marks pr u)"
proof -
  let ?name = "bytes_of (method_strings m)" and ?hs = "concat (map header_line hs)"
  have m: "m \<notin> {HTTP_HEAD, HTTP_REPORT, HTTP_REBIND, HTTP_MSEARCH}" "m \<noteq> HTTP_CONNECT" "url_accepted url"
    and hs: "\<forall>h \<in> set hs. wf_header h"
    and n: "length (request_bytes m url hs) \<le> HTTP_MAX_HEADER_SIZE"
    using wf by (simp_all add: wf_request_def)
  define p1 where "p1 = Suc (length ?name)"
  define p2 where "p2 = Suc (p1 + length url)"
  have parts: "request_bytes m url hs = (?name @ [c_sp]) @ (url @ [c_sp]) @ version_line @ ?hs @ [c_cr, c_lf]"
    by (simp add: request_bytes_def)
  have at: "0 + length (?name @ [c_sp]) = p1" "p1 + length (url @ [c_sp]) = p2" "p2 + length version_line = p2 + 10"
    by (simp_all add: p1_def p2_def version_line_bytes)
  have bounds: "0 + length ?name < HTTP_MAX_HEADER_SIZE" "p1 + length url < HTTP_MAX_HEADER_SIZE"
      "p2 + 10 \<le> HTTP_MAX_HEADER_SIZE" "p2 + 10 + length ?hs + 2 \<le> HTTP_MAX_HEADER_SIZE"
    using n unfolding parts by (simp_all add: p1_def p2_def version_line_bytes)
  have short: "length ?name < 32" using length_method_strings [of m] by simp
  note scan = method_scans [OF m(1)]
  from breaks_append [OF b [unfolded parts], unfolded at]
  have cut: "breaks data 0 (?name @ [c_sp]) \<or> reads data 0 (?name @ [c_sp]) \<and>
      (breaks data p1 (url @ [c_sp]) \<or> reads data p1 (url @ [c_sp]) \<and>
        (breaks data p2 version_line \<or> reads data p2 version_line \<and> breaks data (p2 + 10) (?hs @ [c_cr, c_lf])))"
    using breaks_append [of data p1 "url @ [c_sp]"] breaks_append [of data p2 version_line] unfolding at by blast
  show ?thesis
  proof (cases "breaks data 0 (?name @ [c_sp])")
    case True
    then show ?thesis using start_waits [OF scan _ bounds(1) short pr] by blast
  next
    case False
    with cut have r1: "reads data 0 (?name @ [c_sp])" by blast
    obtain pr1 where 1: "runs rtsp_settings data (loop_at data 0 s_start_req_or_res no_marks pr u)
        (loop_at data p1 (Url s_req_spaces_before_url) no_marks pr1 u)" "in_request m pr1"
      using run_method [OF scan r1 bounds(1) short pr(1) begins] by (auto simp: p1_def)
    have le1: "p1 \<le> length data" using reads_le [OF r1] by (simp add: p1_def)
    have "waits data (loop_at data p1 (Url s_req_spaces_before_url) no_marks pr1 u)"
    proof (cases "breaks data p1 (url @ [c_sp])")
      case True
      then show ?thesis using url_waits [OF m(3) _ bounds(2) 1(2) m(2) pr(2)] by blast
    next
      case False
      with cut \<open>\<not> breaks data 0 _\<close> have r2: "reads data p1 (url @ [c_sp])" by blast
      obtain u2 where url: "\<And>pr. rtsp_on_url pr url u = (0, u2)" "rp_parse_step u2 = 0"
        using on_url_result [of url u] pr(2) by auto
      obtain pr2 where 2: "runs rtsp_settings data (loop_at data p1 (Url s_req_spaces_before_url) no_marks pr1 u)
          (loop_at data p2 (Req s_req_http_start) no_marks pr2 u2)" "in_request m pr2"
        using run_url [OF m(3) r2 bounds(2) 1(2) m(2) settings_simps(2) url(1)] by (auto simp: p2_def)
      have le2: "p2 \<le> length data" using reads_le [OF r2] by (simp add: p2_def)
      have "waits data (loop_at data p2 (Req s_req_http_start) no_marks pr2 u2)"
      proof (cases "breaks data p2 version_line")
        case True
        then show ?thesis using version_waits [OF _ bounds(3) 2(2) url(2)] by blast
      next
        case False
        with cut \<open>\<not> breaks data 0 _\<close> \<open>\<not> breaks data p1 _\<close>
        have r3: "reads data p2 version_line" and b3: "breaks data (p2 + 10) (?hs @ [c_cr, c_lf])" by blast+
        obtain pr3 where 3: "runs rtsp_settings data (loop_at data p2 (Req s_req_http_start) no_marks pr2 u2)
            (loop_at data (p2 + 10) s_header_field_start no_marks pr3 u2)" "in_request m pr3"
          using run_version [OF r3 bounds(3) 2(2), of rtsp_settings u2] by auto
        have "header_start s_header_field_start pr3" by (simp add: header_start_def)
        from headers_wait [OF hs b3 bounds(4) 3(2) this url(2)] waits_step [OF 3(1)] b3
        show ?thesis by (simp add: breaks_def)
      qed
      with waits_step [OF 2(1) le2] show ?thesis .
    qed
    with waits_step [OF 1(1) le1] show ?thesis .
  qed
qed

lemma request_cut:
  assumes wf: "wf_request m url hs" and k: "0 < k" "k < length (request_bytes m url hs)"
  shows "\<exists>p'. rtsp_parser_input (take k (request_bytes m url hs)) (rtsp_parser_reset p) = Inr (- 2, p')"
proof -
  let ?p = "rtsp_parser_reset p" and ?data = "take k (request_bytes m url hs)"
  have p: "pr_http_errno (rp_parser ?p) = HPE_OK" "pr_state (rp_parser ?p) = s_start_req_or_res"
      "pr_nread (rp_parser ?p) = 0" "rp_parse_step ?p = 0"
    by (simp_all add: rtsp_parser_reset_def http_parser_init_def)
  have start: "exec_start (rp_parser ?p) ?p = loop_at ?data 0 s_start_req_or_res no_marks (rp_parser ?p) ?p"
    using p by (simp add: exec_start_def loop_at_def initial_marks_def)
  obtain v y where y: "execute_loop (length ?data) rtsp_settings ?data (exec_start (rp_parser ?p) ?p) = Inr (Return v y)"
      "pr_http_errno (x_parser y) = HPE_OK" "rp_parse_step (x_user y) = 0"
    using request_waits [OF wf breaks_prefix [OF k(2)] p(1,4)] unfolding waits_def start by auto
  have "?data \<noteq> []" using k by auto
  with p(1) y(1) have "http_parser_execute rtsp_settings ?data (rp_parser ?p) ?p = Inr (v, x_parser y, x_user y)"
    by (simp add: http_parser_execute_def)
  with y(2,3) show ?thesis by (simp add: rtsp_parser_input_def rtsp_complete_def kParseComplete_def)
qed

end
