(* ===== verification/Rtsp_Server_Proofs.thy ===== *)
theory Rtsp_Server_Proofs
  imports Rtsp_Server_Context Rtsp_Cut
begin

text \<open>
  What the server side of an RTSP connection promises: it survives every stream of bytes, and a
  stream that is a sequence of requests and interleaved RTCP packets reaches the handlers message
  by message, as an abstract server that sees the messages themselves would hand them on.
\<close>

subsection \<open>No stream of bytes stops the server\<close>

text \<open>No handler aborts.\<close>

definition handlers_return :: "'s rtsp_server_context_handler \<Rightarrow> bool" where
  "handlers_return H \<longleftrightarrow>
     (\<forall>f. on_options H = Some f \<longrightarrow> (\<forall>url seq s. \<exists>s'. f url seq s = Inr s'))
     \<and> (\<forall>f. on_describe H = Some f \<longrightarrow> (\<forall>url seq s. \<exists>s'. f url seq s = Inr s'))
     \<and> (\<forall>f. on_setup H = Some f \<longrightarrow> (\<forall>url sid t seq s. \<exists>s'. f url sid t seq s = Inr s'))
     \<and> (\<forall>f. on_play H = Some f \<longrightarrow> (\<forall>url sid seq s. \<exists>s'. f url sid seq s = Inr s'))
     \<and> (\<forall>f. on_teardown H = Some f \<longrightarrow> (\<forall>url sid seq s. \<exists>s'. f url sid seq s = Inr s'))
     \<and> (\<forall>f. on_rtcp H = Some f \<longrightarrow> (\<forall>ch frame s. \<exists>s'. f ch frame s = Inr s'))"

lemma rtsp_parser_input_keeps:
  assumes "parser_ok (rp_parser p)" "data \<noteq> []" "rtsp_parser_input data p = Inr (ret, p')"
  shows "parser_ok (rp_parser p')"
  using execute_ok [OF assms(1,2), of rtsp_settings p] assms(3)
  by (auto simp: rtsp_parser_input_def Let_def split: if_splits)

text \<open>The frames that a connection reads.\<close>

definition rtsp_serve ::
  "'s rtsp_server_context_handler \<Rightarrow> frame_ptr list \<Rightarrow> rtsp_server_context \<times> 's \<Rightarrow> (rtsp_server_context \<times> 's) outcome" where
  "rtsp_serve H = ofold (\<lambda>frame cs. obind (rtsp_server_input H frame cs) (\<lambda>(ret, c, s). Inr (c, s)))"

definition frame_bytes :: "frame_ptr \<Rightarrow> bytes" where
  "frame_bytes p = (case p of None \<Rightarrow> [] | Some f \<Rightarrow> fb_data f)"

lemma payload_append: "ff_payload (fixed_append_frame p f) = ff_payload f @ frame_bytes p"
  by (cases p) (simp_all add: frame_bytes_def)

text \<open>
  The owner of a server context: no handler aborts in a state with the invariant, and each of them
  keeps it.
\<close>

definition keeps :: "('s \<Rightarrow> bool) \<Rightarrow> ('s \<Rightarrow> 's outcome) \<Rightarrow> bool" where
  "keeps I f \<longleftrightarrow> (\<forall>s. I s \<longrightarrow> (\<exists>s'. f s = Inr s' \<and> I s'))"

lemma keepsD: "keeps I f \<Longrightarrow> I s \<Longrightarrow> \<exists>s'. f s = Inr s' \<and> I s'"
  by (simp add: keeps_def)

lemma keepsI: "(\<And>s. I s \<Longrightarrow> \<exists>s'. f s = Inr s' \<and> I s') \<Longrightarrow> keeps I f"
  by (simp add: keeps_def)

locale rtsp_owner =
  fixes H :: "'s rtsp_server_context_handler" and I :: "'s \<Rightarrow> bool"
  assumes options_keep: "on_options H = Some f1 \<Longrightarrow> keeps I (f1 url seq)"
    and describe_keep: "on_describe H = Some f2 \<Longrightarrow> keeps I (f2 url seq)"
    and setup_keep: "on_setup H = Some f3 \<Longrightarrow> keeps I (f3 url sid transport seq)"
    and play_keep: "on_play H = Some f4 \<Longrightarrow> keeps I (f4 url sid seq)"
    and teardown_keep: "on_teardown H = Some f5 \<Longrightarrow> keeps I (f5 url sid seq)"
    and rtcp_keep: "on_rtcp H = Some f6 \<Longrightarrow> keeps I (f6 ch frame)"
begin

lemma request_keeps:
  assumes "I s"
  shows "\<exists>s'. options_request H p seq s = Inr s' \<and> I s'" "\<exists>s'. describe_request H p seq s = Inr s' \<and> I s'"
    "\<exists>s'. setup_request H p seq s = Inr s' \<and> I s'" "\<exists>s'. play_request H p seq s = Inr s' \<and> I s'"
    "\<exists>s'. teardown_request H p seq s = Inr s' \<and> I s'"
  using assms options_keep describe_keep setup_keep play_keep teardown_keep
  by (auto simp: options_request_def describe_request_def setup_request_def play_request_def
      teardown_request_def split: option.split intro!: keepsD)

lemma process_request_returns:
  assumes "I s"
  shows "\<exists>s'. process_request H (c, s) = Inr (c\<lparr>rs_seq := atoi (rtsp_header ''CSeq'' (rs_parser c))\<rparr>, s') \<and> I s'"
  using request_keeps [OF assms, of "rs_parser c" "atoi (rtsp_header ''CSeq'' (rs_parser c))"] assms
  by (auto simp: process_request_def Let_def obind_eq_Inr)

text \<open>One message: an error, a wish for more bytes, or some of the bytes of the cache are used.\<close>

definition message_ok :: "rtsp_server_context \<Rightarrow> (int \<times> rtsp_server_context \<times> 's) outcome \<Rightarrow> bool" where
  "message_ok c r \<longleftrightarrow>
     (\<exists>ret c' s'. r = Inr (ret, c', s') \<and> parser_ok (rp_parser (rs_parser c')) \<and> rs_cache c' = rs_cache c
       \<and> I s' \<and> (ret = RTSP_PARSE_ERROR \<or> ret = RTSP_PARSE_CONTINUE \<or> 0 < ret))"

lemma parse_rtsp_message_ok:
  assumes "I s" "parser_ok (rp_parser (rs_parser c))"
    and "ff_payload (rs_cache c) \<noteq> []" "length (ff_payload (rs_cache c)) < 2 ^ 31"
  shows "message_ok c (parse_rtsp_message H (c, s))"
proof -
  obtain ret p where p: "rtsp_parser_input (ff_payload (rs_cache c)) (rs_parser c) = Inr (ret, p)"
    and ret: "ret = - 1 \<or> ret = - 2 \<or> rtsp_complete p \<and> 0 < ret"
    using rtsp_parser_input_ok [OF assms(2-4)] by auto
  have ok: "parser_ok (rp_parser p)" by (rule rtsp_parser_input_keeps [OF assms(2,3) p])
  obtain s' where "process_request H (c\<lparr>rs_parser := p\<rparr>, s) =
      Inr (c\<lparr>rs_parser := p, rs_seq := atoi (rtsp_header ''CSeq'' p)\<rparr>, s')" "I s'"
    using process_request_returns [OF assms(1), of "c\<lparr>rs_parser := p\<rparr>"] by auto
  with p ret ok assms(1) show ?thesis
    by (auto simp: parse_rtsp_message_def message_ok_def Let_def reset_parser_def parser_ok_reset
        RTSP_PARSE_ERROR_def RTSP_PARSE_CONTINUE_def)
qed

lemma parse_rtcp_message_ok:
  assumes "I s" "parser_ok (rp_parser (rs_parser c))"
  shows "message_ok c (parse_rtcp_message H (c, s))"
proof -
  let ?data = "ff_payload (rs_cache c)"
  show ?thesis
  proof (cases "length ?data < 4")
    case True
    with assms show ?thesis by (simp add: parse_rtcp_message_def message_ok_def kRtcpPrefixLength_def)
  next
    case False
    define n where "n = unat (?data ! 2) * 256 + unat (?data ! 3)"
    define f where "f = (case on_rtcp H of None \<Rightarrow> Inr s
      | Some f \<Rightarrow> f (int (unat (?data ! Suc 0))) (ref_create 4 n (Fixed (rs_cache c))) s)"
    have "\<exists>s'. f = Inr s' \<and> I s'"
      using assms(1) rtcp_keep by (cases "on_rtcp H") (simp_all add: f_def keepsD)
    then obtain s' where s': "f = Inr s'" "I s'" by blast
    have "parse_rtcp_message H (c, s) =
       (if n < 12 then Inr (RTSP_PARSE_ERROR, c, s)
        else if length ?data < n + 4 then Inr (RTSP_PARSE_CONTINUE, c, s)
        else obind f (\<lambda>s'. Inr (int (n + kRtcpPrefixLength), c, s')))"
      using False
      unfolding parse_rtcp_message_def Let_def n_def f_def by (simp add: kRtcpPrefixLength_def)
    with s' assms show ?thesis by (auto simp: message_ok_def kRtcpPrefixLength_def)
  qed
qed

lemma input_loop_ok:
  assumes "I s" "parser_ok (rp_parser (rs_parser c))" "length (ff_payload (rs_cache c)) < 2 ^ 31"
  shows "\<exists>ret' c' s'. input_loop H ret (c, s) = Inr (ret', c', s') \<and> parser_ok (rp_parser (rs_parser c'))
    \<and> length (ff_payload (rs_cache c')) \<le> length (ff_payload (rs_cache c)) \<and> I s'"
  using assms
proof (induction "length (ff_payload (rs_cache c))" arbitrary: ret c s rule: less_induct)
  case (less c)
  show ?case
  proof (cases "ff_payload (rs_cache c) = []")
    case True
    with less.prems show ?thesis by (simp add: input_loop.simps [of H ret c s])
  next
    case False
    let ?b = "ff_payload (rs_cache c) ! 0"
    define r where "r = (if ?b = c_dollar_sign then parse_rtcp_message H (c, s) else parse_rtsp_message H (c, s))"
    have "message_ok c r"
      using parse_rtsp_message_ok [OF less.prems(1,2) False less.prems(3)]
        parse_rtcp_message_ok [OF less.prems(1,2)] by (simp add: r_def)
    then obtain ret1 c1 s1 where r: "r = Inr (ret1, c1, s1)" "parser_ok (rp_parser (rs_parser c1))"
      "rs_cache c1 = rs_cache c" "ret1 = RTSP_PARSE_ERROR \<or> ret1 = RTSP_PARSE_CONTINUE \<or> 0 < ret1" "I s1"
      by (auto simp: message_ok_def)
    have peek: "fb_peek (Fixed (rs_cache c)) = Inr ?b" using False by (simp add: byte_at_def)
    have step: "input_loop H ret (c, s) =
       (if ret1 = RTSP_PARSE_CONTINUE then Inr (0, c1, s1)
        else if ret1 = RTSP_PARSE_ERROR then Inr (- 1, c1, s1)
        else if \<not> 0 < ret1 then Inl Assert_failed
        else input_loop H ret1 (c1\<lparr>rs_cache := fixed_erase (nat ret1) (rs_cache c1)\<rparr>, s1))"
      using False peek r(1) unfolding r_def by (simp add: input_loop.simps [of H ret c s])
    show ?thesis
    proof (cases "ret1 = RTSP_PARSE_CONTINUE \<or> ret1 = RTSP_PARSE_ERROR")
      case True
      with step r less.prems show ?thesis by auto
    next
      case pos: False
      let ?c = "c1\<lparr>rs_cache := fixed_erase (nat ret1) (rs_cache c1)\<rparr>"
      have len: "length (ff_payload (rs_cache ?c)) \<le> length (ff_payload (rs_cache c))" using r(3) by simp
      have "\<exists>ret' c' s'. input_loop H ret1 (?c, s1) = Inr (ret', c', s') \<and> parser_ok (rp_parser (rs_parser c'))
        \<and> length (ff_payload (rs_cache c')) \<le> length (ff_payload (rs_cache ?c)) \<and> I s'"
        by (rule less.hyps) (use False r pos less.prems len in \<open>auto simp: less_imp_diff_less\<close>)
      with step pos r(4) len show ?thesis by (auto intro: le_trans)
    qed
  qed
qed

text \<open>One frame, and a connection: the frames that are read from it, one after the other.\<close>

lemma input_ok:
  assumes "I s" "parser_ok (rp_parser (rs_parser c))"
    and "length (ff_payload (rs_cache c)) + length (frame_bytes p) < 2 ^ 31"
  shows "\<exists>ret c' s'. rtsp_server_input H p (c, s) = Inr (ret, c', s') \<and> parser_ok (rp_parser (rs_parser c'))
    \<and> length (ff_payload (rs_cache c')) \<le> length (ff_payload (rs_cache c)) + length (frame_bytes p) \<and> I s'"
  using input_loop_ok [OF assms(1), of "c\<lparr>rs_cache := fixed_append_frame p (rs_cache c)\<rparr>" 0] assms(2,3)
  by (simp add: payload_append rtsp_server_input_def)

lemma serve_ok:
  assumes "I s" "parser_ok (rp_parser (rs_parser c))"
    and "length (ff_payload (rs_cache c)) + length (concat (map frame_bytes frames)) < 2 ^ 31"
  shows "\<exists>r. rtsp_serve H frames (c, s) = Inr r"
  using assms
proof (induction frames arbitrary: c s)
  case (Cons p frames)
  obtain ret c1 s1 where 1: "rtsp_server_input H p (c, s) = Inr (ret, c1, s1)" "parser_ok (rp_parser (rs_parser c1))"
      "length (ff_payload (rs_cache c1)) \<le> length (ff_payload (rs_cache c)) + length (frame_bytes p)" "I s1"
    using input_ok [OF Cons.prems(1,2), of p] Cons.prems(3) by auto
  obtain r where "rtsp_serve H frames (c1, s1) = Inr r"
    using Cons.IH [OF 1(4,2)] Cons.prems(3) 1(3) by auto
  with 1(1) show ?case by (simp add: rtsp_serve_def)
qed (simp add: rtsp_serve_def)

end

lemma owner_of_returning: "handlers_return H \<Longrightarrow> rtsp_owner H (\<lambda>_. True)"
  by unfold_locales (auto simp: handlers_return_def keeps_def)

lemma parser_ok_created: "parser_ok (rp_parser (rs_parser (rtsp_server_context_create port)))"
  by (simp add: rtsp_server_context_create_def rtsp_parser_create_def parser_ok_reset)

text \<open>
  C32. The server side of an RTSP connection survives its peer: whatever bytes arrive, in whatever
  frames, up to the size that an \<^verbatim>\<open>int\<close> holds, no assertion fails, nothing is read outside a buffer
  and the loop over the cache ends, for every frame; only the handlers could stop the process, and
  they are assumed to return.
\<close>

theorem rtsp_stream_never_aborts:
  assumes "handlers_return H" "length (concat (map frame_bytes frames)) < 2 ^ 31"
  shows "\<exists>r. rtsp_serve H frames (rtsp_server_context_create port, s) = Inr r"
  using assms(2)
  by (intro rtsp_owner.serve_ok [OF owner_of_returning [OF assms(1)]])
    (simp_all add: parser_ok_created, simp add: rtsp_server_context_create_def)

definition no_handlers :: "'s rtsp_server_context_handler" where
  "no_handlers = \<lparr>on_options = None, on_describe = None, on_setup = None, on_play = None, on_rtcp = None,
     on_teardown = None\<rparr>"

theorem rtsp_stream_never_aborts_witness:
  "\<exists>r. rtsp_serve (no_handlers\<lparr>on_options := Some (\<lambda>url seq s. Inr (url # s))\<rparr>)
     [Some (Fixed (fixed_create_data (bytes_of ''OPT''))), None, Some (Fixed (fixed_create_data [36, 0, 0]))]
     (rtsp_server_context_create 0, []) = Inr r"
  by (rule rtsp_stream_never_aborts)
    (simp_all add: handlers_return_def no_handlers_def frame_bytes_def)

subsection \<open>Messages, as the handlers see them\<close>

datatype rtsp_message =
    Request http_method bytes header_list
  | Interleaved byte bytes

fun message_bytes :: "rtsp_message \<Rightarrow> bytes" where
  "message_bytes (Request m url hs) = request_bytes m url hs"
| "message_bytes (Interleaved ch payload) =
     [c_dollar_sign, ch, of_nat (length payload div 256), of_nat (length payload)] @ payload"

fun wf_message :: "rtsp_message \<Rightarrow> bool" where
  "wf_message (Request m url hs) = wf_request m url hs"
| "wf_message (Interleaved ch payload) \<longleftrightarrow> 12 \<le> length payload \<and> length payload < 65536"

definition header_of :: "header_list \<Rightarrow> string \<Rightarrow> string" where
  "header_of hs k = (case map_of (header_texts hs) k of None \<Rightarrow> [] | Some v \<Rightarrow> v)"

definition sample_request :: rtsp_message where
  "sample_request = Request HTTP_OPTIONS sample_url sample_headers"

text \<open>The abstract server: one message, one call.\<close>

fun serve_message ::
  "'s rtsp_server_context_handler \<Rightarrow> rtsp_message \<Rightarrow> int \<times> 's \<Rightarrow> (int \<times> 's) outcome" where
  "serve_message H (Request m url hs) (seq, s) =
     (let seq' = atoi (header_of hs ''CSeq''); u = text_of url; sid = header_of hs ''Session'';
          finish = (\<lambda>r. obind r (\<lambda>s'. Inr (seq', s')))
      in case m of
           HTTP_OPTIONS \<Rightarrow> finish (case on_options H of None \<Rightarrow> Inr s | Some f \<Rightarrow> f u seq' s)
         | HTTP_DESCRIBE \<Rightarrow> finish (case on_describe H of None \<Rightarrow> Inr s | Some f \<Rightarrow> f u seq' s)
         | HTTP_SETUP \<Rightarrow> finish (case on_setup H of None \<Rightarrow> Inr s
             | Some f \<Rightarrow> f u sid (parse_transport (header_of hs ''Transport'')) seq' s)
         | HTTP_PLAY \<Rightarrow> finish (case on_play H of None \<Rightarrow> Inr s | Some f \<Rightarrow> f u sid seq' s)
         | HTTP_TEARDOWN \<Rightarrow> finish (case on_teardown H of None \<Rightarrow> Inr s | Some f \<Rightarrow> f u sid seq' s)
         | _ \<Rightarrow> Inr (seq', s))"
| "serve_message H (Interleaved ch payload) (seq, s) =
     obind (case on_rtcp H of None \<Rightarrow> Inr s
            | Some f \<Rightarrow> f (int (unat ch)) (Fixed (fixed_create_data payload)) s) (\<lambda>s'. Inr (seq, s'))"


text \<open>The handler of RTCP packets looks at the bytes of a frame only.\<close>

definition reads_payload :: "'s rtsp_server_context_handler \<Rightarrow> bool" where
  "reads_payload H \<longleftrightarrow>
     (\<forall>f ch a b s. on_rtcp H = Some f \<longrightarrow> fb_data a = fb_data b \<longrightarrow> f ch a s = f ch b s)"

text \<open>A server between two messages.\<close>

definition idle :: "rtsp_server_context \<Rightarrow> bool" where
  "idle c \<longleftrightarrow> ff_payload (rs_cache c) = [] \<and> rs_parser c = rtsp_parser_reset (rs_parser c)"

lemma reset_reset [simp]: "rtsp_parser_reset (rtsp_parser_reset p) = rtsp_parser_reset p"
  by (simp add: rtsp_parser_reset_def)

lemma process_request_serves:
  assumes "rp_method (rs_parser c) = method_strings m" "rp_url (rs_parser c) = text_of url"
    "rp_headers (rs_parser c) = map_of (header_texts hs)"
  shows "process_request H (c, s) =
    obind (serve_message H (Request m url hs) (seq, s)) (\<lambda>(seq', s'). Inr (c\<lparr>rs_seq := seq'\<rparr>, s'))"
proof -
  have "rtsp_header k (rs_parser c) = header_of hs k" for k
    using assms(3) by (simp add: rtsp_header_def header_of_def)
  with assms(1,2) show ?thesis
    by (cases m)
      (simp_all add: process_request_def Let_def options_request_def describe_request_def setup_request_def
        play_request_def teardown_request_def outcome_simps cong: option.case_cong)
qed

lemma first_byte:
  "message_bytes (Request m url hs) = c # cs \<Longrightarrow> c \<noteq> c_dollar_sign"
  by (cases m) (auto simp: request_bytes_def bytes_of_def byte_of_char_def c_dollar_sign_def)

lemma parse_request:
  assumes wf: "wf_request m url hs" and data: "ff_payload (rs_cache c) = request_bytes m url hs @ rest"
    and p: "rs_parser c = rtsp_parser_reset (rs_parser c)"
  shows "\<exists>p'. parse_rtsp_message H (c, s) =
    obind (serve_message H (Request m url hs) (rs_seq c, s)) (\<lambda>(seq', s').
      Inr (int (length (request_bytes m url hs)), c\<lparr>rs_parser := rtsp_parser_reset p', rs_seq := seq'\<rparr>, s'))"
proof -
  obtain p' where p': "rtsp_parser_input (ff_payload (rs_cache c)) (rs_parser c) =
      Inr (int (length (request_bytes m url hs)), p')" "rtsp_complete p'"
    "rp_method p' = method_strings m" "rp_url p' = text_of url" "rp_headers p' = map_of (header_texts hs)"
    using request_read [OF wf, of rest "rs_parser c"] p unfolding data by metis
  let ?c = "c\<lparr>rs_parser := p'\<rparr>"
  have "process_request H (?c, s) =
      obind (serve_message H (Request m url hs) (rs_seq c, s)) (\<lambda>(seq', s'). Inr (?c\<lparr>rs_seq := seq'\<rparr>, s'))"
    by (rule process_request_serves) (use p'(3-5) in simp_all)
  moreover have "int k \<noteq> RTSP_PARSE_ERROR" "int k \<noteq> RTSP_PARSE_CONTINUE" for k
    by (simp_all add: RTSP_PARSE_ERROR_def RTSP_PARSE_CONTINUE_def)
  ultimately have "parse_rtsp_message H (c, s) =
      obind (serve_message H (Request m url hs) (rs_seq c, s)) (\<lambda>(seq', s').
        Inr (int (length (request_bytes m url hs)), c\<lparr>rs_parser := rtsp_parser_reset p', rs_seq := seq'\<rparr>, s'))"
    using p'(1,2)
    by (cases "serve_message H (Request m url hs) (rs_seq c, s)")
      (simp_all add: parse_rtsp_message_def Let_def reset_parser_def case_prod_unfold del: serve_message.simps)
  then show ?thesis by blast
qed

lemma parse_packet:
  assumes wf: "wf_message (Interleaved ch payload)" and H: "reads_payload H"
    and data: "ff_payload (rs_cache c) = message_bytes (Interleaved ch payload) @ rest"
  shows "parse_rtcp_message H (c, s) =
    obind (serve_message H (Interleaved ch payload) (rs_seq c, s)) (\<lambda>(seq', s').
      Inr (int (length (message_bytes (Interleaved ch payload))), c, s'))"
proof -
  have n: "unat (of_nat (length payload div 256) :: byte) * 256 + unat (of_nat (length payload) :: byte) = length payload"
  proof -
    have "length payload div 256 < 256" using wf by (simp add: less_mult_imp_div_less)
    then show ?thesis by (simp add: unat_of_nat)
  qed
  have frame: "fb_data (ref_create 4 (length payload) (Fixed (rs_cache c))) = payload"
    by (simp add: data)
  show ?thesis
  proof (cases "on_rtcp H")
    case None
    with n wf show ?thesis
      by (simp add: parse_rtcp_message_def Let_def data kRtcpPrefixLength_def)
  next
    case (Some f)
    have "f (int (unat ch)) (ref_create 4 (length payload) (Fixed (rs_cache c))) s =
        f (int (unat ch)) (Fixed (fixed_create_data payload)) s"
      using H Some frame unfolding reads_payload_def by (metis fb_data.simps(1) fixed_create_data_simps(6))
    with Some n wf show ?thesis
      by (cases "f (uint ch) (Fixed (fixed_create_data payload)) s")
        (simp_all add: parse_rtcp_message_def Let_def data kRtcpPrefixLength_def)
  qed
qed


text \<open>A message of which only the first bytes are in the cache.\<close>

lemma message_bytes_not_Nil: "message_bytes msg \<noteq> []"
  by (cases msg) (simp_all add: request_bytes_def)

lemma first_byte_kind:
  "message_bytes msg ! 0 = c_dollar_sign \<longleftrightarrow> (\<exists>ch payload. msg = Interleaved ch payload)"
proof (cases msg)
  case (Request m url hs)
  then show ?thesis
    using first_byte [of m url hs] message_bytes_not_Nil [of msg] by (cases "message_bytes msg") auto
qed simp

lemma parse_packet_cut:
  assumes wf: "wf_message (Interleaved ch payload)"
    and data: "ff_payload (rs_cache c) = take k (message_bytes (Interleaved ch payload))"
    and k: "k < length (message_bytes (Interleaved ch payload))"
  shows "parse_rtcp_message H (c, s) = Inr (RTSP_PARSE_CONTINUE, c, s)"
proof (cases "k < 4")
  case True
  with data show ?thesis by (simp add: parse_rtcp_message_def kRtcpPrefixLength_def)
next
  case False
  then have "k = Suc (Suc (Suc (Suc (k - 4))))" by simp
  then obtain j where j: "k = Suc (Suc (Suc (Suc j)))" by blast
  have "length payload div 256 < 256" using wf by (simp add: less_mult_imp_div_less)
  then have n: "unat (of_nat (length payload div 256) :: byte) * 256 + unat (of_nat (length payload) :: byte) = length payload"
    by (simp add: unat_of_nat)
  show ?thesis
    using n wf k by (simp add: parse_rtcp_message_def Let_def data j kRtcpPrefixLength_def)
qed

lemma message_cut:
  assumes "wf_message msg" "rs_parser c = rtsp_parser_reset (rs_parser c)"
    and data: "ff_payload (rs_cache c) = take k (message_bytes msg)" and k: "0 < k" "k < length (message_bytes msg)"
  shows "\<exists>c'. input_loop H ret (c, s) = Inr (0, c', s) \<and> rs_cache c' = rs_cache c \<and> rs_seq c' = rs_seq c
    \<and> rs_parser c' = rtsp_parser_reset (rs_parser c')"
proof -
  have ne: "ff_payload (rs_cache c) \<noteq> []" "ff_payload (rs_cache c) ! 0 = message_bytes msg ! 0" using data k by auto
  show ?thesis
  proof (cases msg)
    case (Request m url hs)
    obtain p' where "rtsp_parser_input (ff_payload (rs_cache c)) (rs_parser c) = Inr (RTSP_PARSE_CONTINUE, p')"
      using request_cut [of m url hs k "rs_parser c"] assms(1,2) k data
      by (auto simp: Request RTSP_PARSE_CONTINUE_def)
    then have "parse_rtsp_message H (c, s) = Inr (RTSP_PARSE_CONTINUE, reset_parser (c\<lparr>rs_parser := p'\<rparr>), s)"
      by (simp add: parse_rtsp_message_def RTSP_PARSE_CONTINUE_def RTSP_PARSE_ERROR_def)
    moreover have "ff_payload (rs_cache c) ! 0 \<noteq> c_dollar_sign" using ne(2) first_byte_kind [of msg] by (simp add: Request)
    ultimately show ?thesis using ne(1) by (simp add: input_loop.simps [of H ret c s] byte_at_def reset_parser_def)
  next
    case (Interleaved ch payload)
    have "parse_rtcp_message H (c, s) = Inr (RTSP_PARSE_CONTINUE, c, s)"
      using parse_packet_cut assms(1) data k by (simp add: Interleaved)
    moreover have "ff_payload (rs_cache c) ! 0 = c_dollar_sign" using ne(2) by (simp add: Interleaved)
    ultimately show ?thesis using ne(1) assms(2) by (simp add: input_loop.simps [of H ret c s] byte_at_def)
  qed
qed

text \<open>A message that is there, with more behind it.\<close>

lemma serve_first:
  assumes wf: "wf_message msg" "reads_payload H" and p: "rs_parser c = rtsp_parser_reset (rs_parser c)"
    and data: "ff_payload (rs_cache c) = message_bytes msg @ rest"
  shows "\<exists>p'. input_loop H ret (c, s) = obind (serve_message H msg (rs_seq c, s)) (\<lambda>(seq', s').
    input_loop H (int (length (message_bytes msg))) (c\<lparr>rs_parser := rtsp_parser_reset p', rs_seq := seq',
      rs_cache := fixed_erase (length (message_bytes msg)) (rs_cache c)\<rparr>, s'))"
proof -
  let ?parse = "if ff_payload (rs_cache c) ! 0 = c_dollar_sign then parse_rtcp_message H (c, s)
    else parse_rtsp_message H (c, s)"
  have len: "0 < length (message_bytes msg)" using message_bytes_not_Nil by simp
  have kind: "ff_payload (rs_cache c) ! 0 = c_dollar_sign \<longleftrightarrow> (\<exists>ch payload. msg = Interleaved ch payload)"
    using first_byte_kind [of msg] len by (simp add: data nth_append)
  have "\<exists>p'. ?parse = obind (serve_message H msg (rs_seq c, s)) (\<lambda>(seq', s').
      Inr (int (length (message_bytes msg)), c\<lparr>rs_parser := rtsp_parser_reset p', rs_seq := seq'\<rparr>, s'))"
  proof (cases msg)
    case (Request m url hs)
    then show ?thesis using parse_request [of m url hs c rest H s] wf p data kind by simp
  next
    case (Interleaved ch payload)
    have "serve_message H msg (rs_seq c, s) = Inr (seq', s') \<Longrightarrow> seq' = rs_seq c" for seq' s'
      by (auto simp: Interleaved obind_eq_Inr)
    then have "?parse = obind (serve_message H msg (rs_seq c, s)) (\<lambda>(seq', s').
        Inr (int (length (message_bytes msg)),
          c\<lparr>rs_parser := rtsp_parser_reset (rs_parser c), rs_seq := seq'\<rparr>, s'))"
      using parse_packet [of ch payload H c rest s] wf p data kind
      by (cases "serve_message H msg (rs_seq c, s)") (auto simp: Interleaved)
    then show ?thesis by blast
  qed
  then obtain p' where parse: "?parse = obind (serve_message H msg (rs_seq c, s)) (\<lambda>(seq', s').
      Inr (int (length (message_bytes msg)), c\<lparr>rs_parser := rtsp_parser_reset p', rs_seq := seq'\<rparr>, s'))" ..
  have "ff_payload (rs_cache c) \<noteq> []" using data len by auto
  then have unfold: "input_loop H ret (c, s) = obind ?parse (\<lambda>(ret1, c1, s1).
          if ret1 = RTSP_PARSE_CONTINUE then Inr (0, c1, s1)
          else if ret1 = RTSP_PARSE_ERROR then Inr (- 1, c1, s1)
          else if \<not> 0 < ret1 then Inl Assert_failed
          else input_loop H ret1 (c1\<lparr>rs_cache := fixed_erase (nat ret1) (rs_cache c1)\<rparr>, s1))"
    by (simp add: input_loop.simps [of H ret c s] byte_at_def)
  show ?thesis
  proof (intro exI)
    show "input_loop H ret (c, s) = obind (serve_message H msg (rs_seq c, s)) (\<lambda>(seq', s').
      input_loop H (int (length (message_bytes msg))) (c\<lparr>rs_parser := rtsp_parser_reset p', rs_seq := seq',
        rs_cache := fixed_erase (length (message_bytes msg)) (rs_cache c)\<rparr>, s'))"
      unfolding unfold parse using len
      by (cases "serve_message H msg (rs_seq c, s)")
        (simp_all add: case_prod_unfold RTSP_PARSE_ERROR_def RTSP_PARSE_CONTINUE_def)
  qed
qed

text \<open>What may be left in the cache when the messages \<open>ms\<close> are still to come: the beginning of the first.\<close>

definition held :: "rtsp_message list \<Rightarrow> bytes \<Rightarrow> bool" where
  "held ms part \<longleftrightarrow>
     part = [] \<or> (\<exists>msg ms' k. ms = msg # ms' \<and> k < length (message_bytes msg) \<and> part = take k (message_bytes msg))"

definition waiting :: "bytes \<Rightarrow> rtsp_server_context \<Rightarrow> bool" where
  "waiting part c \<longleftrightarrow> ff_payload (rs_cache c) = part \<and> rs_parser c = rtsp_parser_reset (rs_parser c)"

lemma serve_messages:
  assumes "\<forall>msg \<in> set (ms @ later). wf_message msg" "reads_payload H" "held later part"
    and "waiting (concat (map message_bytes ms) @ part) c" and "0 \<le> ret"
  shows "obind (input_loop H ret (c, s)) (\<lambda>(ret, c', s'). Inr (waiting part c' \<and> 0 \<le> ret, rs_seq c', s')) =
    obind (ofold (serve_message H) ms (rs_seq c, s)) (\<lambda>(seq', s'). Inr (True, seq', s'))"
  using assms
proof (induction ms arbitrary: ret c s)
  case Nil
  show ?case
  proof (cases "part = []")
    case True
    with Nil.prems show ?thesis by (simp add: input_loop.simps [of H ret c s] waiting_def)
  next
    case False
    then obtain msg ms' k where k: "later = msg # ms'" "k < length (message_bytes msg)" "part = take k (message_bytes msg)"
      using Nil.prems(3) by (auto simp: held_def)
    have "0 < k" using False k by (cases k) auto
    with message_cut [of msg c k H ret s] Nil.prems(1,4) k False show ?thesis by (auto simp: waiting_def)
  qed
next
  case (Cons msg ms)
  let ?rest = "concat (map message_bytes ms) @ part"
  have data: "ff_payload (rs_cache c) = message_bytes msg @ ?rest" "rs_parser c = rtsp_parser_reset (rs_parser c)"
    using Cons.prems(4) by (simp_all add: waiting_def)
  obtain p' where step: "input_loop H ret (c, s) = obind (serve_message H msg (rs_seq c, s)) (\<lambda>(seq', s').
    input_loop H (int (length (message_bytes msg))) (c\<lparr>rs_parser := rtsp_parser_reset p', rs_seq := seq',
      rs_cache := fixed_erase (length (message_bytes msg)) (rs_cache c)\<rparr>, s'))"
    using serve_first [OF _ Cons.prems(2) data(2,1), of ret s] Cons.prems(1) by auto
  show ?case
  proof (cases "serve_message H msg (rs_seq c, s)")
    case (Inl e)
    with step show ?thesis by simp
  next
    case (Inr r)
    obtain seq' s' where r: "r = (seq', s')" by (cases r)
    let ?c = "c\<lparr>rs_parser := rtsp_parser_reset p', rs_seq := seq',
      rs_cache := fixed_erase (length (message_bytes msg)) (rs_cache c)\<rparr>"
    have "waiting ?rest ?c" using data by (simp add: waiting_def)
    from Cons.IH [OF _ Cons.prems(2,3) this, of "int (length (message_bytes msg))" s'] Cons.prems(1)
    show ?thesis unfolding step ofold.simps Inr r by (simp add: case_prod_unfold)
  qed
qed

text \<open>A frame that holds whole messages.\<close>

definition packed :: "rtsp_message list \<Rightarrow> frame_ptr" where
  "packed ms = Some (Fixed (fixed_create_data (concat (map message_bytes ms))))"

lemma frame_bytes_packed: "frame_bytes (packed ms) = concat (map message_bytes ms)"
  by (simp add: frame_bytes_def packed_def)

lemma waiting_Nil: "waiting [] = idle"
  by (rule ext) (simp add: waiting_def idle_def)

text \<open>One frame with one message in it.\<close>

lemma serve_one:
  assumes "wf_message msg" "reads_payload H" "idle c" "serve_message H msg (rs_seq c, s) = Inr (seq', s')"
  shows "\<exists>ret c'. rtsp_server_input H (packed [msg]) (c, s) = Inr (ret, c', s') \<and> 0 \<le> ret \<and> idle c' \<and> rs_seq c' = seq'"
proof -
  let ?c = "c\<lparr>rs_cache := fixed_append_frame (packed [msg]) (rs_cache c)\<rparr>"
  have "obind (input_loop H 0 (?c, s)) (\<lambda>(ret, c', s'). Inr (idle c' \<and> 0 \<le> ret, rs_seq c', s')) = Inr (True, seq', s')"
    using serve_messages [of "[msg]" "[]" H "[]" ?c 0 s] assms
    by (simp add: waiting_Nil waiting_def idle_def held_def payload_append frame_bytes_packed)
  then show ?thesis by (auto simp: rtsp_server_input_def obind_eq_Inr)
qed

text \<open>Where a prefix of a stream of messages ends.\<close>

lemma split_messages:
  assumes "concat (map message_bytes ms) = xs @ ys"
  shows "\<exists>ms1 ms2 part. ms = ms1 @ ms2 \<and> xs = concat (map message_bytes ms1) @ part \<and> held ms2 part
    \<and> part @ ys = concat (map message_bytes ms2)"
  using assms
proof (induction ms arbitrary: xs)
  case Nil
  then show ?case by (intro exI [of _ "[]"]) (simp add: held_def)
next
  case (Cons msg ms)
  show ?case
  proof (cases "length xs < length (message_bytes msg)")
    case True
    have "take (length xs) (message_bytes msg @ concat (map message_bytes ms)) = xs" using Cons.prems by simp
    with True have "xs = take (length xs) (message_bytes msg)" by simp
    with True Cons.prems show ?thesis
      by (intro exI [of _ "[]"] exI [of _ "msg # ms"] exI [of _ xs]) (auto simp: held_def)
  next
    case False
    with Cons.prems obtain xs' where xs': "xs = message_bytes msg @ xs'" "concat (map message_bytes ms) = xs' @ ys"
      by (auto simp: append_eq_append_conv2 not_less)
    from Cons.IH [OF xs'(2)] obtain ms1 ms2 part where "ms = ms1 @ ms2" "xs' = concat (map message_bytes ms1) @ part"
      "held ms2 part" "part @ ys = concat (map message_bytes ms2)" by blast
    with xs'(1) show ?thesis by (intro exI [of _ "msg # ms1"] exI [of _ ms2] exI [of _ part]) simp
  qed
qed

lemma serve_stream:
  assumes "\<forall>msg \<in> set ms. wf_message msg" "reads_payload H" "waiting part c" "held ms part"
    and "part @ concat (map frame_bytes frames) = concat (map message_bytes ms)"
  shows "obind (rtsp_serve H frames (c, s)) (\<lambda>(c', s'). Inr (idle c', rs_seq c', s')) =
    obind (ofold (serve_message H) ms (rs_seq c, s)) (\<lambda>(seq', s'). Inr (True, seq', s'))"
  using assms
proof (induction frames arbitrary: c s ms part)
  case Nil
  have "ms = []"
  proof (cases ms)
    case (Cons msg ms')
    have "part = [] \<or> length part < length (message_bytes msg)" using Nil.prems(4) by (auto simp: held_def Cons)
    with Nil.prems(5) message_bytes_not_Nil [of msg] show ?thesis by (auto simp: Cons)
  qed
  with Nil.prems show ?case by (simp add: rtsp_serve_def waiting_Nil)
next
  case (Cons p frames)
  let ?c = "c\<lparr>rs_cache := fixed_append_frame p (rs_cache c)\<rparr>"
  have "concat (map message_bytes ms) = (part @ frame_bytes p) @ concat (map frame_bytes frames)"
    using Cons.prems(5) by simp
  from split_messages [OF this] obtain ms1 ms2 part' where ms: "ms = ms1 @ ms2"
    and cut: "part @ frame_bytes p = concat (map message_bytes ms1) @ part'" "held ms2 part'"
      "part' @ concat (map frame_bytes frames) = concat (map message_bytes ms2)" by blast
  have "waiting (concat (map message_bytes ms1) @ part') ?c"
    using Cons.prems(3) cut(1) by (simp add: waiting_def payload_append)
  then have one: "obind (input_loop H 0 (?c, s)) (\<lambda>(ret, c', s'). Inr (waiting part' c' \<and> 0 \<le> ret, rs_seq c', s')) =
      obind (ofold (serve_message H) ms1 (rs_seq c, s)) (\<lambda>(seq', s'). Inr (True, seq', s'))"
    using serve_messages [of ms1 ms2 H part' ?c 0 s] Cons.prems(1,2) cut(2) ms by simp
  show ?case
  proof (cases "input_loop H 0 (?c, s)")
    case (Inl e)
    with one have "ofold (serve_message H) ms1 (rs_seq c, s) = Inl e"
      by (cases "ofold (serve_message H) ms1 (rs_seq c, s)") auto
    with Inl show ?thesis by (simp add: rtsp_serve_def rtsp_server_input_def ofold_append ms)
  next
    case (Inr r)
    obtain ret c1 s1 where r: "r = (ret, c1, s1)" by (cases r)
    with one Inr have c1: "waiting part' c1" "ofold (serve_message H) ms1 (rs_seq c, s) = Inr (rs_seq c1, s1)"
      by (cases "ofold (serve_message H) ms1 (rs_seq c, s)"; auto)+
    with Inr r Cons.IH [OF _ Cons.prems(2) c1(1) cut(2,3), of s1] Cons.prems(1) show ?thesis
      by (simp add: rtsp_serve_def rtsp_server_input_def ofold_append ms)
  qed
qed

text \<open>
  C33. The server side of an RTSP connection refines a server that sees messages, and it does not
  matter how the connection cuts the stream: when the bytes that arrive are well-formed requests
  and interleaved packets, one after the other, then however these bytes are spread over frames --
  several messages in one frame, a message cut at any byte, empty frames in between -- the handlers
  are called message by message, in order, each with the URL, the session, the transport and the
  sequence number of its own request or with the channel and the bytes of its own packet; if a
  handler stops the process, it stops at the same message; and at the end the server is idle, with
  nothing left in its cache.
\<close>

theorem rtsp_stream_served:
  assumes "\<forall>msg \<in> set ms. wf_message msg" "reads_payload H" "idle c"
    and "concat (map frame_bytes frames) = concat (map message_bytes ms)"
  shows "obind (rtsp_serve H frames (c, s)) (\<lambda>(c', s'). Inr (idle c', rs_seq c', s')) =
    obind (ofold (serve_message H) ms (rs_seq c, s)) (\<lambda>(seq', s'). Inr (True, seq', s'))"
  using assms by (intro serve_stream [of ms H "[]"]) (simp_all add: waiting_Nil held_def)


definition url_recorder :: "string list rtsp_server_context_handler" where
  "url_recorder = no_handlers\<lparr>on_options := Some (\<lambda>url seq s. Inr (s @ [url])),
     on_rtcp := Some (\<lambda>ch frame s. Inr (s @ [text_of (take 1 (fb_data frame))]))\<rparr>"

definition byte_by_byte :: "rtsp_message list \<Rightarrow> frame_ptr list" where
  "byte_by_byte ms = map (\<lambda>b. Some (Fixed (fixed_create_data [b]))) (concat (map message_bytes ms))"

theorem rtsp_stream_served_witness:
  "obind (rtsp_serve url_recorder
       (byte_by_byte [sample_request, Interleaved 1 (replicate 12 65), sample_request])
       (rtsp_server_context_create 0, [])) (\<lambda>(c', s'). Inr (idle c', rs_seq c', s')) =
     Inr (True, 7, [''rtsp://h:554/live/a'', ''A'', ''rtsp://h:554/live/a''])"
proof -
  have atoi: "atoi ''7'' = 7" by code_simp
  have served: "serve_message url_recorder sample_request (seq, s) = Inr (7, s @ [''rtsp://h:554/live/a''])" for seq s
    by (simp add: sample_request_def header_of_def header_texts_def url_recorder_def no_handlers_def atoi
        sample_headers_def sample_url_def)
  have packet: "serve_message url_recorder (Interleaved 1 (replicate 12 65)) (seq, s) = Inr (seq, s @ [''A''])" for seq s
    using char_of_byte_of_char [of "CHR ''A''"]
    by (simp add: url_recorder_def no_handlers_def text_of_def byte_of_char_def)
  have wf: "wf_message sample_request" using sample_wf by (simp add: sample_request_def)
  have idle: "idle (rtsp_server_context_create 0)"
    by (simp add: idle_def rtsp_server_context_create_def rtsp_parser_create_def)
  have H: "reads_payload url_recorder" by (simp add: reads_payload_def url_recorder_def)
  let ?ms = "[sample_request, Interleaved 1 (replicate 12 65), sample_request]"
  have "concat (map frame_bytes (byte_by_byte ?ms)) = concat (map message_bytes ?ms)"
    by (simp add: byte_by_byte_def frame_bytes_def comp_def del: message_bytes.simps)
  with rtsp_stream_served [OF _ H idle, of ?ms _ "[]"] wf show ?thesis
    by (simp add: served packet del: serve_message.simps)
qed


subsection \<open>The transport header\<close>

lemma show_nat_plain: "is_digit d = False \<Longrightarrow> d \<notin> set (show_nat n)"
  using show_nat_digits [of d n] by auto

lemma not_digits: "is_digit (CHR '';'') = False" "is_digit (CHR ''-'') = False"
  by (simp_all add: is_digit_def code_of_def)

lemma scan_show_nat: "scan_int (show_nat n) = Some (int n, [])"
  using scan_int_show_nat [of "[]" n] by simp

lemma sscanf_interleaved:
  "sscanf_pair lead (lead @ show_nat a @ CHR ''-'' # show_nat b) = Some (int a, Some (int b))"
  "sscanf_pair lead (lead @ show_nat a) = Some (int a, None)"
  using scan_int_show_nat [of "CHR ''-'' # show_nat b" a]
  by (simp_all add: sscanf_pair_def scan_show_nat not_digits)

lemma transport_tokens:
  "parse_transport (t1 @ CHR '';'' # t2 @ CHR '';'' # t3) =
     parse_transport_token t3 (parse_transport_token t2 (parse_transport_token t1 rtsp_transport_init))"
  if "CHR '';'' \<notin> set t1" "CHR '';'' \<notin> set t2" "CHR '';'' \<notin> set t3"
  using that by (simp add: parse_transport_def split_char_Cons split_char_token)

lemma interleaved_token:
  "parse_transport_token (''interleaved='' @ t) r =
     (case sscanf_pair ''interleaved='' (''interleaved='' @ t) of
        None \<Rightarrow> r
      | Some (a, Some b) \<Rightarrow> r\<lparr>tp_interleaved1 := a, tp_interleaved2 := b\<rparr>
      | Some (a, None) \<Rightarrow> r\<lparr>tp_interleaved1 := a, tp_interleaved2 := a + 1\<rparr>)"
  by (simp add: parse_transport_token_def Let_def starts_with_def)

lemma plain_tokens:
  "parse_transport_token ''RTP/AVP/TCP'' r = r\<lparr>tp_transport := 1\<rparr>"
  "parse_transport_token ''RTP/AVP'' r = r" "parse_transport_token ''unicast'' r = r"
  by (simp_all add: parse_transport_token_def Let_def starts_with_def)


end
