(* ===== verification/Rtsp_Forward_Session.thy ===== *)
theory Rtsp_Forward_Session
  imports Rtsp_Server_Proofs Rtsp_Sink Rtmp_Source
begin

text \<open>
  The session of an RTSP player (\<^verbatim>\<open>rtsp_forward_session.h\<close>, \<^verbatim>\<open>rtsp_forward_session.cc\<close>): it
  answers the requests that its server context hands to it, joins the RTSP sink of a stream on
  \<^verbatim>\<open>PLAY\<close>, and writes the packets of the sink to the connection, each behind an interleaving header,
  with RTCP reports in between.

  The RTCP side of librtp, the clocks and the addresses of the socket are parameters: \<open>rtcp_lib\<close>
  and \<open>session_env\<close>, where the latter holds what one call reads of them. The connection is what is
  written to it (\<open>rf_out\<close>) and whether it was reset (\<open>rf_conn\<close>); shutdowns are posted and counted;
  what the session asks of sinks is a list of requests.
\<close>

subsection \<open>The library and the environment\<close>

text \<open>
  \<^verbatim>\<open>rtp_create\<close> (with the SSRC, the first time stamp, the clock rate and the bandwidth),
  \<^verbatim>\<open>rtp_set_info\<close>, \<^verbatim>\<open>rtp_rtcp_interval\<close>, \<^verbatim>\<open>rtp_rtcp_report\<close> (the bytes it puts into the buffer),
  \<^verbatim>\<open>rtp_onsend\<close> and \<^verbatim>\<open>rtp_onreceived_rtcp\<close>.
\<close>

record 'r rtcp_lib =
  rl_create :: "u32 \<Rightarrow> u32 \<Rightarrow> int \<Rightarrow> int \<Rightarrow> 'r"
  rl_set_info :: "string \<Rightarrow> string \<Rightarrow> 'r \<Rightarrow> 'r"
  rl_interval :: "'r \<Rightarrow> int \<times> 'r"
  rl_report :: "nat \<Rightarrow> 'r \<Rightarrow> bytes \<times> 'r"
  rl_onsend :: "bytes \<Rightarrow> 'r \<Rightarrow> 'r"
  rl_onreceived_rtcp :: "bytes \<Rightarrow> 'r \<Rightarrow> 'r"

text \<open>The fields of \<^verbatim>\<open>struct tm\<close> that are printed.\<close>

record tm =
  tm_wday :: nat
  tm_mday :: nat
  tm_mon :: nat
  tm_year :: nat
  tm_hour :: nat
  tm_min :: nat
  tm_sec :: nat

record session_env =
  en_tm :: tm
  en_milliseconds :: nat
  en_rtpclock :: u64
  en_local_ip :: string
  en_remote_ip :: string
  en_sink_alive :: bool

definition s_month :: "string list" where
  "s_month = [''Jan'', ''Feb'', ''Mar'', ''Apr'', ''May'', ''Jun'', ''Jul'', ''Aug'', ''Sep'', ''Oct'',
     ''Nov'', ''Dec'']"

definition s_week :: "string list" where
  "s_week = [''Sun'', ''Mon'', ''Tue'', ''Wed'', ''Thu'', ''Fri'', ''Sat'']"

definition rfc822_now_format :: "tm \<Rightarrow> string" where
  "rfc822_now_format t = snprintf_s 64
     (s_week ! (tm_wday t mod 7) @ '', '' @ show_dec_pad 2 (tm_mday t) @ '' '' @ s_month ! (tm_mon t mod 12)
      @ '' '' @ show_dec_pad 4 (tm_year t + 1900) @ '' '' @ show_dec_pad 2 (tm_hour t) @ '':''
      @ show_dec_pad 2 (tm_min t) @ '':'' @ show_dec_pad 2 (tm_sec t) @ '' GMT'')"

subsection \<open>State\<close>

definition kRtpVideoChannel :: nat where "kRtpVideoChannel = 0"
definition kRtcpVideoChannel :: nat where "kRtcpVideoChannel = 1"
definition kRtpAudioChannel :: nat where "kRtpAudioChannel = 2"
definition kRtcpAudioChannel :: nat where "kRtcpAudioChannel = 3"

text \<open>
  \<open>rf_sinks\<close> is the process-wide registry; \<open>rf_asked\<close> are the joins and leaves that were asked of
  sinks, and \<open>rf_tracks_of\<close> the sinks that were asked for their tracks, with the URL to answer.
  In the map \<^verbatim>\<open>tracks_\<close> a null pointer is \<open>Some None\<close>.
\<close>

record 'r rtsp_forward_session =
  rf_session_id :: string
  rf_sink :: "(nat \<times> sink_kind) option"
  rf_channel :: "channel_ref option"
  rf_tracks :: "string \<rightharpoonup> rtsp_track option"
  rf_audio_track :: "rtsp_track option"
  rf_video_track :: "rtsp_track option"
  rf_video_rtcp :: "'r option"
  rf_audio_rtcp :: "'r option"
  rf_video_rtcp_time :: u64
  rf_audio_rtcp_time :: u64
  rf_conn :: bool
  rf_out :: "frame_buffer list"
  rf_shutdowns :: nat
  rf_asked :: "((nat \<times> sink_kind) \<times> sink_event) list"
  rf_tracks_of :: "((nat \<times> sink_kind) \<times> string) list"
  rf_sinks :: "(nat \<times> sink_kind) sinks"

text \<open>After \<^verbatim>\<open>start\<close>: the channel \<open>ch\<close> is made and the connection reads.\<close>

definition rtsp_session_start :: "channel_ref \<Rightarrow> (nat \<times> sink_kind) sinks \<Rightarrow> 'r rtsp_forward_session" where
  "rtsp_session_start ch sinks =
     \<lparr>rf_session_id = [], rf_sink = None, rf_channel = Some ch, rf_tracks = Map.empty,
      rf_audio_track = None, rf_video_track = None, rf_video_rtcp = None, rf_audio_rtcp = None,
      rf_video_rtcp_time = 0, rf_audio_rtcp_time = 0, rf_conn = True, rf_out = [], rf_shutdowns = 0,
      rf_asked = [], rf_tracks_of = [], rf_sinks = sinks\<rparr>"

type_synonym 'r session_step = "'r rtsp_forward_session \<Rightarrow> 'r rtsp_forward_session outcome"

definition rf_write :: "bytes \<Rightarrow> 'r session_step" where
  "rf_write bs s =
     (if \<not> rf_conn s then Inl Null_deref else Inr (s\<lparr>rf_out := rf_out s @ [Fixed (fixed_create_data bs)]\<rparr>))"

definition rf_write_frame :: "frame_buffer \<Rightarrow> 'r session_step" where
  "rf_write_frame f s = (if \<not> rf_conn s then Inl Null_deref else Inr (s\<lparr>rf_out := rf_out s @ [f]\<rparr>))"

definition rf_shutdown :: "'r rtsp_forward_session \<Rightarrow> 'r rtsp_forward_session" where
  "rf_shutdown s = s\<lparr>rf_shutdowns := rf_shutdowns s + 1\<rparr>"

definition rf_respond :: "string \<Rightarrow> 'r session_step" where
  "rf_respond text s = rf_write (bytes_of text) s"

text \<open>\<^verbatim>\<open>sink_.lock()\<close>\<close>

definition rf_lock :: "session_env \<Rightarrow> 'r rtsp_forward_session \<Rightarrow> (nat \<times> sink_kind) option" where
  "rf_lock E s = (if en_sink_alive E then rf_sink s else None)"

text \<open>
  A join or a leave. A sink that is joined with the null channel writes to a null pointer; one that
  is left with it erases nothing.
\<close>

definition rf_ask :: "(nat \<times> sink_kind) \<Rightarrow> (channel_ref \<Rightarrow> sink_event) \<Rightarrow> 'r session_step" where
  "rf_ask k ev s =
     (case rf_channel s of
        None \<Rightarrow> Inl Null_deref
      | Some ch \<Rightarrow> Inr (s\<lparr>rf_asked := rf_asked s @ [(k, ev ch)]\<rparr>))"

definition rf_leave :: "(nat \<times> sink_kind) \<Rightarrow> 'r rtsp_forward_session \<Rightarrow> 'r rtsp_forward_session" where
  "rf_leave k s =
     (case rf_channel s of
        None \<Rightarrow> s
      | Some ch \<Rightarrow> s\<lparr>rf_asked := rf_asked s @ [(k, Leave ch)]\<rparr>)"

text \<open>The counter of \<^verbatim>\<open>make_session_id\<close> is a local variable, so that every id is the same.\<close>

definition make_session_id :: string where
  "make_session_id = show_nat 0xff1fcc"

subsection \<open>Packets\<close>

definition make_frame_header :: "nat \<Rightarrow> frame_buffer \<Rightarrow> bytes" where
  "make_frame_header ch frame =
     (let n = (of_nat (fb_size frame) :: u32)
      in [c_dollar_sign, of_nat ch, ucast (drop_bit 8 n AND 0xFF), ucast (n AND 0xFF)])"

text \<open>The arithmetic of C on an \<^verbatim>\<open>int64_t\<close> time stamp; the result becomes a \<^verbatim>\<open>uint32_t\<close>.\<close>

definition rtcp_start_time :: "frame_buffer \<Rightarrow> rtsp_track \<Rightarrow> u32 outcome" where
  "rtcp_start_time frame tk =
     (if tk_sample_rate tk = 0 then Inl Division_by_zero
      else Inr (word_of_int ((fb_dts frame * 1000) sdiv tk_sample_rate tk)))"

text \<open>\<^verbatim>\<open>send_video_rtcp\<close> and \<^verbatim>\<open>send_audio_rtcp\<close> up to their context: the one there is, or a new one.\<close>

definition rtcp_context ::
  "'r rtcp_lib \<Rightarrow> int \<Rightarrow> string \<Rightarrow> frame_buffer \<Rightarrow> rtsp_track option \<Rightarrow> 'r option \<Rightarrow> 'r outcome" where
  "rtcp_context L bandwidth name frame track ctx =
     (case ctx of
        Some r \<Rightarrow> Inr r
      | None \<Rightarrow>
          (case track of
             None \<Rightarrow> Inl Null_deref
           | Some tk \<Rightarrow> obind (rtcp_start_time frame tk) (\<lambda>t.
               Inr (rl_set_info L ''SimpleRtsp'' name (rl_create L (tk_ssrc tk) t (tk_sample_rate tk) bandwidth)))))"

text \<open>The report, when it is due: the new time, what is written, and the context.\<close>

definition rtcp_due :: "int \<Rightarrow> u64 \<Rightarrow> u64 \<Rightarrow> bool" where
  "rtcp_due interval sent now \<longleftrightarrow> sent = 0 \<or> sent + word_of_int interval * 1000 \<le> now"

definition send_rtcp ::
  "'r rtcp_lib \<Rightarrow> session_env \<Rightarrow> nat \<Rightarrow> frame_buffer \<Rightarrow> 'r \<Rightarrow> u64 \<Rightarrow> 'r rtsp_forward_session
   \<Rightarrow> ('r \<times> u64 \<times> 'r rtsp_forward_session) outcome" where
  "send_rtcp L E ch frame r sent s =
     (let now = en_rtpclock E; (interval, r1) = rl_interval L r
      in if rtcp_due interval sent now
         then let (report, r2) = rl_report L 1024 r1;
                  rtcp_frame = Fixed (fixed_create_data report)
              in obind (rf_write (make_frame_header ch rtcp_frame) s) (\<lambda>s1.
                 obind (rf_write_frame rtcp_frame s1) (\<lambda>s2.
                   Inr (rl_onsend L (fb_data frame) r2, now, s2)))
         else Inr (rl_onsend L (fb_data frame) r1, sent, s))"

definition send_video_rtcp :: "'r rtcp_lib \<Rightarrow> session_env \<Rightarrow> frame_buffer \<Rightarrow> 'r session_step" where
  "send_video_rtcp L E frame s =
     obind (rtcp_context L (4 * 1024 * 1024) ''vx'' frame (rf_video_track s) (rf_video_rtcp s)) (\<lambda>r.
     obind (send_rtcp L E kRtcpVideoChannel frame r (rf_video_rtcp_time s) s) (\<lambda>(r1, t, s1).
       Inr (s1\<lparr>rf_video_rtcp := Some r1, rf_video_rtcp_time := t\<rparr>)))"

definition send_audio_rtcp :: "'r rtcp_lib \<Rightarrow> session_env \<Rightarrow> frame_buffer \<Rightarrow> 'r session_step" where
  "send_audio_rtcp L E frame s =
     obind (rtcp_context L (128 * 1024) ''ax'' frame (rf_audio_track s) (rf_audio_rtcp s)) (\<lambda>r.
     obind (send_rtcp L E kRtcpAudioChannel frame r (rf_audio_rtcp_time s) s) (\<lambda>(r1, t, s1).
       Inr (s1\<lparr>rf_audio_rtcp := Some r1, rf_audio_rtcp_time := t\<rparr>)))"

definition rf_channel_out :: "'r rtcp_lib \<Rightarrow> session_env \<Rightarrow> delivery \<Rightarrow> 'r session_step" where
  "rf_channel_out L E d s =
     (case d of
        (f, Some e) \<Rightarrow> Inr (rf_shutdown s)
      | (None, None) \<Rightarrow> Inl Null_deref
      | (Some frame, None) \<Rightarrow>
          if fb_media frame = tag_code Video
          then obind (send_video_rtcp L E frame s) (\<lambda>s1.
               obind (rf_write (make_frame_header kRtpVideoChannel frame) s1) (rf_write_frame frame))
          else if fb_media frame = tag_code Audio
          then obind (send_audio_rtcp L E frame s) (\<lambda>s1.
               obind (rf_write (make_frame_header kRtpAudioChannel frame) s1) (rf_write_frame frame))
          else Inr s)"

definition rf_on_rtcp :: "'r rtcp_lib \<Rightarrow> int \<Rightarrow> frame_buffer \<Rightarrow> 'r session_step" where
  "rf_on_rtcp L ch frame s =
     Inr (if ch = int kRtcpVideoChannel \<and> rf_video_rtcp s \<noteq> None
          then s\<lparr>rf_video_rtcp := map_option (rl_onreceived_rtcp L (fb_data frame)) (rf_video_rtcp s)\<rparr>
          else if ch = int kRtcpAudioChannel \<and> rf_audio_rtcp s \<noteq> None
          then s\<lparr>rf_audio_rtcp := map_option (rl_onreceived_rtcp L (fb_data frame)) (rf_audio_rtcp s)\<rparr>
          else s)"

subsection \<open>Requests\<close>

definition date_line :: "session_env \<Rightarrow> string" where
  "date_line E = ''Date: '' @ rfc822_now_format (en_tm E) @ CRLF"

definition make_461_response :: "session_env \<Rightarrow> int \<Rightarrow> string" where
  "make_461_response E req =
     ''RTSP/1.0 461 Unsupported Transport'' @ CRLF @ ''CSeq: '' @ show_int req @ CRLF @ date_line E
     @ ''User-Agent: Simple/Rtsp'' @ CRLF @ CRLF"

text \<open>The 1024 bytes of the buffer of \<^verbatim>\<open>on_options\<close> hold its text, whose parts are bounded.\<close>

definition rf_on_options :: "session_env \<Rightarrow> string \<Rightarrow> int \<Rightarrow> 'r session_step" where
  "rf_on_options E url seq s =
     rf_respond (''RTSP/1.0 200 OK'' @ CRLF @ ''CSeq: '' @ show_int seq @ CRLF @ date_line E
       @ ''Content-Length: 0'' @ CRLF
       @ ''Public: OPTIONS, DESCRIBE, SETUP, TEARDOWN, PLAY, SET_PARAMETER'' @ CRLF @ CRLF) s"

text \<open>The kind of a sink is what the dynamic cast looks at.\<close>

definition rf_on_describe :: "string \<Rightarrow> int \<Rightarrow> 'r session_step" where
  "rf_on_describe url seq s =
     (let result = split_char (CHR ''/'') url; n = length result
      in if n < 5 then Inr (rf_shutdown s)
         else case sink_get (rf_sinks s) (''rtsp_'' @ result ! (n - 2) @ ''_'' @ result ! (n - 1)) of
                None \<Rightarrow> Inr (rf_shutdown s)
              | Some k \<Rightarrow>
                  if snd k \<noteq> Rtsp_kind then Inr (rf_shutdown s)
                  else Inr (s\<lparr>rf_tracks_of := rf_tracks_of s @ [(k, url)], rf_sink := Some k\<rparr>))"

text \<open>The description, and the tracks under the URLs by which \<^verbatim>\<open>SETUP\<close> names them.\<close>

definition describe_sdp :: "session_env \<Rightarrow> string \<Rightarrow> rtsp_track option list \<Rightarrow> string" where
  "describe_sdp E url tracks =
     ''v=0'' @ NL
     @ ''o=- '' @ show_nat (en_milliseconds E) @ '' '' @ show_nat (en_milliseconds E) @ '' IN IP4 '' @ en_local_ip E @ NL
     @ ''s=Simple'' @ NL @ ''t=0 0'' @ NL @ ''a=range:npt=now-'' @ NL @ ''a=control:*'' @ NL
     @ ''a=x-qt-text-nam:Simple/Media'' @ NL @ ''a=x-qt-text-inf:'' @ url @ NL
     @ concat (map (\<lambda>t. case t of None \<Rightarrow> [] | Some tk \<Rightarrow> tk_sdp tk) tracks)"

definition track_url :: "string \<Rightarrow> rtsp_track \<Rightarrow> string" where
  "track_url url tk = url @ ''/'' @ tk_id tk"

fun add_tracks :: "string \<Rightarrow> rtsp_track option list \<Rightarrow> (string \<rightharpoonup> rtsp_track option) \<Rightarrow> (string \<rightharpoonup> rtsp_track option)" where
  "add_tracks url [] m = m"
| "add_tracks url (None # ts) m = add_tracks url ts m"
| "add_tracks url (Some tk # ts) m = add_tracks url ts (m(track_url url tk \<mapsto> Some tk))"

definition describe_response :: "session_env \<Rightarrow> string \<Rightarrow> int \<Rightarrow> string \<Rightarrow> string" where
  "describe_response E url seq sdp =
     ''RTSP/1.0 200 OK'' @ CRLF @ ''CSeq: '' @ show_int seq @ CRLF @ date_line E
     @ ''Content-Base: '' @ url @ CRLF @ ''Content-Type: application/sdp'' @ CRLF
     @ ''Content-Length: '' @ show_nat (length sdp) @ CRLF @ CRLF @ sdp"

definition rf_on_track :: "session_env \<Rightarrow> int \<Rightarrow> string \<Rightarrow> rtsp_track option list \<Rightarrow> 'r session_step" where
  "rf_on_track E seq url tracks s =
     (if \<not> rf_conn s then Inl Null_deref
      else rf_respond (describe_response E url seq (describe_sdp E url tracks))
             (s\<lparr>rf_tracks := add_tracks url tracks (rf_tracks s)\<rparr>))"

text \<open>The answer to \<^verbatim>\<open>SETUP\<close>: \<open>video\<close> says which of the two channel pairs the track gets.\<close>

definition setup_response :: "session_env \<Rightarrow> int \<Rightarrow> bool \<Rightarrow> u32 \<Rightarrow> string \<Rightarrow> string" where
  "setup_response E seq video ssrc sid =
     ''RTSP/1.0 200 OK'' @ CRLF @ ''CSeq: '' @ show_int seq @ CRLF @ date_line E
     @ ''Transport: RTP/AVP/TCP;unicast;destination='' @ en_local_ip E @ '';''
     @ ''source='' @ en_remote_ip E @ '';''
     @ ''interleaved='' @ show_nat (if video then kRtpVideoChannel else kRtpAudioChannel) @ ''-''
     @ show_nat (if video then kRtcpVideoChannel else kRtcpAudioChannel)
     @ '';ssrc='' @ show_nat (unat ssrc) @ CRLF
     @ ''x-Dynamic-Rate: 1'' @ CRLF @ ''x-Transport-Options: late-tolerance=1.400000'' @ CRLF
     @ ''Session: '' @ sid @ '';timeout=65'' @ CRLF @ CRLF"

text \<open>
  The track is looked up with \<^verbatim>\<open>tracks_[track_id]\<close>, which enters a null pointer for an unknown
  URL; and it becomes the track of the session before the transport is looked at.
\<close>

definition find_track :: "string \<Rightarrow> 'r rtsp_forward_session \<Rightarrow> rtsp_track option \<times> 'r rtsp_forward_session" where
  "find_track url s =
     (case rf_tracks s url of
        Some t \<Rightarrow> (t, s)
      | None \<Rightarrow> (None, s\<lparr>rf_tracks := (rf_tracks s)(url \<mapsto> None)\<rparr>))"

definition setup_accept :: "session_env \<Rightarrow> bool \<Rightarrow> rtsp_track \<Rightarrow> rtsp_transport \<Rightarrow> int \<Rightarrow> 'r session_step" where
  "setup_accept E video track transport seq s =
     (if tp_multicast transport \<noteq> 0
      then obind (rf_respond (make_461_response E seq) s) (\<lambda>s1. Inr (rf_shutdown s1))
      else if tp_transport transport = 0 then rf_respond (make_461_response E seq) s
      else
        (if \<not> rf_conn s then Inl Null_deref
         else let sid = (if rf_session_id s = [] then make_session_id else rf_session_id s)
              in rf_respond (setup_response E seq video (tk_ssrc track) sid) (s\<lparr>rf_session_id := sid\<rparr>)))"

definition rf_on_setup :: "session_env \<Rightarrow> string \<Rightarrow> string \<Rightarrow> rtsp_transport \<Rightarrow> int \<Rightarrow> 'r session_step" where
  "rf_on_setup E url session transport seq s =
     (case find_track url s of
        (None, s1) \<Rightarrow> Inr (rf_shutdown s1)
      | (Some track, s1) \<Rightarrow>
          if ends_with url kRtspVideoTrackId
          then setup_accept E True track transport seq (s1\<lparr>rf_video_track := Some track\<rparr>)
          else if ends_with url kRtspAudioTrackId
          then setup_accept E False track transport seq (s1\<lparr>rf_audio_track := Some track\<rparr>)
          else Inr (rf_shutdown s1))"

definition play_response :: "session_env \<Rightarrow> int \<Rightarrow> string \<Rightarrow> string" where
  "play_response E seq sid =
     ''RTSP/1.0 200 OK'' @ CRLF @ ''CSeq: '' @ show_int seq @ CRLF @ date_line E
     @ ''Range: npt=0.000-'' @ CRLF @ ''Session: '' @ sid @ CRLF @ CRLF"

definition rf_on_play :: "session_env \<Rightarrow> string \<Rightarrow> string \<Rightarrow> int \<Rightarrow> 'r session_step" where
  "rf_on_play E url session seq s =
     (if session \<noteq> rf_session_id s then Inr (rf_shutdown s)
      else case rf_lock E s of
             None \<Rightarrow> Inr (rf_shutdown s)
           | Some k \<Rightarrow> obind (rf_respond (play_response E seq (rf_session_id s)) s) (rf_ask k Join))"

definition teardown_response :: "session_env \<Rightarrow> int \<Rightarrow> string" where
  "teardown_response E seq = ''RTSP/1.0 200 OK'' @ CRLF @ ''CSeq: '' @ show_int seq @ CRLF @ date_line E @ CRLF"

definition rf_on_teardown :: "session_env \<Rightarrow> string \<Rightarrow> string \<Rightarrow> int \<Rightarrow> 'r session_step" where
  "rf_on_teardown E url session seq s =
     (case rf_lock E s of
        None \<Rightarrow> Inr (rf_shutdown s)
      | Some k \<Rightarrow> obind (rf_respond (teardown_response E seq) s) (\<lambda>s1.
          Inr ((rf_leave k s1)\<lparr>rf_sink := None\<rparr>)))"

subsection \<open>The connection\<close>

definition rf_handler :: "'r rtcp_lib \<Rightarrow> session_env \<Rightarrow> 'r rtsp_forward_session rtsp_server_context_handler" where
  "rf_handler L E =
     \<lparr>on_options = Some (rf_on_options E), on_describe = Some rf_on_describe,
      on_setup = Some (rf_on_setup E), on_play = Some (rf_on_play E),
      on_rtcp = Some (rf_on_rtcp L), on_teardown = Some (rf_on_teardown E)\<rparr>"

definition rf_on_read ::
  "'r rtcp_lib \<Rightarrow> session_env \<Rightarrow> frame_ptr \<Rightarrow> error_code option
   \<Rightarrow> rtsp_server_context \<times> 'r rtsp_forward_session \<Rightarrow> (rtsp_server_context \<times> 'r rtsp_forward_session) outcome" where
  "rf_on_read L E frame ec cs =
     (let (c, s) = cs
      in if ec \<noteq> None then Inr (c, rf_shutdown s)
         else obind (rtsp_server_input (rf_handler L E) frame (c, s)) (\<lambda>(ret, c1, s1).
                Inr (c1, if ret < 0 then rf_shutdown s1 else s1)))"

definition rf_on_write :: "error_code option \<Rightarrow> 'r rtsp_forward_session \<Rightarrow> 'r rtsp_forward_session" where
  "rf_on_write ec s = (if ec \<noteq> None then rf_shutdown s else s)"

definition rf_safe_shutdown :: "session_env \<Rightarrow> 'r rtsp_forward_session \<Rightarrow> 'r rtsp_forward_session" where
  "rf_safe_shutdown E s =
     (let s1 = (case rf_lock E s of None \<Rightarrow> s | Some k \<Rightarrow> rf_leave k s)
      in s1\<lparr>rf_channel := None, rf_conn := False\<rparr>)"

end
