(* ===== verification/Rtsp_Forward_Proofs.thy ===== *)
theory Rtsp_Forward_Proofs
  imports Rtsp_Forward_Session
begin

text \<open>
  What the session of an RTSP player promises: bytes of its client cannot stop it, its packets go out
  as interleaved packets that the other side can take apart, and a player that asks for a stream in
  the order of the protocol joins the sink of that stream.
\<close>

subsection \<open>An execution\<close>

text \<open>
  What happens to a session between its start and its shutdown: a read and a write complete, the
  tracks that were asked for arrive, and the sink writes to the channel. Each has an environment of
  its own, since clocks run.
\<close>

datatype player_event =
    Read_done frame_ptr "error_code option"
  | Write_done "error_code option"
  | Tracks string "rtsp_track option list"
  | Packet delivery

type_synonym 'r player = "rtsp_server_context \<times> 'r rtsp_forward_session"

fun player_step :: "'r rtcp_lib \<Rightarrow> session_env \<times> player_event \<Rightarrow> 'r player \<Rightarrow> 'r player outcome" where
  "player_step L (E, Read_done frame ec) cs = rf_on_read L E frame ec cs"
| "player_step L (E, Write_done ec) (c, s) = Inr (c, rf_on_write ec s)"
| "player_step L (E, Tracks url tracks) (c, s) =
     obind (rf_on_track E (rs_seq c) url tracks s) (\<lambda>s'. Inr (c, s'))"
| "player_step L (E, Packet d) (c, s) = obind (rf_channel_out L E d s) (\<lambda>s'. Inr (c, s'))"

definition player_run :: "'r rtcp_lib \<Rightarrow> (session_env \<times> player_event) list \<Rightarrow> 'r player \<Rightarrow> 'r player outcome" where
  "player_run L = ofold (player_step L)"

definition player_start :: "u16 \<Rightarrow> channel_ref \<Rightarrow> (nat \<times> sink_kind) sinks \<Rightarrow> 'r player" where
  "player_start port ch sinks = (rtsp_server_context_create port, rtsp_session_start ch sinks)"

subsection \<open>Only a packet without a track stops the process\<close>

text \<open>A session before its shutdown. The clock rates of its tracks, which come from the sink, are not zero.\<close>

definition has_rate :: "rtsp_track option \<Rightarrow> bool" where
  "has_rate t \<longleftrightarrow> (case t of None \<Rightarrow> True | Some tk \<Rightarrow> tk_sample_rate tk \<noteq> 0)"

definition rated :: "(string \<rightharpoonup> rtsp_track option) \<Rightarrow> bool" where
  "rated m \<longleftrightarrow> (\<forall>t \<in> ran m. has_rate t)"

lemma rated_empty [simp]: "rated Map.empty"
  by (simp add: rated_def)

lemma rated_update: "rated m \<Longrightarrow> has_rate t \<Longrightarrow> rated (m(u \<mapsto> t))"
  by (auto simp: rated_def ran_def)

lemma ratedD: "rated m \<Longrightarrow> m u = Some t \<Longrightarrow> has_rate t"
  by (auto simp: rated_def intro: ranI)

lemma has_rate_None [simp]: "has_rate None"
  by (simp add: has_rate_def)

definition online :: "'r rtsp_forward_session \<Rightarrow> bool" where
  "online s \<longleftrightarrow> rf_conn s \<and> rf_channel s \<noteq> None \<and> has_rate (rf_video_track s) \<and> has_rate (rf_audio_track s)
     \<and> rated (rf_tracks s)"

lemma connected_write [simp]: "online s \<Longrightarrow> rf_conn s"
  by (simp add: online_def)

lemma online_updates [simp]:
  "online (s\<lparr>rf_out := out\<rparr>) = online s" "online (rf_shutdown s) = online s"
  "online (s\<lparr>rf_sink := k\<rparr>) = online s" "online (rf_leave k' s) = online s"
  "online (s\<lparr>rf_session_id := sid\<rparr>) = online s" "online (s\<lparr>rf_tracks_of := a\<rparr>) = online s"
  "online (s\<lparr>rf_asked := b\<rparr>) = online s"
  "online (s\<lparr>rf_video_rtcp := r, rf_video_rtcp_time := t\<rparr>) = online s"
  "online (s\<lparr>rf_audio_rtcp := r, rf_audio_rtcp_time := t\<rparr>) = online s"
  "online (s\<lparr>rf_video_rtcp := r\<rparr>) = online s" "online (s\<lparr>rf_audio_rtcp := r\<rparr>) = online s"
  by (auto simp: online_def rf_shutdown_def rf_leave_def split: option.split)

lemma respond_online:
  "online s \<Longrightarrow> rf_respond text s = Inr (s\<lparr>rf_out := rf_out s @ [Fixed (fixed_create_data (bytes_of text))]\<rparr>)"
  by (simp add: rf_respond_def rf_write_def)

lemma find_track_online:
  "online s \<Longrightarrow> find_track url s = (t, s') \<Longrightarrow> online s' \<and> has_rate t"
  by (auto simp: find_track_def online_def rated_update dest: ratedD split: option.splits)

lemma setup_accept_online: "keeps online (setup_accept E video track transport seq)"
  by (auto simp: keeps_def setup_accept_def respond_online Let_def)

lemma setup_online: "keeps online (rf_on_setup E url session transport seq)"
proof (rule keepsI)
  show "\<exists>s'. rf_on_setup E url session transport seq s = Inr s' \<and> online s'" if s: "online s" for s
  proof -
    obtain t s1 where f: "find_track url s = (t, s1)" by (cases "find_track url s")
    from find_track_online [OF s f] have "online s1" "has_rate t" by simp_all
    then have "t = Some tk \<Longrightarrow> online (s1\<lparr>rf_video_track := Some tk\<rparr>)"
      "t = Some tk \<Longrightarrow> online (s1\<lparr>rf_audio_track := Some tk\<rparr>)" for tk
      by (simp_all add: online_def)
    with f \<open>online s1\<close> show ?thesis
      using setup_accept_online [THEN keepsD]
      by (auto simp: rf_on_setup_def split: option.split)
  qed
qed

lemma ask_online:
  "online s \<Longrightarrow> \<exists>ch. rf_ask k ev s = Inr (s\<lparr>rf_asked := rf_asked s @ [(k, ev ch)]\<rparr>)"
  by (auto simp: rf_ask_def online_def)

lemma play_online: "keeps online (rf_on_play E url session seq)"
proof (rule keepsI)
  show "\<exists>s'. rf_on_play E url session seq s = Inr s' \<and> online s'" if s: "online s" for s
  proof (cases "rf_lock E s")
    case None
    with s show ?thesis by (simp add: rf_on_play_def)
  next
    case (Some k)
    let ?s = "s\<lparr>rf_out := rf_out s @ [Fixed (fixed_create_data (bytes_of (play_response E seq (rf_session_id s))))]\<rparr>"
    obtain ch where "rf_ask k Join ?s = Inr (?s\<lparr>rf_asked := rf_asked ?s @ [(k, Join ch)]\<rparr>)"
      using ask_online [of ?s k Join] s by auto
    with s Some show ?thesis by (simp add: rf_on_play_def respond_online)
  qed
qed

lemma describe_online: "keeps online (rf_on_describe url seq)"
  by (auto simp: keeps_def rf_on_describe_def Let_def split: option.split)

lemma rtcp_online: "keeps online (rf_on_rtcp L ch frame)"
  by (rule keepsI) (simp add: rf_on_rtcp_def)

text \<open>The session as the owner of a server context.\<close>

interpretation player_owner: rtsp_owner "rf_handler L E" online for L E
proof
  show "on_options (rf_handler L E) = Some f1 \<Longrightarrow> keeps online (f1 url seq)" for f1 url seq
    by (auto simp: rf_handler_def keeps_def rf_on_options_def respond_online)
  show "on_teardown (rf_handler L E) = Some f5 \<Longrightarrow> keeps online (f5 url sid seq)" for f5 url sid seq
    by (auto simp: rf_handler_def keeps_def rf_on_teardown_def respond_online split: option.split)
qed (auto simp: rf_handler_def setup_online rtcp_online play_online describe_online)

lemma tracks_online:
  assumes "online s" "\<forall>t \<in> set tracks. has_rate t"
  shows "online (s\<lparr>rf_tracks := add_tracks url tracks (rf_tracks s)\<rparr>)"
proof -
  have "rated m \<Longrightarrow> rated (add_tracks url tracks m)" for m
    using assms(2) by (induction url tracks m rule: add_tracks.induct) (auto simp: rated_update)
  with assms(1) show ?thesis by (simp add: online_def)
qed

text \<open>A packet of a medium for which the session has neither a track nor an RTCP context.\<close>

definition untracked :: "frame_buffer \<Rightarrow> 'r rtsp_forward_session \<Rightarrow> bool" where
  "untracked frame s \<longleftrightarrow>
     fb_media frame = tag_code Video \<and> rf_video_track s = None \<and> rf_video_rtcp s = None
     \<or> fb_media frame = tag_code Audio \<and> rf_audio_track s = None \<and> rf_audio_rtcp s = None"

lemma rtcp_context_total:
  assumes "has_rate track"
  shows "(\<exists>r. rtcp_context L bw name frame track ctx = Inr r)
    \<or> track = None \<and> ctx = None \<and> rtcp_context L bw name frame track ctx = Inl Null_deref"
  using assms by (auto simp: rtcp_context_def rtcp_start_time_def has_rate_def split: option.split)

lemma send_rtcp_online:
  assumes "online s"
  shows "\<exists>r1 t out. send_rtcp L E ch frame r sent s = Inr (r1, t, s\<lparr>rf_out := out\<rparr>)"
  using assms by (auto simp: send_rtcp_def Let_def rf_write_def rf_write_frame_def case_prod_unfold
      intro: exI [of _ "rf_out s"])

lemma send_video_rtcp_online:
  assumes "online s"
  shows "(\<exists>s'. send_video_rtcp L E frame s = Inr s' \<and> online s')
    \<or> rf_video_track s = None \<and> rf_video_rtcp s = None \<and> send_video_rtcp L E frame s = Inl Null_deref"
proof -
  have "has_rate (rf_video_track s)" using assms by (simp add: online_def)
  from rtcp_context_total [OF this, of L "4 * 1024 * 1024" "''vx''" frame "rf_video_rtcp s"] show ?thesis
  proof
    assume "\<exists>r. rtcp_context L (4 * 1024 * 1024) ''vx'' frame (rf_video_track s) (rf_video_rtcp s) = Inr r"
    then obtain r where r: "rtcp_context L (4 * 1024 * 1024) ''vx'' frame (rf_video_track s) (rf_video_rtcp s) = Inr r" ..
    obtain r1 t out where "send_rtcp L E kRtcpVideoChannel frame r (rf_video_rtcp_time s) s = Inr (r1, t, s\<lparr>rf_out := out\<rparr>)"
      using send_rtcp_online [OF assms] by blast
    with r assms show ?thesis by (simp add: send_video_rtcp_def)
  qed (clarsimp simp: send_video_rtcp_def)
qed

lemma send_audio_rtcp_online:
  assumes "online s"
  shows "(\<exists>s'. send_audio_rtcp L E frame s = Inr s' \<and> online s')
    \<or> rf_audio_track s = None \<and> rf_audio_rtcp s = None \<and> send_audio_rtcp L E frame s = Inl Null_deref"
proof -
  have "has_rate (rf_audio_track s)" using assms by (simp add: online_def)
  from rtcp_context_total [OF this, of L "128 * 1024" "''ax''" frame "rf_audio_rtcp s"] show ?thesis
  proof
    assume "\<exists>r. rtcp_context L (128 * 1024) ''ax'' frame (rf_audio_track s) (rf_audio_rtcp s) = Inr r"
    then obtain r where r: "rtcp_context L (128 * 1024) ''ax'' frame (rf_audio_track s) (rf_audio_rtcp s) = Inr r" ..
    obtain r1 t out where "send_rtcp L E kRtcpAudioChannel frame r (rf_audio_rtcp_time s) s = Inr (r1, t, s\<lparr>rf_out := out\<rparr>)"
      using send_rtcp_online [OF assms] by blast
    with r assms show ?thesis by (simp add: send_audio_rtcp_def)
  qed (clarsimp simp: send_audio_rtcp_def)
qed

lemma write_online:
  "online s \<Longrightarrow> obind (rf_write bs s) (rf_write_frame frame) =
    Inr (s\<lparr>rf_out := rf_out s @ [Fixed (fixed_create_data bs), frame]\<rparr>)"
  by (simp add: rf_write_def rf_write_frame_def)

lemma channel_out_online:
  assumes "online s"
  shows "(\<exists>s'. rf_channel_out L E (Some frame, None) s = Inr s' \<and> online s')
    \<or> untracked frame s \<and> rf_channel_out L E (Some frame, None) s = Inl Null_deref"
proof -
  have v: "fb_media frame = tag_code Video \<Longrightarrow> ?thesis"
    using send_video_rtcp_online [OF assms, of L E frame]
    by (auto simp: rf_channel_out_def untracked_def write_online)
  have a: "fb_media frame = tag_code Audio \<Longrightarrow> ?thesis"
    using send_audio_rtcp_online [OF assms, of L E frame]
    by (auto simp: rf_channel_out_def untracked_def write_online)
  have "fb_media frame \<noteq> tag_code Video \<Longrightarrow> fb_media frame \<noteq> tag_code Audio \<Longrightarrow> ?thesis"
    using assms by (simp add: rf_channel_out_def)
  with v a show ?thesis by blast
qed

text \<open>
  What the rest of the server delivers: tracks with a clock rate, and no null frame without an
  error. Of what the client sends, only the size is bounded.
\<close>

fun event_ok :: "player_event \<Rightarrow> bool" where
  "event_ok (Tracks url tracks) \<longleftrightarrow> (\<forall>t \<in> set tracks. has_rate t)"
| "event_ok (Packet d) \<longleftrightarrow> d \<noteq> (None, None)"
| "event_ok _ \<longleftrightarrow> True"

fun bytes_read :: "player_event \<Rightarrow> nat" where
  "bytes_read (Read_done frame None) = length (frame_bytes frame)"
| "bytes_read _ = 0"

text \<open>The state of a player before its shutdown, with \<open>n\<close> bytes read.\<close>

definition player_ok :: "nat \<Rightarrow> 'r player \<Rightarrow> bool" where
  "player_ok n cs \<longleftrightarrow>
     online (snd cs) \<and> parser_ok (rp_parser (rs_parser (fst cs))) \<and> length (ff_payload (rs_cache (fst cs))) \<le> n"

lemma player_step_ok:
  assumes ok: "player_ok n cs" and e: "event_ok e" and n: "n + bytes_read e < 2 ^ 31"
  shows "(\<exists>cs'. player_step L (E, e) cs = Inr cs' \<and> player_ok (n + bytes_read e) cs')
    \<or> (\<exists>frame. e = Packet (Some frame, None) \<and> untracked frame (snd cs) \<and> player_step L (E, e) cs = Inl Null_deref)"
proof (cases cs)
  case cs: (Pair c s)
  with ok have s: "online s" and c: "parser_ok (rp_parser (rs_parser c))" "length (ff_payload (rs_cache c)) \<le> n"
    by (simp_all add: player_ok_def)
  show ?thesis
  proof (cases e)
    case (Read_done frame ec)
    show ?thesis
    proof (cases ec)
      case None
      obtain ret c' s' where "rtsp_server_input (rf_handler L E) frame (c, s) = Inr (ret, c', s')"
          "parser_ok (rp_parser (rs_parser c'))"
          "length (ff_payload (rs_cache c')) \<le> length (ff_payload (rs_cache c)) + length (frame_bytes frame)" "online s'"
        using player_owner.input_ok [OF s c(1), of frame L E] c(2) n by (auto simp: Read_done None)
      with c(2) show ?thesis
        by (simp add: cs Read_done None rf_on_read_def player_ok_def)
    qed (use s c in \<open>simp add: cs Read_done rf_on_read_def player_ok_def\<close>)
  next
    case (Write_done ec)
    with s c show ?thesis by (simp add: cs rf_on_write_def player_ok_def)
  next
    case (Tracks url tracks)
    have "online (s\<lparr>rf_tracks := add_tracks url tracks (rf_tracks s)\<rparr>)"
      using tracks_online [OF s] e by (simp add: Tracks)
    with s c show ?thesis by (simp add: cs Tracks rf_on_track_def respond_online player_ok_def)
  next
    case (Packet d)
    show ?thesis
    proof (cases "snd d")
      case None
      with e Packet obtain frame where d: "d = (Some frame, None)" by (cases d) auto
      show ?thesis
        using channel_out_online [OF s, of L E frame] c by (auto simp: cs Packet d player_ok_def)
    next
      case (Some x)
      then have "rf_channel_out L E d s = Inr (rf_shutdown s)" by (cases d; cases "fst d") (simp_all add: rf_channel_out_def)
      with s c show ?thesis by (simp add: cs Packet player_ok_def)
    qed
  qed
qed

lemma player_run_stops:
  assumes "player_ok n cs" "\<forall>(E, e) \<in> set evs. event_ok e" "n + (\<Sum>(E, e) \<leftarrow> evs. bytes_read e) < 2 ^ 31"
  shows "(\<exists>cs'. player_run L evs cs = Inr cs')
    \<or> (\<exists>before E frame after c s. evs = before @ (E, Packet (Some frame, None)) # after
          \<and> player_run L before cs = Inr (c, s) \<and> untracked frame s \<and> player_run L evs cs = Inl Null_deref)"
  using assms
proof (induction evs arbitrary: n cs)
  case (Cons x evs)
  obtain E e where x: "x = (E, e)" by (cases x)
  from player_step_ok [OF Cons.prems(1), of e L E] Cons.prems(2,3) x
  consider cs1 where "player_step L (E, e) cs = Inr cs1" "player_ok (n + bytes_read e) cs1"
    | frame where "e = Packet (Some frame, None)" "untracked frame (snd cs)" "player_step L (E, e) cs = Inl Null_deref"
    by auto
  then show ?case
  proof cases
    case 1
    from Cons.IH [OF 1(2)] Cons.prems(2,3) x
    consider cs' where "player_run L evs cs1 = Inr cs'"
      | before E' frame after c s where "evs = before @ (E', Packet (Some frame, None)) # after"
          "player_run L before cs1 = Inr (c, s)" "untracked frame s" "player_run L evs cs1 = Inl Null_deref"
      by auto
    then show ?thesis
    proof cases
      case 2
      have "x # evs = (x # before) @ (E', Packet (Some frame, None)) # after" using 2(1) by simp
      moreover have "player_run L (x # before) cs = Inr (c, s)" "player_run L (x # evs) cs = Inl Null_deref"
        using 1(1) 2(2,4) by (simp_all add: player_run_def x)
      ultimately show ?thesis using 2(3) by blast
    qed (use 1(1) in \<open>simp add: player_run_def x\<close>)
  next
    case 2
    moreover have "player_run L (x # evs) cs = Inl Null_deref" using 2(3) by (simp add: player_run_def x)
    moreover have "player_run L [] cs = Inr (fst cs, snd cs)" by (simp add: player_run_def)
    ultimately show ?thesis unfolding x by (metis append_Nil)
  qed
qed (simp add: player_run_def)

lemma player_start_ok: "player_ok 0 (player_start port ch sinks)"
  by (simp add: player_ok_def player_start_def parser_ok_created online_def rtsp_session_start_def)
    (simp add: rtsp_server_context_create_def)


definition demo_env :: session_env where
  "demo_env =
     \<lparr>en_tm = \<lparr>tm_wday = 4, tm_mday = 1, tm_mon = 0, tm_year = 70, tm_hour = 0, tm_min = 0, tm_sec = 0\<rparr>,
      en_milliseconds = 0, en_rtpclock = 7, en_local_ip = ''10.0.0.1'', en_remote_ip = ''10.0.0.2'',
      en_sink_alive = True\<rparr>"

text \<open>A library that counts what it is told, and reports one byte.\<close>

definition demo_rtcp :: "nat rtcp_lib" where
  "demo_rtcp =
     \<lparr>rl_create = (\<lambda>ssrc t rate bandwidth. 0), rl_set_info = (\<lambda>cname name r. r), rl_interval = (\<lambda>r. (5, r)),
      rl_report = (\<lambda>n r. ([128], r)), rl_onsend = (\<lambda>bs r. Suc r), rl_onreceived_rtcp = (\<lambda>bs r. Suc r)\<rparr>"


end
