(* ===== verification/Rtsp_Player_Life.thy ===== *)
theory Rtsp_Player_Life
  imports Rtsp_Forward_Proofs
begin

text \<open>
  The life of an RTSP player, from the bytes of its requests to the sink it joins and the packets it
  gets: the requests are those of \<^theory_text>\<open>Rtsp_Server_Proofs\<close>, the execution that of
  \<^theory_text>\<open>Rtsp_Forward_Proofs\<close>.
\<close>

subsection \<open>A request, as the session sees it\<close>

lemma reads_payload_player: "reads_payload (rf_handler L E)"
  by (auto simp: reads_payload_def rf_handler_def rf_on_rtcp_def)

definition read_request :: "session_env \<Rightarrow> rtsp_message \<Rightarrow> session_env \<times> player_event" where
  "read_request E msg = (E, Read_done (packed [msg]) None)"

lemma player_reads:
  assumes "wf_message msg" "idle c" "serve_message (rf_handler L E) msg (rs_seq c, s) = Inr (seq', s')"
  shows "\<exists>c'. player_step L (read_request E msg) (c, s) = Inr (c', s') \<and> idle c' \<and> rs_seq c' = seq'"
  using serve_one [OF assms(1) reads_payload_player assms(2,3)]
  by (auto simp: read_request_def rf_on_read_def)

lemma created_idle: "idle (rtsp_server_context_create port)"
  by (simp add: idle_def rtsp_server_context_create_def rtsp_parser_create_def)

lemma player_run_Cons:
  "player_step L x cs = Inr cs' \<Longrightarrow> player_run L (x # evs) cs = player_run L evs cs'"
  by (simp add: player_run_def)

lemma player_run_Nil [simp]: "player_run L [] cs = Inr cs"
  by (simp add: player_run_def)

text \<open>The sequence number of a request, and the answer frames.\<close>

definition seq_of :: "header_list \<Rightarrow> int" where
  "seq_of hs = atoi (header_of hs ''CSeq'')"

definition answer :: "string \<Rightarrow> frame_buffer" where
  "answer text = Fixed (fixed_create_data (bytes_of text))"

lemma respond_answer:
  "rf_conn s \<Longrightarrow> rf_respond text s = Inr (s\<lparr>rf_out := rf_out s @ [answer text]\<rparr>)"
  by (simp add: rf_respond_def rf_write_def answer_def)

subsection \<open>From the URL to the sink\<close>

lemma stream_url_parts:
  assumes "CHR ''/'' \<notin> set app" "CHR ''/'' \<notin> set stream" "2 \<le> count_list base (CHR ''/'')"
  defines "ws \<equiv> split_char (CHR ''/'') (base @ ''/'' @ app @ ''/'' @ stream)"
  shows "5 \<le> length ws" "ws ! (length ws - 2) = app" "ws ! (length ws - 1) = stream"
proof -
  let ?bs = "split_char (CHR ''/'') base"
  have "split_char d (xs @ d # ys) = split_char d xs @ split_char d ys" for d xs ys
    by (induction d xs rule: split_char.induct) (auto split: list.split)
  then have ws: "ws = ?bs @ [app, stream]"
    using assms(1,2) unfolding ws_def by (simp add: split_char_token)
  have "3 \<le> length ?bs" using assms(3) by (simp add: length_split_char)
  with ws show "5 \<le> length ws" "ws ! (length ws - 2) = app" "ws ! (length ws - 1) = stream"
    by (simp_all add: nth_append)
qed

lemma describe_found:
  assumes "CHR ''/'' \<notin> set app" "CHR ''/'' \<notin> set stream" "2 \<le> count_list base (CHR ''/'')"
    and "sink_get (rf_sinks s) (''rtsp_'' @ app @ ''_'' @ stream) = Some (n, Rtsp_kind)"
  shows "rf_on_describe (base @ ''/'' @ app @ ''/'' @ stream) seq s =
    Inr (s\<lparr>rf_tracks_of := rf_tracks_of s @ [((n, Rtsp_kind), base @ ''/'' @ app @ ''/'' @ stream)],
           rf_sink := Some (n, Rtsp_kind)\<rparr>)"
  using stream_url_parts [OF assms(1-3)] assms(4) unfolding rf_on_describe_def Let_def by simp

lemma add_tracks_other:
  "\<forall>tk'. Some tk' \<in> set tracks \<longrightarrow> track_url url tk' \<noteq> u \<Longrightarrow> add_tracks url tracks m u = m u"
  by (induction url tracks m rule: add_tracks.induct) auto

lemma add_tracks_found:
  assumes "Some tk \<in> set tracks" "\<forall>tk'. Some tk' \<in> set tracks \<and> tk_id tk' = tk_id tk \<longrightarrow> tk' = tk"
  shows "add_tracks url tracks m (track_url url tk) = Some (Some tk)"
  using assms
proof (induction url tracks m rule: add_tracks.induct)
  case (3 url tk1 ts m)
  show ?case
  proof (cases "Some tk \<in> set ts")
    case True
    with 3 show ?thesis by (auto simp del: fun_upd_apply)
  next
    case False
    with 3 have "tk1 = tk" by auto
    moreover have "\<forall>tk'. Some tk' \<in> set ts \<longrightarrow> track_url url tk' \<noteq> track_url url tk"
      using False 3(3) by (auto simp: track_url_def)
    ultimately show ?thesis by (simp add: add_tracks_other)
  qed
qed auto

lemma setup_video_accepted:
  assumes "rf_conn s" "rf_tracks s url = Some (Some tk)" "ends_with url kRtspVideoTrackId"
    and "tp_multicast transport = 0" "tp_transport transport \<noteq> 0" "rf_session_id s = []"
  shows "rf_on_setup E url sid transport seq s =
    Inr (s\<lparr>rf_video_track := Some tk, rf_session_id := make_session_id,
           rf_out := rf_out s @ [answer (setup_response E seq True (tk_ssrc tk) make_session_id)]\<rparr>)"
  using assms by (simp add: rf_on_setup_def find_track_def setup_accept_def respond_answer Let_def)

lemma play_joins:
  assumes "rf_conn s" "rf_sink s = Some k" "en_sink_alive E" "rf_channel s = Some ch"
  shows "rf_on_play E url (rf_session_id s) seq s =
    Inr (s\<lparr>rf_out := rf_out s @ [answer (play_response E seq (rf_session_id s))],
           rf_asked := rf_asked s @ [(k, Join ch)]\<rparr>)"
  using assms by (simp add: rf_on_play_def rf_lock_def respond_answer rf_ask_def)

text \<open>
  The state of a session after \<^verbatim>\<open>DESCRIBE\<close> and the arrival of the tracks.
\<close>

definition described ::
  "session_env \<Rightarrow> int \<Rightarrow> string \<Rightarrow> nat \<Rightarrow> rtsp_track option list \<Rightarrow> channel_ref
   \<Rightarrow> (nat \<times> sink_kind) sinks \<Rightarrow> 'r rtsp_forward_session" where
  "described E seq url n tracks ch sinks =
     (rtsp_session_start ch sinks)
       \<lparr>rf_tracks_of := [((n, Rtsp_kind), url)], rf_sink := Some (n, Rtsp_kind),
        rf_tracks := add_tracks url tracks Map.empty,
        rf_out := [answer (describe_response E url seq (describe_sdp E url tracks))]\<rparr>"

lemma player_described:
  fixes L :: "'r rtcp_lib"
  assumes wf: "wf_message (Request HTTP_DESCRIBE u hs)" and u: "text_of u = base @ ''/'' @ app @ ''/'' @ stream"
    and url: "CHR ''/'' \<notin> set app" "CHR ''/'' \<notin> set stream" "2 \<le> count_list base (CHR ''/'')"
    and sink: "sink_get sinks (''rtsp_'' @ app @ ''_'' @ stream) = Some (n, Rtsp_kind)"
  shows "\<exists>c. player_run L ([read_request E1 (Request HTTP_DESCRIBE u hs), (E2, Tracks (text_of u) tracks)] @ evs)
      (player_start port ch sinks)
    = player_run L evs (c, described E2 (seq_of hs) (text_of u) n tracks ch sinks)
    \<and> idle c \<and> rs_seq c = seq_of hs"
proof -
  let ?s = "rtsp_session_start ch sinks :: 'r rtsp_forward_session" and ?c = "rtsp_server_context_create port"
  let ?s1 = "?s\<lparr>rf_tracks_of := [((n, Rtsp_kind), text_of u)], rf_sink := Some (n, Rtsp_kind)\<rparr>"
  have s: "sink_get (rf_sinks ?s) (''rtsp_'' @ app @ ''_'' @ stream) = Some (n, Rtsp_kind)"
    "rf_tracks_of ?s = []" using sink by (simp_all add: rtsp_session_start_def)
  have "rf_on_describe (text_of u) (seq_of hs) ?s = Inr ?s1"
    using describe_found [OF url s(1), of "seq_of hs"] unfolding u s(2) append_Nil .
  then have "serve_message (rf_handler L E1) (Request HTTP_DESCRIBE u hs) (rs_seq ?c, ?s) = Inr (seq_of hs, ?s1)"
    by (simp add: rf_handler_def seq_of_def Let_def)
  from player_reads [OF wf created_idle this]
  obtain c where c: "player_step L (read_request E1 (Request HTTP_DESCRIBE u hs)) (?c, ?s) = Inr (c, ?s1)"
    "idle c" "rs_seq c = seq_of hs" by blast
  have "rf_on_track E2 (seq_of hs) (text_of u) tracks ?s1 =
      Inr (described E2 (seq_of hs) (text_of u) n tracks ch sinks)"
    by (simp add: rf_on_track_def respond_answer described_def rtsp_session_start_def)
  with c(3) have "player_step L (E2, Tracks (text_of u) tracks) (c, ?s1) =
      Inr (c, described E2 (seq_of hs) (text_of u) n tracks ch sinks)" by simp
  with c show ?thesis by (auto simp: player_start_def player_run_Cons)
qed

text \<open>
  C36. A player that follows the protocol gets its stream. On the bytes of \<^verbatim>\<open>DESCRIBE\<close> for the URL
  of a stream that is published, of \<^verbatim>\<open>SETUP\<close> for its video track over TCP, and of \<^verbatim>\<open>PLAY\<close> with the
  session id it was given, the session answers each with 200 and the sequence number of the request,
  asks the sink of exactly this stream to add its channel, once, and is not shut down; whatever the
  other headers, the other tracks and the clocks are.
\<close>

theorem player_joins_stream:
  fixes L :: "'r rtcp_lib"
  assumes "wf_message (Request HTTP_DESCRIBE u hs1)" "wf_message (Request HTTP_SETUP v hs2)"
    and "wf_message (Request HTTP_PLAY w hs3)"
    and "text_of u = base @ ''/'' @ app @ ''/'' @ stream" "text_of v = track_url (text_of u) tk"
    and "CHR ''/'' \<notin> set app" "CHR ''/'' \<notin> set stream" "2 \<le> count_list base (CHR ''/'')"
    and "sink_get sinks (''rtsp_'' @ app @ ''_'' @ stream) = Some (n, Rtsp_kind)"
    and "Some tk \<in> set tracks" "\<forall>tk'. Some tk' \<in> set tracks \<and> tk_id tk' = tk_id tk \<longrightarrow> tk' = tk"
    and "tk_id tk = kRtspVideoTrackId"
    and "tp_multicast (parse_transport (header_of hs2 ''Transport'')) = 0"
    and "tp_transport (parse_transport (header_of hs2 ''Transport'')) \<noteq> 0"
    and "header_of hs3 ''Session'' = make_session_id" "en_sink_alive E4"
  shows "\<exists>c s. player_run L [read_request E1 (Request HTTP_DESCRIBE u hs1), (E2, Tracks (text_of u) tracks),
        read_request E3 (Request HTTP_SETUP v hs2), read_request E4 (Request HTTP_PLAY w hs3)]
      (player_start port ch sinks) = Inr (c, s)
    \<and> rf_out s = [answer (describe_response E2 (text_of u) (seq_of hs1) (describe_sdp E2 (text_of u) tracks)),
          answer (setup_response E3 (seq_of hs2) True (tk_ssrc tk) make_session_id),
          answer (play_response E4 (seq_of hs3) make_session_id)]
    \<and> rf_asked s = [((n, Rtsp_kind), Join ch)] \<and> rf_shutdowns s = 0 \<and> rf_video_track s = Some tk"
proof -
  let ?d = "described E2 (seq_of hs1) (text_of u) n tracks ch sinks :: 'r rtsp_forward_session"
  have d: "rf_conn ?d" "rf_tracks ?d (text_of v) = Some (Some tk)" "rf_session_id ?d = []"
    using add_tracks_found [OF assms(10,11)] by (simp_all add: described_def rtsp_session_start_def assms(5))
  have v: "ends_with (text_of v) kRtspVideoTrackId"
    using assms(5,12) by (simp add: track_url_def ends_with_iff)
  let ?s = "?d\<lparr>rf_video_track := Some tk, rf_session_id := make_session_id,
    rf_out := rf_out ?d @ [answer (setup_response E3 (seq_of hs2) True (tk_ssrc tk) make_session_id)]\<rparr>"
  let ?p = "?s\<lparr>rf_out := rf_out ?s @ [answer (play_response E4 (seq_of hs3) make_session_id)],
    rf_asked := rf_asked ?s @ [((n, Rtsp_kind), Join ch)]\<rparr>"
  obtain c where c: "player_run L [read_request E1 (Request HTTP_DESCRIBE u hs1), (E2, Tracks (text_of u) tracks),
        read_request E3 (Request HTTP_SETUP v hs2), read_request E4 (Request HTTP_PLAY w hs3)]
      (player_start port ch sinks) =
      player_run L [read_request E3 (Request HTTP_SETUP v hs2), read_request E4 (Request HTTP_PLAY w hs3)] (c, ?d)"
    "idle c"
    using player_described [OF assms(1,4,6-9), of L E1 E2 tracks _ port ch] by fastforce
  have "serve_message (rf_handler L E3) (Request HTTP_SETUP v hs2) (rs_seq c, ?d) = Inr (seq_of hs2, ?s)"
    using setup_video_accepted [OF d(1,2) v assms(13,14) d(3)] by (simp add: rf_handler_def seq_of_def Let_def)
  from player_reads [OF assms(2) c(2) this]
  obtain c2 where c2: "player_step L (read_request E3 (Request HTTP_SETUP v hs2)) (c, ?d) = Inr (c2, ?s)" "idle c2" by blast
  have "rf_on_play E4 (text_of w) make_session_id (seq_of hs3) ?s = Inr ?p"
    using play_joins [of ?s "(n, Rtsp_kind)" E4 ch "text_of w" "seq_of hs3"] d(1) assms(16)
    by (simp add: described_def rtsp_session_start_def)
  then have "serve_message (rf_handler L E4) (Request HTTP_PLAY w hs3) (rs_seq c2, ?s) = Inr (seq_of hs3, ?p)"
    by (simp add: rf_handler_def seq_of_def assms(15) Let_def)
  from player_reads [OF assms(3) c2(2) this]
  obtain c3 where "player_step L (read_request E4 (Request HTTP_PLAY w hs3)) (c2, ?s) = Inr (c3, ?p)" by blast
  with c(1) c2(1) have "player_run L [read_request E1 (Request HTTP_DESCRIBE u hs1), (E2, Tracks (text_of u) tracks),
        read_request E3 (Request HTTP_SETUP v hs2), read_request E4 (Request HTTP_PLAY w hs3)]
      (player_start port ch sinks) = Inr (c3, ?p)"
    by (simp add: player_run_Cons)
  then show ?thesis by (intro exI conjI) (assumption | simp add: described_def rtsp_session_start_def)+
qed

text \<open>Three requests of a player.\<close>

definition demo_track :: rtsp_track where
  "demo_track = \<lparr>tk_id = kRtspVideoTrackId, tk_sdp = ''m=video'', tk_ssrc = 3, tk_sample_rate = 90000\<rparr>"

definition track1_url :: bytes where
  "track1_url = bytes_of ''rtsp://h:554/live/a/track1''"

definition setup_headers :: header_list where
  "setup_headers = [(bytes_of ''CSeq'', bytes_of ''8''), (bytes_of ''Transport'', bytes_of ''RTP/AVP/TCP;unicast'')]"

definition play_headers :: header_list where
  "play_headers = [(bytes_of ''CSeq'', bytes_of ''9''), (bytes_of ''Session'', bytes_of ''16719820'')]"

lemmas header_defs = wf_header_def special_names_def bytes_of_def byte_of_char_def token_def
  nth_tokens token_entry_def is_header_char_def is_line_end_def

lemma sample_url_wf: "url_accepted sample_url" "\<forall>h \<in> set sample_headers. wf_header h"
  using sample_wf by (simp_all add: wf_request_def)

lemma track1_url_wf: "url_accepted track1_url"
  by (simp add: track1_url_def url_accepted_def bytes_of_def byte_of_char_def parse_url_char_def
      parse_server_char_def is_url_char_iff is_alpha_def lower_def is_userinfo_char_def is_alphanum_def
      is_num_char_def)

lemma setup_headers_wf: "\<forall>h \<in> set setup_headers. wf_header h"
  by (simp add: setup_headers_def header_defs)

lemma play_headers_wf: "\<forall>h \<in> set play_headers. wf_header h"
  by (simp add: play_headers_def header_defs)

lemma demo_requests_wf:
  "wf_message (Request HTTP_DESCRIBE sample_url sample_headers)"
  "wf_message (Request HTTP_SETUP track1_url setup_headers)"
  "wf_message (Request HTTP_PLAY sample_url play_headers)"
  using sample_url_wf track1_url_wf setup_headers_wf play_headers_wf
  by (simp_all add: wf_request_def HTTP_MAX_HEADER_SIZE_def request_bytes_def version_line_bytes
      header_line_def sample_url_def track1_url_def sample_headers_def setup_headers_def play_headers_def)

lemma demo_digits:
  "digit_char 0 = CHR ''0''" "digit_char 1 = CHR ''1''" "digit_char 2 = CHR ''2''" "digit_char 6 = CHR ''6''"
  "digit_char 7 = CHR ''7''" "digit_char 8 = CHR ''8''" "digit_char 9 = CHR ''9''"
  by code_simp+

lemma session_id_text: "make_session_id = ''16719820''"
  by (simp add: make_session_id_def show_nat.simps demo_digits [simplified])

theorem player_joins_stream_witness:
  "\<exists>c s. player_run demo_rtcp
      [read_request demo_env (Request HTTP_DESCRIBE sample_url sample_headers),
       (demo_env, Tracks (text_of sample_url) [None, Some demo_track]),
       read_request demo_env (Request HTTP_SETUP track1_url setup_headers),
       read_request demo_env (Request HTTP_PLAY sample_url play_headers)]
      (player_start 0 4 [''rtsp_live_a'' \<mapsto> (2, Rtsp_kind)]) = Inr (c, s)
    \<and> rf_asked s = [((2, Rtsp_kind), Join 4)] \<and> rf_shutdowns s = 0"
proof -
  have t: "parse_transport (header_of setup_headers ''Transport'') = rtsp_transport_init\<lparr>tp_transport := 1\<rparr>"
    by (simp add: header_of_def header_texts_def setup_headers_def parse_transport_def
        parse_transport_token_def starts_with_def)
  have sid: "header_of play_headers ''Session'' = make_session_id"
    by (simp add: header_of_def header_texts_def play_headers_def session_id_text)
  show ?thesis
    using player_joins_stream [OF demo_requests_wf, of "''rtsp://h:554''" "''live''" "''a''" demo_track
        "[''rtsp_live_a'' \<mapsto> (2, Rtsp_kind)]" 2 "[None, Some demo_track]" demo_env demo_rtcp demo_env demo_env demo_env 0 4] t sid
    by (fastforce simp: sample_url_def track1_url_def track_url_def demo_track_def kRtspVideoTrackId_def
        sink_get_def demo_env_def rtsp_transport_init_def)
qed

subsection \<open>A player that skips a step\<close>

text \<open>
  C37. The session does not insist on \<^verbatim>\<open>SETUP\<close>. After \<^verbatim>\<open>DESCRIBE\<close>, a \<^verbatim>\<open>PLAY\<close> without a session
  header is answered with 200 and the sink is asked to add the channel, because the session id is
  still empty; the first video or audio packet that the sink then writes follows a null pointer and
  ends the process, for all its sessions.
\<close>

theorem play_without_setup_stops:
  fixes L :: "'r rtcp_lib"
  assumes "wf_message (Request HTTP_DESCRIBE u hs1)" "wf_message (Request HTTP_PLAY w hs3)"
    and "text_of u = base @ ''/'' @ app @ ''/'' @ stream"
    and "CHR ''/'' \<notin> set app" "CHR ''/'' \<notin> set stream" "2 \<le> count_list base (CHR ''/'')"
    and "sink_get sinks (''rtsp_'' @ app @ ''_'' @ stream) = Some (n, Rtsp_kind)"
    and "header_of hs3 ''Session'' = []" "en_sink_alive E3"
  shows "(\<exists>c s. player_run L [read_request E1 (Request HTTP_DESCRIBE u hs1), (E2, Tracks (text_of u) tracks),
          read_request E3 (Request HTTP_PLAY w hs3)] (player_start port ch sinks) = Inr (c, s)
        \<and> rf_asked s = [((n, Rtsp_kind), Join ch)] \<and> rf_shutdowns s = 0
        \<and> rf_out s = [answer (describe_response E2 (text_of u) (seq_of hs1) (describe_sdp E2 (text_of u) tracks)),
            answer (play_response E3 (seq_of hs3) [])])
    \<and> (fb_media frame \<in> {tag_code Video, tag_code Audio} \<longrightarrow>
      player_run L [read_request E1 (Request HTTP_DESCRIBE u hs1), (E2, Tracks (text_of u) tracks),
          read_request E3 (Request HTTP_PLAY w hs3), (E4, Packet (Some frame, None))]
        (player_start port ch sinks) = Inl Null_deref)"
proof -
  let ?d = "described E2 (seq_of hs1) (text_of u) n tracks ch sinks :: 'r rtsp_forward_session"
  let ?p = "?d\<lparr>rf_out := rf_out ?d @ [answer (play_response E3 (seq_of hs3) [])],
    rf_asked := rf_asked ?d @ [((n, Rtsp_kind), Join ch)]\<rparr>"
  have start: "\<exists>c. player_run L (read_request E1 (Request HTTP_DESCRIBE u hs1) # (E2, Tracks (text_of u) tracks) # evs)
      (player_start port ch sinks) = player_run L evs (c, ?d) \<and> idle c" for evs
    using player_described [OF assms(1,3-7), of L E1 E2 tracks evs port ch] by fastforce
  have "rf_on_play E3 (text_of w) [] (seq_of hs3) ?d = Inr ?p"
    using play_joins [of ?d "(n, Rtsp_kind)" E3 ch "text_of w" "seq_of hs3"] assms(9)
    by (simp add: described_def rtsp_session_start_def)
  then have "serve_message (rf_handler L E3) (Request HTTP_PLAY w hs3) (rs_seq c, ?d) = Inr (seq_of hs3, ?p)" for c
    by (simp add: rf_handler_def seq_of_def assms(8) Let_def)
  from player_reads [OF assms(2) _ this]
  have play: "\<exists>c3. player_step L (read_request E3 (Request HTTP_PLAY w hs3)) (c, ?d) = Inr (c3, ?p)" if "idle c" for c
    using that by blast
  have "rf_channel_out L E4 (Some frame, None) ?p = Inl Null_deref"
    if "fb_media frame \<in> {tag_code Video, tag_code Audio}"
    using that by (auto simp: rf_channel_out_def send_video_rtcp_def send_audio_rtcp_def rtcp_context_def
        described_def rtsp_session_start_def tag_code_inj)
  then have out: "player_run L [(E4, Packet (Some frame, None))] (c, ?p) = Inl Null_deref"
    if "fb_media frame \<in> {tag_code Video, tag_code Audio}" for c
    using that by (simp add: player_run_def)
  have joined: "\<exists>c3. player_run L ([read_request E1 (Request HTTP_DESCRIBE u hs1), (E2, Tracks (text_of u) tracks),
          read_request E3 (Request HTTP_PLAY w hs3)] @ evs) (player_start port ch sinks) = player_run L evs (c3, ?p)" for evs
  proof -
    obtain c where c: "player_run L (read_request E1 (Request HTTP_DESCRIBE u hs1) # (E2, Tracks (text_of u) tracks)
          # read_request E3 (Request HTTP_PLAY w hs3) # evs) (player_start port ch sinks)
        = player_run L (read_request E3 (Request HTTP_PLAY w hs3) # evs) (c, ?d)" "idle c"
      using start by blast
    from play [OF c(2)] obtain c3 where "player_step L (read_request E3 (Request HTTP_PLAY w hs3)) (c, ?d) = Inr (c3, ?p)" ..
    with c(1) show ?thesis by (auto simp only: append.simps player_run_Cons)
  qed
  have "rf_out ?p = [answer (describe_response E2 (text_of u) (seq_of hs1) (describe_sdp E2 (text_of u) tracks)),
            answer (play_response E3 (seq_of hs3) [])]" "rf_asked ?p = [((n, Rtsp_kind), Join ch)]" "rf_shutdowns ?p = 0"
    by (simp_all add: described_def rtsp_session_start_def)
  with joined [of "[]"] joined [of "[(E4, Packet (Some frame, None))]"] out show ?thesis
    by auto
qed

definition bare_headers :: header_list where
  "bare_headers = [(bytes_of ''CSeq'', bytes_of ''8'')]"

lemma bare_play_wf: "wf_message (Request HTTP_PLAY sample_url bare_headers)"
  using sample_url_wf(1)
  by (simp add: wf_request_def HTTP_MAX_HEADER_SIZE_def request_bytes_def version_line_bytes
      header_line_def sample_url_def bare_headers_def header_defs)

theorem play_without_setup_stops_witness:
  "player_run demo_rtcp
      [read_request demo_env (Request HTTP_DESCRIBE sample_url sample_headers),
       (demo_env, Tracks (text_of sample_url) [Some demo_track]),
       read_request demo_env (Request HTTP_PLAY sample_url bare_headers),
       (demo_env, Packet (Some (Fixed ((fixed_create_data [1])\<lparr>ff_media := tag_code Video\<rparr>)), None))]
      (player_start 0 4 [''rtsp_live_a'' \<mapsto> (2, Rtsp_kind)]) = Inl Null_deref"
proof -
  have sid: "header_of bare_headers ''Session'' = []"
    by (simp add: header_of_def header_texts_def bare_headers_def)
  show ?thesis
    using play_without_setup_stops [OF demo_requests_wf(1) bare_play_wf, of "''rtsp://h:554''" "''live''" "''a''"
        "[''rtsp_live_a'' \<mapsto> (2, Rtsp_kind)]" 2 demo_env demo_rtcp demo_env demo_env "[Some demo_track]" 0 4
        "Fixed ((fixed_create_data [1])\<lparr>ff_media := tag_code Video\<rparr>)" demo_env] sid
    by (simp add: sample_url_def sink_get_def demo_env_def)
qed

subsection \<open>Packets\<close>

text \<open>What the session writes for a packet, behind what it wrote before.\<close>

lemma header_of_payload:
  assumes "wf_frame f" "fb_size f < 65536"
  shows "make_frame_header ch f @ fb_data f = message_bytes (Interleaved (of_nat ch) (fb_data f))"
proof -
  let ?n = "fb_size f"
  have mask: "(0xFF :: u32) = mask 8" by (simp add: mask_eq_exp_minus_1)
  have "?n div 256 = drop_bit 8 ?n" by (simp add: drop_bit_eq_div)
  then have "(ucast (drop_bit 8 (of_nat ?n :: u32) AND 0xFF) :: byte) = of_nat (?n div 256)"
    unfolding mask by (intro bit_word_eqI) (auto simp: bit_simps)
  moreover have "(ucast ((of_nat ?n :: u32) AND 0xFF) :: byte) = of_nat ?n"
    unfolding mask by (intro bit_word_eqI) (auto simp: bit_simps)
  ultimately show ?thesis
    using length_fb_data [OF assms(1)] by (simp add: make_frame_header_def Let_def)
qed

text \<open>
  C38. Every packet of the sink goes out as one interleaved packet. For a video or an audio packet of
  less than 64 KiB, the session writes the packet behind a header with the channel of its medium and
  the packet's length, so that the server side's own packet reader finds exactly its bytes there;
  before it, when a report is due, it writes the RTCP report in the same way on the RTCP channel of
  the medium; and nothing else.
\<close>

theorem packets_are_interleaved:
  assumes "rf_conn s" "wf_frame frame" "fb_size frame < 65536"
    and "(tag, rtp, rtcp, sent) = (Video, kRtpVideoChannel, kRtcpVideoChannel, rf_video_rtcp_time s)
        \<and> rtcp_context L (4 * 1024 * 1024) ''vx'' frame (rf_video_track s) (rf_video_rtcp s) = Inr r
      \<or> (tag, rtp, rtcp, sent) = (Audio, kRtpAudioChannel, kRtcpAudioChannel, rf_audio_rtcp_time s)
        \<and> rtcp_context L (128 * 1024) ''ax'' frame (rf_audio_track s) (rf_audio_rtcp s) = Inr r"
    and "fb_media frame = tag_code tag" "rl_interval L r = (interval, r1)" "rl_report L 1024 r1 = (report, r2)"
    and "length report \<le> 1024"
  shows "\<exists>s' fs. rf_channel_out L E (Some frame, None) s = Inr s' \<and> rf_out s' = rf_out s @ fs
    \<and> concat (map fb_data fs) = concat (map message_bytes
        ((if rtcp_due interval sent (en_rtpclock E) then [Interleaved (of_nat rtcp) report] else [])
         @ [Interleaved (of_nat rtp) (fb_data frame)]))"
proof -
  let ?report = "Fixed (fixed_create_data report)"
  let ?due = "rtcp_due interval sent (en_rtpclock E)"
  let ?fs = "(if ?due then [Fixed (fixed_create_data (make_frame_header rtcp ?report)), ?report] else [])
    @ [Fixed (fixed_create_data (make_frame_header rtp frame)), frame]"
  have bytes: "concat (map fb_data ?fs) = concat (map message_bytes
        ((if ?due then [Interleaved (of_nat rtcp) report] else []) @ [Interleaved (of_nat rtp) (fb_data frame)]))"
    using header_of_payload [OF assms(2,3), of rtp] header_of_payload [of ?report rtcp] assms(8) by simp
  have "\<exists>s'. rf_channel_out L E (Some frame, None) s = Inr s' \<and> rf_out s' = rf_out s @ ?fs"
    using assms(4)
  proof
    assume "(tag, rtp, rtcp, sent) = (Video, kRtpVideoChannel, kRtcpVideoChannel, rf_video_rtcp_time s)
        \<and> rtcp_context L (4 * 1024 * 1024) ''vx'' frame (rf_video_track s) (rf_video_rtcp s) = Inr r"
    then show ?thesis
      using assms(1,5-7)
      by (simp add: rf_channel_out_def send_video_rtcp_def send_rtcp_def Let_def rf_write_def rf_write_frame_def)
  next
    assume "(tag, rtp, rtcp, sent) = (Audio, kRtpAudioChannel, kRtcpAudioChannel, rf_audio_rtcp_time s)
        \<and> rtcp_context L (128 * 1024) ''ax'' frame (rf_audio_track s) (rf_audio_rtcp s) = Inr r"
    then show ?thesis
      using assms(1,5-7)
      by (simp add: rf_channel_out_def send_audio_rtcp_def send_rtcp_def Let_def rf_write_def rf_write_frame_def tag_code_inj)
  qed
  with bytes show ?thesis by blast
qed

definition demo_playing :: "nat rtsp_forward_session" where
  "demo_playing = (rtsp_session_start 4 Map.empty)\<lparr>rf_video_track := Some demo_track\<rparr>"

theorem packets_are_interleaved_witness:
  "\<exists>s' fs. rf_channel_out demo_rtcp demo_env (Some (Fixed ((fixed_create_data [1, 2])\<lparr>ff_media := tag_code Video\<rparr>)), None)
      demo_playing = Inr s' \<and> rf_out s' = rf_out demo_playing @ fs
    \<and> concat (map fb_data fs) = [36, 1, 0, 1, 128, 36, 0, 0, 2, 1, 2]"
proof -
  let ?f = "Fixed ((fixed_create_data [1, 2])\<lparr>ff_media := tag_code Video\<rparr>)"
  have ctx: "rtcp_context demo_rtcp (4 * 1024 * 1024) ''vx'' ?f (rf_video_track demo_playing) (rf_video_rtcp demo_playing) = Inr 0"
    by (simp add: rtcp_context_def rtcp_start_time_def demo_playing_def demo_track_def demo_rtcp_def
        rtsp_session_start_def)
  have due: "rtcp_due 5 (rf_video_rtcp_time demo_playing) (en_rtpclock demo_env)"
    by (simp add: rtcp_due_def demo_playing_def rtsp_session_start_def)
  have conn: "rf_conn demo_playing" by (simp add: demo_playing_def rtsp_session_start_def)
  show ?thesis
    using packets_are_interleaved [OF conn, of ?f Video kRtpVideoChannel kRtcpVideoChannel
        "rf_video_rtcp_time demo_playing" demo_rtcp 0 5 0 "[128]" 0 demo_env] ctx due
    by (simp add: demo_rtcp_def kRtpVideoChannel_def kRtcpVideoChannel_def c_dollar_sign_def)
qed

end
