(* ===== verification/Flv_Forward_Session.thy ===== *)
theory Flv_Forward_Session
  imports Rtmp_Source
begin

text \<open>
  The session of a player that gets a stream as an FLV file over HTTP
  (\<^verbatim>\<open>flv_forward_session.h\<close>, \<^verbatim>\<open>flv_forward_session.cc\<close>): it finds the sink by the target of the
  request, joins it, and writes each frame as one FLV tag.

  libflv's writers are parameters: what they put into the buffer they are given, of the size they are
  given. As in the other sessions, the connection is what is written to it (\<open>fl_out\<close>) and whether
  it was reset (\<open>fl_conn\<close>), and shutdowns are posted and counted.
\<close>

record flv_tag_header =
  ft_size :: u32
  ft_type :: byte
  ft_timestamp :: u32

record flv_lib =
  fw_header :: "int \<Rightarrow> int \<Rightarrow> nat \<Rightarrow> bytes"
  fw_tag_size :: "nat \<Rightarrow> u32 \<Rightarrow> bytes"
  fw_tag_header :: "flv_tag_header \<Rightarrow> nat \<Rightarrow> bytes"
  FLV_TYPE_AUDIO :: byte
  FLV_TYPE_VIDEO :: byte

record flv_forward_session =
  fl_first_frame :: bool
  fl_id :: string
  fl_target :: string
  fl_sink :: "(nat \<times> sink_kind) option"
  fl_channel :: "channel_ref option"
  fl_conn :: bool
  fl_out :: "frame_buffer list"
  fl_shutdowns :: nat
  fl_asked :: "((nat \<times> sink_kind) \<times> sink_event) list"

definition kFlvHeaderSize :: nat where "kFlvHeaderSize = 9"
definition kFlvTagHeaderSize :: nat where "kFlvTagHeaderSize = 11"

definition make_flv_header :: "flv_lib \<Rightarrow> frame_buffer" where
  "make_flv_header L = Fixed (fixed_create_data (fw_header L 1 1 kFlvHeaderSize @ fw_tag_size L 4 0))"

definition flv_session_create :: "string \<Rightarrow> flv_forward_session" where
  "flv_session_create target =
     \<lparr>fl_first_frame = False, fl_id = [], fl_target = target, fl_sink = None, fl_channel = None,
      fl_conn = True, fl_out = [], fl_shutdowns = 0, fl_asked = []\<rparr>"

definition flv_write :: "frame_buffer \<Rightarrow> flv_forward_session \<Rightarrow> flv_forward_session outcome" where
  "flv_write frame s =
     (if \<not> fl_conn s then Inl Null_deref else Inr (s\<lparr>fl_out := fl_out s @ [frame]\<rparr>))"

text \<open>The identifier of the sink: \<^verbatim>\<open>/app/stream.flv\<close> and \<^verbatim>\<open>/flv/app/stream\<close>.\<close>

definition make_session_id_suffix :: "string \<Rightarrow> string" where
  "make_session_id_suffix target =
     (let results = split_char (CHR ''/'') (take (length target - 4) target); n = length results
      in if n < 2 then [] else ''rtmp_'' @ results ! (n - 2) @ ''_'' @ results ! (n - 1))"

definition make_session_id_prefix :: "string \<Rightarrow> string" where
  "make_session_id_prefix target =
     (let results = split_char (CHR ''/'') target; n = length results
      in if n < 3 then [] else ''flv_'' @ results ! (n - 2) @ ''_'' @ results ! (n - 1))"

definition flv_shutdown :: "flv_forward_session \<Rightarrow> flv_forward_session" where
  "flv_shutdown s = s\<lparr>fl_shutdowns := fl_shutdowns s + 1\<rparr>"

text \<open>\<open>ch\<close> is the channel that \<^verbatim>\<open>start\<close> makes.\<close>

definition flv_start ::
  "(nat \<times> sink_kind) sinks \<Rightarrow> channel_ref \<Rightarrow> flv_forward_session \<Rightarrow> flv_forward_session" where
  "flv_start sinks ch s =
     (let target = fl_target s;
          join = (\<lambda>ident.
            let s1 = s\<lparr>fl_id := ident\<rparr>
            in case sink_get sinks ident of
                 None \<Rightarrow> flv_shutdown s1
               | Some k \<Rightarrow> s1\<lparr>fl_sink := Some k, fl_channel := Some ch, fl_asked := fl_asked s1 @ [(k, Join ch)]\<rparr>)
      in if ends_with target ''.flv'' then join (make_session_id_suffix target)
         else if starts_with target ''/flv'' then join (make_session_id_prefix target)
         else flv_shutdown s)"

definition flv_on_read :: "frame_ptr \<Rightarrow> error_code option \<Rightarrow> flv_forward_session \<Rightarrow> flv_forward_session" where
  "flv_on_read frame ec s = (if ec \<noteq> None then flv_shutdown s else s)"

definition flv_on_write :: "error_code option \<Rightarrow> flv_forward_session \<Rightarrow> flv_forward_session" where
  "flv_on_write ec s = (if ec \<noteq> None then flv_shutdown s else s)"

text \<open>\<open>live\<close> says whether the sink still exists: the session holds it weakly.\<close>

definition flv_safe_shutdown :: "bool \<Rightarrow> flv_forward_session \<Rightarrow> flv_forward_session" where
  "flv_safe_shutdown live s =
     (let s1 = (case (fl_sink s, fl_channel s) of
                  (Some k, Some ch) \<Rightarrow> if live then s\<lparr>fl_asked := fl_asked s @ [(k, Leave ch)]\<rparr> else s
                | _ \<Rightarrow> s)
      in s1\<lparr>fl_channel := None, fl_conn := False\<rparr>)"

text \<open>Every medium but audio is written as video.\<close>

definition flv_tag_type :: "flv_lib \<Rightarrow> frame_buffer \<Rightarrow> byte" where
  "flv_tag_type L frame = (if fb_media frame = tag_code Audio then FLV_TYPE_AUDIO L else FLV_TYPE_VIDEO L)"

definition flv_tag :: "flv_lib \<Rightarrow> frame_buffer \<Rightarrow> flv_tag_header" where
  "flv_tag L frame =
     \<lparr>ft_size = of_nat (fb_size frame), ft_type = flv_tag_type L frame,
      ft_timestamp = word_of_int (fb_pts frame)\<rparr>"

definition flv_first :: "flv_lib \<Rightarrow> flv_forward_session \<Rightarrow> flv_forward_session outcome" where
  "flv_first L s =
     (if fl_first_frame s then Inr s
      else flv_write (make_flv_header L) (s\<lparr>fl_first_frame := True\<rparr>))"

definition flv_channel_out :: "flv_lib \<Rightarrow> delivery \<Rightarrow> flv_forward_session \<Rightarrow> flv_forward_session outcome" where
  "flv_channel_out L d s =
     (case d of
        (f, Some e) \<Rightarrow> Inr (flv_shutdown s)
      | (None, None) \<Rightarrow> Inl Null_deref
      | (Some frame, None) \<Rightarrow>
          obind (flv_first L s) (\<lambda>s1.
          obind (flv_write (Fixed (fixed_create_data (fw_tag_header L (flv_tag L frame) kFlvTagHeaderSize))) s1) (\<lambda>s2.
          obind (flv_write frame s2) (\<lambda>s3.
            flv_write (Fixed (fixed_create_data (fw_tag_size L 4 (of_nat (fb_size frame + kFlvTagHeaderSize))))) s3))))"

subsection \<open>The file that a player gets\<close>

text \<open>A tag of the file, and the file of a sequence of frames.\<close>

definition flv_tag_bytes :: "flv_lib \<Rightarrow> frame_buffer \<Rightarrow> bytes" where
  "flv_tag_bytes L frame =
     fw_tag_header L (flv_tag L frame) 11 @ fb_data frame @ fw_tag_size L 4 (of_nat (11 + length (fb_data frame)))"

definition flv_file :: "flv_lib \<Rightarrow> frame_buffer list \<Rightarrow> bytes" where
  "flv_file L frames =
     (if frames = [] then []
      else fw_header L 1 1 9 @ fw_tag_size L 4 0 @ concat (map (flv_tag_bytes L) frames))"

definition flv_run :: "flv_lib \<Rightarrow> delivery list \<Rightarrow> flv_forward_session \<Rightarrow> flv_forward_session outcome" where
  "flv_run L = ofold (flv_channel_out L)"

lemma flv_channel_out_frame:
  assumes "fl_conn s" "wf_frame frame"
  shows "\<exists>fs s'. flv_channel_out L (Some frame, None) s = Inr s' \<and> fl_first_frame s' \<and> fl_conn s'
    \<and> fl_out s' = fl_out s @ fs
    \<and> concat (map fb_data fs) = (if fl_first_frame s then [] else fw_header L 1 1 9 @ fw_tag_size L 4 0) @ flv_tag_bytes L frame"
  using assms
  by (auto simp: flv_channel_out_def flv_first_def flv_write_def make_flv_header_def flv_tag_bytes_def
      kFlvHeaderSize_def kFlvTagHeaderSize_def length_fb_data add.commute)

lemma flv_run_frames:
  assumes "fl_conn s" "\<forall>f \<in> set frames. wf_frame f"
  shows "\<exists>fs s'. flv_run L (map (\<lambda>f. (Some f, None)) frames) s = Inr s' \<and> fl_conn s' \<and> fl_out s' = fl_out s @ fs
    \<and> concat (map fb_data fs) =
        (if fl_first_frame s then concat (map (flv_tag_bytes L) frames) else flv_file L frames)"
  using assms
proof (induction frames arbitrary: s)
  case Nil
  then show ?case by (auto simp: flv_run_def flv_file_def)
next
  case (Cons frame frames)
  obtain fs s1 where fs: "flv_channel_out L (Some frame, None) s = Inr s1" "fl_first_frame s1" "fl_conn s1"
      "fl_out s1 = fl_out s @ fs"
      "concat (map fb_data fs) = (if fl_first_frame s then [] else fw_header L 1 1 9 @ fw_tag_size L 4 0) @ flv_tag_bytes L frame"
    using flv_channel_out_frame [of s frame L] Cons.prems by auto
  obtain fs' s' where run: "flv_run L (map (\<lambda>f. (Some f, None)) frames) s1 = Inr s'" "fl_conn s'"
      "fl_out s' = fl_out s1 @ fs'" "concat (map fb_data fs') = concat (map (flv_tag_bytes L) frames)"
    using Cons.IH [of s1] Cons.prems fs(2,3) by auto
  from fs(1) run(1) have "flv_run L (map (\<lambda>f. (Some f, None)) (frame # frames)) s = Inr s'"
    by (simp add: flv_run_def)
  moreover have "concat (map fb_data (fs @ fs')) =
      (if fl_first_frame s then concat (map (flv_tag_bytes L) (frame # frames)) else flv_file L (frame # frames))"
    using fs(5) run(4) by (simp add: flv_file_def)
  ultimately show ?case using run(2,3) fs(4) by (intro exI [of _ "fs @ fs'"] exI [of _ s']) simp
qed

end
