(* ===== verification/Http_Session.thy ===== *)
theory Http_Session
  imports Flv_Forward_Session
begin

text \<open>
  The HTTP front end (\<^verbatim>\<open>http_session.h\<close>, \<^verbatim>\<open>http_session.cc\<close>) and the one callback that is
  registered with it (\<^verbatim>\<open>api.cc\<close>). Requests are read and responses written by Boost.Beast: the
  environment completes each asynchronous operation, a read with the request that was parsed. What a
  session does with a response is what it sets, in order.

  \<open>ht_stream\<close> is the pointer to the stream, with whether its socket is open; \<open>ht_socket\<close> is
  whether the socket of the session itself is open, which is moved into the stream.
\<close>

subsection \<open>Requests and responses\<close>

record http_request =
  hq_target :: string
  hq_version :: int
  hq_keep_alive :: bool

datatype http_setter = Keep_alive bool | Body string | Content_length nat | Field string string

record http_response =
  hr_status :: int
  hr_version :: int
  hr_setters :: "http_setter list"

text \<open>A response without arguments is a 200 of HTTP/1.1.\<close>

definition default_response :: http_response where
  "default_response = \<lparr>hr_status = 200, hr_version = 11, hr_setters = []\<rparr>"

definition set_response :: "http_setter list \<Rightarrow> http_response \<Rightarrow> http_response" where
  "set_response xs r = r\<lparr>hr_setters := hr_setters r @ xs\<rparr>"

definition create_response :: "http_request \<Rightarrow> int \<Rightarrow> string \<Rightarrow> http_response" where
  "create_response req code content =
     set_response [Body content, Keep_alive (hq_keep_alive req), Content_length (length content),
                   Field ''Server'' ''simple/rtmp'']
       \<lparr>hr_status = code, hr_version = hq_version req, hr_setters = []\<rparr>"

definition flv_response :: http_response where
  "flv_response =
     set_response [Keep_alive True, Field ''Cache-Control'' ''no-cache'', Field ''Content-Type'' ''flash'',
                   Field ''Expires'' ''-1'', Field ''Access-Control-Allow-Origin'' ''*'',
                   Field ''Pragma'' ''no-cache'', Field ''Connection'' ''keep-alive''] default_response"

subsection \<open>The session\<close>

text \<open>\<open>ht_writing\<close> holds the writes that have not completed; the flag tells the FLV response.\<close>

record http_session =
  ht_socket :: bool
  ht_stream :: "bool option"
  ht_parser :: bool
  ht_reading :: nat
  ht_writing :: "(http_request \<times> http_response \<times> bool) list"
  ht_shutdowns :: nat
  ht_flv :: "flv_forward_session list"

definition http_session_create :: http_session where
  "http_session_create =
     \<lparr>ht_socket = True, ht_stream = None, ht_parser = False, ht_reading = 0, ht_writing = [],
      ht_shutdowns = 0, ht_flv = []\<rparr>"

definition http_shutdown :: "http_session \<Rightarrow> http_session" where
  "http_shutdown s = s\<lparr>ht_shutdowns := ht_shutdowns s + 1\<rparr>"

definition close_socket :: "bool \<Rightarrow> bool" where
  "close_socket is_open = (if \<not> is_open then is_open else False)"

definition http_safe_shutdown :: "http_session \<Rightarrow> http_session" where
  "http_safe_shutdown s =
     s\<lparr>ht_stream := map_option close_socket (ht_stream s), ht_socket := close_socket (ht_socket s)\<rparr>"

definition http_do_read :: "http_session \<Rightarrow> http_session outcome" where
  "http_do_read s =
     (case ht_stream s of
        None \<Rightarrow> Inl Null_deref
      | Some _ \<Rightarrow> Inr (s\<lparr>ht_parser := True, ht_reading := ht_reading s + 1\<rparr>))"

definition http_safe_do_read :: "http_session \<Rightarrow> http_session outcome" where
  "http_safe_do_read s = http_do_read (s\<lparr>ht_stream := Some (ht_socket s), ht_socket := False\<rparr>)"

definition http_write_with :: "bool \<Rightarrow> http_request \<Rightarrow> http_response \<Rightarrow> http_session \<Rightarrow> http_session outcome" where
  "http_write_with flv req rsp s =
     (case ht_stream s of
        None \<Rightarrow> Inl Null_deref
      | Some _ \<Rightarrow> Inr (s\<lparr>ht_writing := ht_writing s @ [(req, rsp, flv)]\<rparr>))"

definition http_write where "http_write = http_write_with False"
definition http_write_flv where "http_write_flv = http_write_with True"

definition on_flv_request :: "http_request \<Rightarrow> http_session \<Rightarrow> http_session outcome" where
  "on_flv_request req s = http_write_flv req flv_response s"

definition on_hls_request :: "http_request \<Rightarrow> http_session \<Rightarrow> http_session outcome" where
  "on_hls_request req s = Inr s"

definition unregistered_request :: "http_request \<Rightarrow> http_session \<Rightarrow> http_session outcome" where
  "unregistered_request req s =
     (let target = hq_target req
      in if ends_with target ''/flv/'' \<or> ends_with target ''.flv'' then on_flv_request req s
         else if starts_with target ''/hls/'' \<or> ends_with target ''.hls'' then on_hls_request req s
         else Inr s)"

type_synonym request_cbs = "string \<rightharpoonup> (http_request \<Rightarrow> http_session \<Rightarrow> http_session outcome)"

definition register_request_cb ::
  "string \<Rightarrow> (http_request \<Rightarrow> http_session \<Rightarrow> http_session outcome) \<Rightarrow> request_cbs \<Rightarrow> request_cbs" where
  "register_request_cb name cb m = m(name \<mapsto> cb)"

definition http_on_request :: "request_cbs \<Rightarrow> http_request \<Rightarrow> http_session \<Rightarrow> http_session outcome" where
  "http_on_request cbs req s =
     (if \<not> ht_parser s then Inr (http_shutdown s)
      else case cbs (hq_target req) of
             None \<Rightarrow> unregistered_request req s
           | Some cb \<Rightarrow> cb req s)"

text \<open>A read completes, with an error or with a request.\<close>

definition http_on_read ::
  "request_cbs \<Rightarrow> error_code option \<Rightarrow> http_request \<Rightarrow> http_session \<Rightarrow> http_session outcome" where
  "http_on_read cbs ec req s =
     (let s1 = s\<lparr>ht_reading := ht_reading s - 1\<rparr>
      in if ec \<noteq> None then Inr (http_shutdown s1) else http_on_request cbs req s1)"

text \<open>The write of a response completes, the one that \<^verbatim>\<open>write\<close> or the one that \<^verbatim>\<open>write_flv\<close> started.\<close>

definition http_on_write :: "http_request \<Rightarrow> error_code option \<Rightarrow> http_session \<Rightarrow> http_session outcome" where
  "http_on_write req ec s =
     (if ec \<noteq> None then Inr s
      else if \<not> hq_keep_alive req then Inr (http_shutdown s)
      else http_do_read s)"

definition on_flv_write ::
  "(nat \<times> sink_kind) sinks \<Rightarrow> channel_ref \<Rightarrow> http_request \<Rightarrow> error_code option \<Rightarrow> http_session \<Rightarrow> http_session outcome" where
  "on_flv_write sinks ch req ec s =
     (if ec \<noteq> None then Inr s
      else case ht_stream s of
             None \<Rightarrow> Inl Null_deref
           | Some _ \<Rightarrow>
               Inr (http_shutdown
                 (s\<lparr>ht_stream := None,
                    ht_flv := ht_flv s @ [flv_start sinks ch (flv_session_create (hq_target req))]\<rparr>)))"

definition http_written ::
  "(nat \<times> sink_kind) sinks \<Rightarrow> channel_ref \<Rightarrow> error_code option \<Rightarrow> http_session \<Rightarrow> http_session outcome" where
  "http_written sinks ch ec s =
     (case ht_writing s of
        [] \<Rightarrow> Inr s
      | (req, rsp, flv) # ws \<Rightarrow>
          let s1 = s\<lparr>ht_writing := ws\<rparr>
          in if flv then on_flv_write sinks ch req ec s1 else http_on_write req ec s1)"

subsection \<open>The registered callback\<close>

definition hello_world :: "http_request \<Rightarrow> http_session \<Rightarrow> http_session outcome" where
  "hello_world req s = http_write req (create_response req 200 ''Hello World'') s"

definition register_api :: "request_cbs \<Rightarrow> request_cbs" where
  "register_api = register_request_cb ''/api/v1/hello'' hello_world"

subsection \<open>Which requests are answered\<close>

text \<open>Nothing is under way that could call the session again.\<close>

definition stuck :: "http_session \<Rightarrow> bool" where
  "stuck s \<longleftrightarrow> ht_reading s = 0 \<and> ht_writing s = [] \<and> ht_shutdowns s = 0"


definition demo_request :: "string \<Rightarrow> http_request" where
  "demo_request target = \<lparr>hq_target = target, hq_version = 11, hq_keep_alive = True\<rparr>"

definition demo_http :: http_session where
  "demo_http = \<lparr>ht_socket = False, ht_stream = Some True, ht_parser = True, ht_reading = 1, ht_writing = [],
     ht_shutdowns = 0, ht_flv = []\<rparr>"

lemma demo_http_reached: "http_safe_do_read http_session_create = Inr demo_http"
  by (simp add: http_safe_do_read_def http_do_read_def http_session_create_def demo_http_def)


subsection \<open>From the request to the file\<close>

lemma flv_target_found:
  assumes "CHR ''/'' \<notin> set app" "CHR ''/'' \<notin> set stream"
  shows "make_session_id_suffix (base @ ''/'' @ app @ ''/'' @ stream @ ''.flv'') = ''rtmp_'' @ app @ ''_'' @ stream"
proof -
  let ?ws = "split_char (CHR ''/'') (base @ ''/'' @ app @ ''/'' @ stream)"
  have "split_char d (xs @ d # ys) = split_char d xs @ split_char d ys" for d xs ys
    by (induction d xs rule: split_char.induct) (auto split: list.split)
  then have ws: "?ws = split_char (CHR ''/'') base @ [app, stream]"
    using assms by (simp add: split_char_token)
  have cut: "take (length (base @ ''/'' @ app @ ''/'' @ stream @ ''.flv'') - 4) (base @ ''/'' @ app @ ''/'' @ stream @ ''.flv'')
      = base @ ''/'' @ app @ ''/'' @ stream" by simp
  show ?thesis
    unfolding make_session_id_suffix_def cut Let_def ws by (simp add: nth_append)
qed

text \<open>
  C39. A stream is played over HTTP. A request for \<^verbatim>\<open>/app/stream.flv\<close> of a stream that is published
  over RTMP is answered, and when the answer is written its connection goes over to an FLV session
  that joins the RTMP sink of exactly this stream; and what that session then writes for the frames
  of the sink is, byte for byte, the FLV file of these frames: the header once and first, and for
  each frame, in order, a tag header, its bytes and the size of the tag.
\<close>

theorem http_flv_stream:
  assumes "ht_stream s = Some b" "ht_parser s" "ht_writing s = []" "cbs (hq_target req) = None"
    and "hq_target req = base @ ''/'' @ app @ ''/'' @ stream @ ''.flv''"
    and "CHR ''/'' \<notin> set app" "CHR ''/'' \<notin> set stream"
    and "sink_get sinks (''rtmp_'' @ app @ ''_'' @ stream) = Some k"
    and "\<forall>f \<in> set frames. wf_frame f"
  shows "\<exists>s1 s2 flv flv'. http_on_read cbs None req s = Inr s1 \<and> http_written sinks ch None s1 = Inr s2
    \<and> ht_flv s2 = ht_flv s @ [flv] \<and> fl_asked flv = [(k, Join ch)] \<and> fl_shutdowns flv = 0
    \<and> flv_run L (map (\<lambda>f. (Some f, None)) frames) flv = Inr flv'
    \<and> concat (map fb_data (fl_out flv')) = flv_file L frames"
proof -
  let ?flv = "flv_start sinks ch (flv_session_create (hq_target req))"
  have suffix: "ends_with (hq_target req) ''.flv''" by (simp add: assms(5) ends_with_iff)
  have flv: "?flv = (flv_session_create (hq_target req))\<lparr>fl_id := ''rtmp_'' @ app @ ''_'' @ stream, fl_sink := Some k,
      fl_channel := Some ch, fl_asked := [(k, Join ch)]\<rparr>"
    using suffix assms(8) flv_target_found [OF assms(6,7), of base]
    by (simp add: flv_start_def Let_def flv_session_create_def assms(5))
  have "fl_conn ?flv" "fl_out ?flv = []" "\<not> fl_first_frame ?flv"
    unfolding flv by (simp_all add: flv_session_create_def)
  with flv_run_frames [OF this(1) assms(9), of L]
  obtain flv' where flv': "flv_run L (map (\<lambda>f. (Some f, None)) frames) ?flv = Inr flv'"
    "concat (map fb_data (fl_out flv')) = flv_file L frames" by auto
  have "http_on_read cbs None req s = Inr (s\<lparr>ht_reading := ht_reading s - 1, ht_writing := [(req, flv_response, True)]\<rparr>)"
    using assms(1-4) suffix
    by (simp add: http_on_read_def http_on_request_def unregistered_request_def on_flv_request_def http_write_flv_def
        http_write_with_def Let_def)
  moreover have "http_written sinks ch None (s\<lparr>ht_reading := ht_reading s - 1, ht_writing := [(req, flv_response, True)]\<rparr>)
      = Inr (http_shutdown (s\<lparr>ht_reading := ht_reading s - 1, ht_writing := [], ht_stream := None, ht_flv := ht_flv s @ [?flv]\<rparr>))"
    using assms(1) by (simp add: http_written_def on_flv_write_def)
  moreover have "fl_asked ?flv = [(k, Join ch)]" "fl_shutdowns ?flv = 0"
    unfolding flv by (simp_all add: flv_session_create_def)
  ultimately show ?thesis
    using flv' by (intro exI conjI) (assumption | simp add: http_shutdown_def)+
qed

definition demo_flv :: flv_lib where
  "demo_flv = \<lparr>fw_header = (\<lambda>a v n. [70, 76, 86]), fw_tag_size = (\<lambda>n k. [ucast k]),
     fw_tag_header = (\<lambda>t n. [ft_type t, ucast (ft_size t)]), FLV_TYPE_AUDIO = 8, FLV_TYPE_VIDEO = 9\<rparr>"

theorem http_flv_stream_witness:
  "\<exists>s1 s2 flv flv'. http_on_read (register_api Map.empty) None (demo_request ''/live/a.flv'') demo_http = Inr s1
    \<and> http_written [''rtmp_live_a'' \<mapsto> (2, Rtmp_kind)] 5 None s1 = Inr s2 \<and> ht_flv s2 = [flv]
    \<and> flv_run demo_flv (map (\<lambda>f. (Some f, None)) [Fixed (fixed_create_data [1, 2]), Fixed (fixed_create_data [3])]) flv = Inr flv'
    \<and> concat (map fb_data (fl_out flv')) = [70, 76, 86, 0, 9, 2, 1, 2, 13, 9, 1, 3, 12]"
proof -
  let ?req = "demo_request ''/live/a.flv''" and ?frames = "[Fixed (fixed_create_data [1, 2]), Fixed (fixed_create_data [3 :: byte])]"
  have 1: "ht_stream demo_http = Some True" "ht_parser demo_http" "ht_writing demo_http = []" "ht_flv demo_http = []"
    by (simp_all add: demo_http_def)
  have 2: "register_api Map.empty (hq_target ?req) = None"
    by (simp add: register_api_def register_request_cb_def demo_request_def)
  have 3: "hq_target ?req = [] @ ''/'' @ ''live'' @ ''/'' @ ''a'' @ ''.flv''" by (simp add: demo_request_def)
  have bytes: "flv_file demo_flv ?frames = [70, 76, 86, 0, 9, 2, 1, 2, 13, 9, 1, 3, 12]"
    by (simp add: flv_file_def flv_tag_bytes_def flv_tag_def flv_tag_type_def demo_flv_def fixed_create_data_def)
  show ?thesis
    using http_flv_stream [where base = "[]" and app = "''live''" and stream = "''a''" and k = "(2, Rtmp_kind)"
        and sinks = "[''rtmp_live_a'' \<mapsto> (2, Rtmp_kind)]" and frames = ?frames and ch = 5 and L = demo_flv
        and s = demo_http and cbs = "register_api Map.empty" and req = ?req,
        OF 1(1-3) 2 3] 1(4) bytes
    by (auto simp: sink_get_def)
qed

end
