(* ===== verification/Relay.thy ===== *)
theory Relay
  imports Flv_Forward_Session Rtmp_Decoder_Proofs Rtsp_Encoder_Proofs
begin

text \<open>
  A picture on its way through the server: from the message of the publisher through the
  demultiplexer, the decoder, the two sinks and the encoders to the channels of the sessions
  (\<^verbatim>\<open>rtmp_source.cc\<close> with what it owns).
\<close>

subsection \<open>What an RTMP session is given for a slice\<close>

text \<open>
  What libmov documents of \<^verbatim>\<open>h264_annexbtomp4\<close> for one slice: the unit with its length in four bytes;
  \<^verbatim>\<open>vcl\<close> is 1 for an IDR slice and 2 for another, and nothing is updated.
\<close>

definition converts_slice :: "'v avc_lib \<Rightarrow> 'v \<Rightarrow> bytes \<Rightarrow> bool" where
  "converts_slice L avc nal \<longleftrightarrow>
     (\<forall>room vu. length nal + 4 \<le> room \<longrightarrow>
        h264_annexbtomp4 L avc (start_code @ nal) room vu =
          (int (length nal + 4), be_bytes 4 (length nal) @ nal, avc, if is_idr nal then 1 else 2, 0))"

text \<open>The message that is expected: an FLV tag of five bytes and the slice.\<close>

definition slice_message :: "int \<Rightarrow> int \<Rightarrow> bytes \<Rightarrow> frame_buffer" where
  "slice_message pts dts nal =
     Fixed \<lparr>ff_media = tag_code Video, ff_codec = codec_code H264, ff_flag = if is_idr nal then 1 else 0,
       ff_pts = pts, ff_dts = dts,
       ff_payload = [if is_idr nal then 0x17 else 0x27, 1, 0, 0, 0] @ be_bytes 4 (length nal) @ nal\<rparr>"

lemma video_packet_slice:
  "video_packet_frame H264 pts dts (if is_idr nal then 1 else 2) (be_bytes 4 (length nal) @ nal) =
   slice_message pts dts nal"
  by (simp add: video_packet_frame_def slice_message_def video_tag_bytes_def avpacket_def es_frame_def
      fixed_append_frame_def fixed_append_data_def fixed_create_def Let_def)

subsection \<open>The RTMP side\<close>

definition sends_slices :: "'v \<Rightarrow> 'v rtmp_h264_encoder \<Rightarrow> bool" where
  "sends_slices a e \<longleftrightarrow> e4_avc e = a \<and> e4_ch e \<noteq> None \<and> e4_video_sequence_header e \<noteq> 0"

lemma h264_encoder_slice:
  assumes e: "sends_slices a e" and conv: "converts_slice L a nal"
  shows "\<exists>e'. rtmp_h264_encoder_write L e (Some (nalu_frame key ts cts nal), None) =
      Inr ([(Some (slice_message (ts + cts) ts nal), None)], e') \<and> sends_slices a e'"
proof -
  obtain c where c: "e4_ch e = Some c" using e by (auto simp: sends_slices_def)
  let ?f = "nalu_frame key ts cts nal" and ?out = "be_bytes 4 (length nal) @ nal"
  have frame: "fb_data ?f = start_code @ nal" "fb_size ?f = length nal + 4" "fb_pts ?f = ts + cts" "fb_dts ?f = ts"
    by (simp_all add: nalu_frame_def es_frame_def start_code_def)
  let ?room = "length nal + 4 + avc_sizeof L" and ?vcl = "if is_idr nal then 1 else (2 :: int)"
  have out: "h264_annexbtomp4 L (e4_avc e) (start_code @ nal) ?room (e4_vcl e, e4_update e) =
      (int (length nal + 4), ?out, a, ?vcl, 0)"
    using conv e by (simp add: converts_slice_def sends_slices_def)
  have "resized (nat (int (length nal) + 4)) (filled ?room ?out) = ?out"
    by (simp add: resized_def filled_def nat_add_distrib)
  then show ?thesis
    using e c out video_packet_slice [of "ts + cts" ts nal]
    by (auto simp: rtmp_h264_encoder_write_def frame Let_def sends_slices_def split: prod.split)
qed

text \<open>What the sink remembers for those who join later.\<close>

definition remembers_slice :: "bytes \<Rightarrow> frame_buffer \<Rightarrow> ('v, 'a) rtmp_sink \<Rightarrow> ('v, 'a) rtmp_sink \<Rightarrow> bool" where
  "remembers_slice nal msg s s' \<longleftrightarrow>
     rk_video_config s' = rk_video_config s \<and> rk_audio_config s' = rk_audio_config s
     \<and> (is_idr nal \<longrightarrow> rk_gop_cache s' = [msg])"

lemma on_slice_message:
  "\<exists>s'. rtmp_sink_on_frame (Some (slice_message pts dts nal), None) s =
      Inr (broadcast (rk_chs s) (Some (slice_message pts dts nal), None), s')
    \<and> rk_chs s' = rk_chs s \<and> rk_video_encoder s' = rk_video_encoder s
    \<and> remembers_slice nal (slice_message pts dts nal) s s'"
  by (auto simp: rtmp_sink_on_frame_def rtmp_sink_on_video_frame_def video_config_frame_p_def slice_message_def
      byte_at_def remembers_slice_def)

lemma rtmp_sink_slice:
  assumes "rk_video_encoder s = Some e" "sends_slices a e" "converts_slice Lv a nal"
  shows "\<exists>s' e'. rtmp_sink_write F Lv La (Some (nalu_frame key ts cts nal), None) s =
      Inr (broadcast (rk_chs s) (Some (slice_message (ts + cts) ts nal), None), s')
    \<and> rk_chs s' = rk_chs s \<and> rk_video_encoder s' = Some e' \<and> sends_slices a e'
    \<and> remembers_slice nal (slice_message (ts + cts) ts nal) s s'"
proof -
  obtain e' where e': "rtmp_h264_encoder_write Lv e (Some (nalu_frame key ts cts nal), None) =
      Inr ([(Some (slice_message (ts + cts) ts nal), None)], e')" "sends_slices a e'"
    using h264_encoder_slice [OF assms(2,3)] by blast
  have media: "fb_media (nalu_frame key ts cts nal) = tag_code Video" by (simp add: nalu_frame_def es_frame_def)
  obtain s' where "rtmp_sink_on_frame (Some (slice_message (ts + cts) ts nal), None) (s\<lparr>rk_video_encoder := Some e'\<rparr>) =
      Inr (broadcast (rk_chs s) (Some (slice_message (ts + cts) ts nal), None), s')"
    "rk_chs s' = rk_chs s" "rk_video_encoder s' = Some e'"
    "remembers_slice nal (slice_message (ts + cts) ts nal) s s'"
    using on_slice_message [of "ts + cts" ts nal "s\<lparr>rk_video_encoder := Some e'\<rparr>"]
    by (auto simp: remembers_slice_def)
  with e' assms(1) media show ?thesis
    by (auto simp: rtmp_sink_write_def sink_video_write_def on_deliveries_def)
qed

subsection \<open>The RTSP side\<close>

text \<open>It does not stop on a slice, whatever librtp makes of it.\<close>

lemma nal_units_slice: "clean_nal nal \<Longrightarrow> nal_units (start_code @ nal) = Inr [nal]"
  using nal_units_annexb [of "[(1, nal)]"] by (simp add: start_code_def)

lemma nal_units_sets:
  "clean_nal sps \<Longrightarrow> clean_nal pps \<Longrightarrow> nal_units (start_code @ sps @ start_code @ pps) = Inr [sps, pps]"
  using nal_units_annexb [of "[(1, sps), (1, pps)]"] by (simp add: start_code_def)

lemma rtsp_encoder_units:
  assumes "r4_ch e \<noteq> None" "nal_units (fb_data frame) = Inr nals"
  shows "\<exists>ds e' g'. rtsp_h264_encoder_write R (Some frame, None) (e, g) = Inr (ds, e', g') \<and> r4_ch e' \<noteq> None"
proof -
  obtain c where "r4_ch e = Some c" using assms(1) by blast
  with assms(2) have "case rtsp_h264_encoder_write R (Some frame, None) (e, g) of
      Inl a \<Rightarrow> False | Inr r \<Rightarrow> r4_ch (fst (snd r)) \<noteq> None"
    by (simp add: rtsp_h264_encoder_write_def Let_def encode_rtp_def channel_deliver_def case_prod_unfold
        split: option.split)
  then show ?thesis by (auto split: sum.splits)
qed

lemma rtsp_on_deliveries: "\<exists>os. on_deliveries rtsp_sink_on_frame ds s = Inr (os, s)"
proof -
  have "\<exists>os'. ofold (\<lambda>d (os, s). obind (rtsp_sink_on_frame d s) (\<lambda>(os', s'). Inr (os @ os', s'))) ds (os, s) = Inr (os', s)" for os
    by (induction ds arbitrary: os) (simp_all add: rtsp_sink_on_frame_def)
  then show ?thesis unfolding on_deliveries_def by blast
qed

lemma rtsp_sink_units:
  assumes "sk_video_encoder s = Some e" "r4_ch e \<noteq> None" "nal_units (fb_data frame) = Inr nals"
    and media: "fb_media frame = tag_code Video"
  shows "\<exists>os s' e' g'. rtsp_sink_write R La (Some frame, None) (s, g) = Inr (os, s', g')
    \<and> sk_video_encoder s' = Some e' \<and> r4_ch e' \<noteq> None"
proof -
  obtain ds e' g' where e': "rtsp_h264_encoder_write R (Some frame, None) (e, g) = Inr (ds, e', g')"
    "r4_ch e' \<noteq> None" using rtsp_encoder_units [OF assms(2,3)] by blast
  obtain os where "on_deliveries rtsp_sink_on_frame ds (s\<lparr>sk_video_encoder := Some e'\<rparr>) =
      Inr (os, s\<lparr>sk_video_encoder := Some e'\<rparr>)"
    using rtsp_on_deliveries by blast
  with e' assms(1) media show ?thesis by (simp add: rtsp_sink_write_def rtsp_video_write_def)
qed

lemma nalu_frame_simps [simp]:
  "fb_data (nalu_frame key ts cts nal) = start_code @ nal" "fb_media (nalu_frame key ts cts nal) = tag_code Video"
  by (simp_all add: nalu_frame_def es_frame_def)

subsection \<open>The source\<close>

text \<open>Both encoders of the picture are there, and the configuration \<open>a\<close> has been announced.\<close>

definition relaying :: "'v \<Rightarrow> ('v, 'a, 'c) rtmp_source \<Rightarrow> bool" where
  "relaying a s \<longleftrightarrow>
     (\<exists>e. rk_video_encoder (so_rtmp_sink s) = Some e \<and> sends_slices a e)
     \<and> (\<exists>e. sk_video_encoder (so_rtsp_sink s) = Some e \<and> r4_ch e \<noteq> None)"

definition rtmp_part :: "source_out list \<Rightarrow> routed" where
  "rtmp_part os = concat (map (\<lambda>x. case x of To_rtmp c d \<Rightarrow> [(c, d)] | To_rtsp c d \<Rightarrow> []) os)"

lemma rtmp_part_simps [simp]:
  "rtmp_part [] = []" "rtmp_part (xs @ ys) = rtmp_part xs @ rtmp_part ys"
  "rtmp_part (map (\<lambda>(c, x). To_rtmp c x) os) = os" "rtmp_part (map (\<lambda>(c, x). To_rtsp c x) os) = []"
  by (simp_all add: rtmp_part_def) (induction os; auto)+

lemma source_slice:
  assumes "relaying a s" "converts_slice (sl_avc S) a nal" "clean_nal nal"
  shows "\<exists>os s'. rtmp_source_on_frame S R (Some (nalu_frame key ts cts nal), None) s = Inr (os, s')
    \<and> rtmp_part os = broadcast (rk_chs (so_rtmp_sink s)) (Some (slice_message (ts + cts) ts nal), None)
    \<and> rk_chs (so_rtmp_sink s') = rk_chs (so_rtmp_sink s) \<and> relaying a s' \<and> so_demuxer s' = so_demuxer s
    \<and> remembers_slice nal (slice_message (ts + cts) ts nal) (so_rtmp_sink s) (so_rtmp_sink s')"
proof -
  obtain e re where e: "rk_video_encoder (so_rtmp_sink s) = Some e" "sends_slices a e"
    and re: "sk_video_encoder (so_rtsp_sink s) = Some re" "r4_ch re \<noteq> None"
    using assms(1) by (auto simp: relaying_def)
  obtain rk e' where "rtmp_sink_write (sl_flv S) (sl_avc S) (sl_aac S) (Some (nalu_frame key ts cts nal), None) (so_rtmp_sink s) =
      Inr (broadcast (rk_chs (so_rtmp_sink s)) (Some (slice_message (ts + cts) ts nal), None), rk)"
    "rk_chs rk = rk_chs (so_rtmp_sink s)" "rk_video_encoder rk = Some e'" "sends_slices a e'"
    "remembers_slice nal (slice_message (ts + cts) ts nal) (so_rtmp_sink s) rk"
    using rtmp_sink_slice [OF e assms(2)] by blast
  moreover obtain os sk re' g where "rtsp_sink_write R (sl_aac S) (Some (nalu_frame key ts cts nal), None)
      (so_rtsp_sink s, so_ssrc s) = Inr (os, sk, g)" "sk_video_encoder sk = Some re'" "r4_ch re' \<noteq> None"
    using rtsp_sink_units [OF re, of "nalu_frame key ts cts nal" "[nal]" R "sl_aac S" "so_ssrc s"] nal_units_slice [OF assms(3)]
    by auto
  ultimately show ?thesis by (auto simp: rtmp_source_on_frame_def relaying_def)
qed

lemma source_slices:
  assumes "relaying a s" "\<forall>nal \<in> set nals. converts_slice (sl_avc S) a nal \<and> clean_nal nal"
  shows "\<exists>os s'. ofold (\<lambda>x (os, t). obind (rtmp_source_on_frame S R x t) (\<lambda>(os', t'). Inr (os @ os', t')))
      (map (\<lambda>nal. (Some (nalu_frame key ts cts nal), None)) nals) (os0, s) = Inr (os0 @ os, s')
    \<and> rtmp_part os = concat (map (\<lambda>nal. broadcast (rk_chs (so_rtmp_sink s))
        (Some (slice_message (ts + cts) ts nal), None)) nals)
    \<and> rk_chs (so_rtmp_sink s') = rk_chs (so_rtmp_sink s) \<and> relaying a s' \<and> so_demuxer s' = so_demuxer s"
  using assms
proof (induction nals arbitrary: s os0)
  case Nil
  then show ?case by simp
next
  case (Cons nal nals)
  obtain os1 s1 where 1: "rtmp_source_on_frame S R (Some (nalu_frame key ts cts nal), None) s = Inr (os1, s1)"
    "rtmp_part os1 = broadcast (rk_chs (so_rtmp_sink s)) (Some (slice_message (ts + cts) ts nal), None)"
    "rk_chs (so_rtmp_sink s1) = rk_chs (so_rtmp_sink s)" "relaying a s1" "so_demuxer s1 = so_demuxer s"
    using source_slice [OF Cons.prems(1), of S nal R key ts cts] Cons.prems(2) by auto
  obtain os2 s2 where 2: "ofold (\<lambda>x (os, t). obind (rtmp_source_on_frame S R x t) (\<lambda>(os', t'). Inr (os @ os', t')))
      (map (\<lambda>nal. (Some (nalu_frame key ts cts nal), None)) nals) (os0 @ os1, s1) = Inr ((os0 @ os1) @ os2, s2)"
    "rtmp_part os2 = concat (map (\<lambda>nal. broadcast (rk_chs (so_rtmp_sink s1))
        (Some (slice_message (ts + cts) ts nal), None)) nals)"
    "rk_chs (so_rtmp_sink s2) = rk_chs (so_rtmp_sink s1)" "relaying a s2" "so_demuxer s2 = so_demuxer s1"
    using Cons.IH [OF 1(4), of "os0 @ os1"] Cons.prems(2) by auto
  show ?case using 1 2 by (intro exI [of _ "os1 @ os2"] exI [of _ s2]) simp
qed

text \<open>A packet of the publisher.\<close>

lemma source_packet:
  assumes s: "relaying a s" "dm_video_decoder (so_demuxer s) = Some \<lparr>h4_ch = Some c, h4_args = Some (avc, flag)\<rparr>"
      "flag \<noteq> 0"
    and slices: "\<forall>nal \<in> set nals. converts_slice (sl_avc S) a nal \<and> clean_nal nal \<and> length nal < 256 ^ k \<and> length nal < 2 ^ 31"
    and frame: "fb_codec frame = tag_code Video" "drop n (fb_data frame) = avcc k nals"
    and lib: "flv_video_tag_header_read (sl_flv S) (fb_data frame) = (int n, video)" "vt_avpacket video = avpacket"
      "avc_nalu (sl_avc S) avc = k"
  shows "\<exists>os s'. rtmp_source_write S R (Some frame, None) s = Inr (os, s')
    \<and> rtmp_part os = concat (map (\<lambda>nal. broadcast (rk_chs (so_rtmp_sink s))
        (Some (slice_message (fb_pts frame + vt_cts video) (fb_pts frame) nal), None)) nals)
    \<and> rk_chs (so_rtmp_sink s') = rk_chs (so_rtmp_sink s) \<and> relaying a s' \<and> so_demuxer s' = so_demuxer s"
proof -
  let ?key = "if vt_keyframe video = 1 then 1 else (0 :: int)" and ?dec = "\<lparr>h4_ch = Some c, h4_args = Some (avc, flag)\<rparr>"
  have "\<forall>nal \<in> set nals. nal \<noteq> [] \<and> length nal < 256 ^ k \<and> length nal < 2 ^ 31" using slices by (auto simp: clean_nal_def)
  from h264_decoder_packet [OF this _ _ lib(3,1,2) frame(2), of ?dec c flag] s(3)
  have "rtmp_h264_decoder_write (sl_flv S) (sl_avc S) ?dec (Some frame, None) =
      Inr (map (\<lambda>nal. (Some (nalu_frame ?key (fb_pts frame) (vt_cts video) nal), None)) nals, ?dec)"
    by (simp add: with_parameter_sets_def flag_after_def comp_def)
  then have demux: "rtmp_demuxer_write S (Some frame, None) (so_demuxer s) =
      Inr ([], map (\<lambda>nal. (Some (nalu_frame ?key (fb_pts frame) (vt_cts video) nal), None)) nals, so_demuxer s)"
    using s(2) frame(1) by (simp add: rtmp_demuxer_write_def demuxer_video_def)
  have "\<forall>nal \<in> set nals. converts_slice (sl_avc S) a nal \<and> clean_nal nal" using slices by blast
  from source_slices [OF s(1) this, of R ?key "fb_pts frame" "vt_cts video" "[]"] demux
  show ?thesis by (simp add: rtmp_source_write_def)
qed

subsection \<open>How a stream begins\<close>

text \<open>
  What libmov documents of the parameter sets: the record \<open>avc\<close> of the publisher gives their units in Annex B
  form, from which the converter makes its own record \<open>a\<close>, which it says was updated and which can be
  saved as \<open>rec\<close>.
\<close>

definition parameter_units :: "bytes \<Rightarrow> bytes \<Rightarrow> bytes" where
  "parameter_units sps pps = start_code @ sps @ start_code @ pps"

definition converts_sets :: "'v avc_lib \<Rightarrow> 'v \<Rightarrow> bytes \<Rightarrow> bytes \<Rightarrow> 'v \<Rightarrow> bytes \<Rightarrow> bool" where
  "converts_sets L avc sps pps a rec \<longleftrightarrow>
     clean_nal sps \<and> clean_nal pps
     \<and> h264_sps_pps_size L avc = length (parameter_units sps pps)
     \<and> mpeg4_avc_to_nalu L avc (length (parameter_units sps pps)) =
         (int (length (parameter_units sps pps)), parameter_units sps pps)
     \<and> (\<forall>room. length (parameter_units sps pps) \<le> room \<longrightarrow>
          (\<exists>r out. h264_annexbtomp4 L (avc_zero L) (parameter_units sps pps) room (0, 0) = (r, out, a, 0, 1) \<and> 0 < r))
     \<and> avc_sps_bytes L a \<noteq> [] \<and> avc_pps_bytes L a \<noteq> []
     \<and> avc_record_save L a (kBufferSize - kVideoTagSize) = (int (length rec), rec)
     \<and> rec \<noteq> [] \<and> length rec \<le> kBufferSize - kVideoTagSize"

definition sets_frame :: "int \<Rightarrow> int \<Rightarrow> int \<Rightarrow> bytes \<Rightarrow> bytes \<Rightarrow> frame_buffer" where
  "sets_frame key pts dts sps pps = es_frame Video H264 key pts dts (parameter_units sps pps)"

lemma parameter_sets_frame:
  "converts_sets L avc sps pps a rec \<Longrightarrow>
   h264_parameter_sets L avc key pts dts = Some (sets_frame key pts dts sps pps)"
  by (simp add: converts_sets_def h264_parameter_sets_def sets_frame_def filled_def parameter_units_def start_code_def)

text \<open>The message of the configuration.\<close>

definition avc_config_message :: "int \<Rightarrow> int \<Rightarrow> bytes \<Rightarrow> frame_buffer" where
  "avc_config_message pts dts rec = es_frame Video H264 1 pts dts ([0x17, 0, 0, 0, 0] @ rec)"

lemma config_frame:
  assumes "length rec \<le> kBufferSize - kVideoTagSize"
  shows "video_config_frame H264 pts dts (int (length rec)) rec = Inr (avc_config_message pts dts rec)"
proof -
  have whole: "length x \<le> n \<Longrightarrow> slice (filled n x) 0 (length x) = Inr x" for n x
    by (simp add: slice_def filled_def)
  have five: "length rec + 5 = length ([0x17, 0, 0, 0, 0] @ rec :: bytes)" by simp
  have "slice (filled kBufferSize ([0x17, 0, 0, 0, 0] @ rec)) 0 (length rec + 5) = Inr ([0x17, 0, 0, 0, 0] @ rec)"
    unfolding five by (rule whole) (use assms in \<open>simp add: kBufferSize_def kVideoTagSize_def\<close>)
  then show ?thesis
    by (simp add: video_config_frame_def avc_config_message_def video_tag_bytes_def sequence_header_def kVideoTagSize_def
        del: append.simps)
qed

lemma h264_encoder_sets:
  assumes "converts_sets L avc sps pps a rec"
  shows "\<exists>e'. rtmp_h264_encoder_write L ((rtmp_h264_encoder_create L)\<lparr>e4_ch := Some c\<rparr>)
      (Some (sets_frame key pts dts sps pps), None) = Inr ([(Some (avc_config_message pts dts rec), None)], e')
    \<and> sends_slices a e'"
proof -
  let ?f = "sets_frame key pts dts sps pps" and ?room = "length (parameter_units sps pps) + avc_sizeof L"
  have frame: "fb_data ?f = parameter_units sps pps" "fb_size ?f = length (parameter_units sps pps)"
    "fb_pts ?f = pts" "fb_dts ?f = dts"
    by (simp_all add: sets_frame_def es_frame_def)
  have "length (parameter_units sps pps) \<le> ?room" by simp
  then obtain r out where "h264_annexbtomp4 L (avc_zero L) (parameter_units sps pps) ?room (0, 0) = (r, out, a, 0, 1)" "0 < r"
    using assms unfolding converts_sets_def by blast
  then show ?thesis
    using assms config_frame [of rec pts dts]
    by (simp add: rtmp_h264_encoder_write_def rtmp_h264_encoder_create_def frame Let_def converts_sets_def
        sends_slices_def)
qed

text \<open>The parameter sets reach the source: it is relaying from then on.\<close>

lemma rtmp_sink_sets:
  assumes "rk_video_encoder s = Some ((rtmp_h264_encoder_create Lv)\<lparr>e4_ch := Some c\<rparr>)"
    "converts_sets Lv avc sps pps a rec"
  shows "\<exists>s' e'. rtmp_sink_write F Lv La (Some (sets_frame key pts dts sps pps), None) s =
      Inr (broadcast (rk_chs s) (Some (avc_config_message pts dts rec), None), s') \<and> rk_chs s' = rk_chs s
    \<and> rk_video_encoder s' = Some e' \<and> sends_slices a e' \<and> rk_video_config s' = Some (avc_config_message pts dts rec)
    \<and> rk_audio_config s' = rk_audio_config s"
proof -
  obtain e' where e': "rtmp_h264_encoder_write Lv ((rtmp_h264_encoder_create Lv)\<lparr>e4_ch := Some c\<rparr>)
      (Some (sets_frame key pts dts sps pps), None) = Inr ([(Some (avc_config_message pts dts rec), None)], e')"
    "sends_slices a e'"
    using h264_encoder_sets [OF assms(2)] by blast
  have "fb_media (sets_frame key pts dts sps pps) = tag_code Video" by (simp add: sets_frame_def es_frame_def)
  with e' assms(1) show ?thesis
    by (simp add: rtmp_sink_write_def sink_video_write_def on_deliveries_def rtmp_sink_on_frame_def
        rtmp_sink_on_video_frame_def video_config_frame_p_def avc_config_message_def es_frame_def byte_at_def)
qed

definition prepared :: "'v avc_lib \<Rightarrow> ('v, 'a, 'c) rtmp_source \<Rightarrow> bool" where
  "prepared L s \<longleftrightarrow>
     (\<exists>c. rk_video_encoder (so_rtmp_sink s) = Some ((rtmp_h264_encoder_create L)\<lparr>e4_ch := Some c\<rparr>))
     \<and> (\<exists>e. sk_video_encoder (so_rtsp_sink s) = Some e \<and> r4_ch e \<noteq> None)
     \<and> rk_audio_config (so_rtmp_sink s) = None"

lemma source_sets:
  assumes "prepared (sl_avc S) s" "converts_sets (sl_avc S) avc sps pps a rec"
  shows "\<exists>os s'. rtmp_source_on_frame S R (Some (sets_frame key pts dts sps pps), None) s = Inr (os, s')
    \<and> rtmp_part os = broadcast (rk_chs (so_rtmp_sink s)) (Some (avc_config_message pts dts rec), None)
    \<and> rk_chs (so_rtmp_sink s') = rk_chs (so_rtmp_sink s) \<and> relaying a s' \<and> so_demuxer s' = so_demuxer s
    \<and> rk_video_config (so_rtmp_sink s') = Some (avc_config_message pts dts rec) \<and> rk_audio_config (so_rtmp_sink s') = None"
proof -
  let ?f = "sets_frame key pts dts sps pps"
  obtain c re where s: "rk_video_encoder (so_rtmp_sink s) = Some ((rtmp_h264_encoder_create (sl_avc S))\<lparr>e4_ch := Some c\<rparr>)"
    "sk_video_encoder (so_rtsp_sink s) = Some re" "r4_ch re \<noteq> None" "rk_audio_config (so_rtmp_sink s) = None"
    using assms(1) by (auto simp: prepared_def)
  have units: "nal_units (fb_data ?f) = Inr [sps, pps]" "fb_media ?f = tag_code Video"
    using nal_units_sets [of sps pps] assms(2)
    by (simp_all add: sets_frame_def parameter_units_def converts_sets_def es_frame_def)
  obtain rk e' where "rtmp_sink_write (sl_flv S) (sl_avc S) (sl_aac S) (Some ?f, None) (so_rtmp_sink s) =
      Inr (broadcast (rk_chs (so_rtmp_sink s)) (Some (avc_config_message pts dts rec), None), rk)"
    "rk_chs rk = rk_chs (so_rtmp_sink s)"
    "rk_video_encoder rk = Some e'" "sends_slices a e'" "rk_video_config rk = Some (avc_config_message pts dts rec)"
    "rk_audio_config rk = None"
    using rtmp_sink_sets [OF s(1) assms(2)] s(4) by metis
  moreover obtain os' sk re' g where "rtsp_sink_write R (sl_aac S) (Some ?f, None) (so_rtsp_sink s, so_ssrc s) = Inr (os', sk, g)"
    "sk_video_encoder sk = Some re'" "r4_ch re' \<noteq> None"
    using rtsp_sink_units [OF s(2,3) units] by blast
  ultimately show ?thesis by (simp add: rtmp_source_on_frame_def relaying_def)
qed

text \<open>The three messages that a publisher begins with: metadata, configuration, key picture.\<close>

definition video_metadata :: "amf_lib \<Rightarrow> frame_buffer \<Rightarrow> bool" where
  "video_metadata A frame \<longleftrightarrow>
     fb_codec frame = tag_code Script
     \<and> (\<exists>rest. script_name A (fb_data frame) = Inr (Some (''onMetaData'', rest))
          \<and> md_videocodecid (amf_read_items A rest) = of_int (codec_code H264))"

definition video_input :: "Rtmp_Decoders.flv_lib \<Rightarrow> int \<Rightarrow> frame_buffer \<Rightarrow> video_tag \<Rightarrow> bytes \<Rightarrow> bool" where
  "video_input F packet frame video body \<longleftrightarrow>
     fb_codec frame = tag_code Video \<and> vt_avpacket video = packet
     \<and> (\<exists>n. flv_video_tag_header_read F (fb_data frame) = (int n, video) \<and> drop n (fb_data frame) = body)"

lemma audio_is_not_h264: "audio_codec_id md \<noteq> 7"
proof -
  have "(16 :: int) * i \<noteq> 7" for i by presburger
  then show ?thesis by (simp add: audio_codec_id_def push_bit_eq_mult mult.commute)
qed

lemma source_metadata:
  assumes "video_metadata (sl_amf S) frame"
  shows "\<exists>s1 c. rtmp_source_write S R (Some frame, None) (rtmp_source_create sid g) = Inr ([], s1)
    \<and> prepared (sl_avc S) s1 \<and> dm_video_decoder (so_demuxer s1) = Some \<lparr>h4_ch = Some c, h4_args = None\<rparr>"
proof -
  obtain rest where m: "fb_codec frame = tag_code Script" "script_name (sl_amf S) (fb_data frame) = Inr (Some (''onMetaData'', rest))"
    "md_videocodecid (amf_read_items (sl_amf S) rest) = 7"
    using assms by (auto simp: video_metadata_def)
  have "trunc 7 = 7" by (simp add: trunc_def)
  then show ?thesis
    using m audio_is_not_h264 [of "amf_read_items (sl_amf S) rest"]
    by (auto simp: rtmp_source_write_def rtmp_demuxer_write_def demuxer_script_def rtmp_source_create_def Let_def
        rtmp_source_on_codec_def rtmp_sink_add_codec_def rtsp_sink_add_codec_def prepared_def rtmp_sink_create_def
        rtsp_sink_create_def)
qed

lemma source_configuration:
  assumes "video_input (sl_flv S) sequence_header frame video body"
    and "dm_video_decoder (so_demuxer s) = Some \<lparr>h4_ch = Some c, h4_args = None\<rparr>" "prepared (sl_avc S) s"
  shows "\<exists>s1. rtmp_source_write S R (Some frame, None) s = Inr ([], s1) \<and> prepared (sl_avc S) s1
    \<and> dm_video_decoder (so_demuxer s1) = Some \<lparr>h4_ch = Some c, h4_args = Some (avc_record_load (sl_avc S) body, 0)\<rparr>"
  using assms
  by (auto simp: rtmp_source_write_def rtmp_demuxer_write_def demuxer_video_def rtmp_h264_decoder_write_def
      video_input_def Let_def prepared_def)

text \<open>The first key picture: the parameter sets go before it.\<close>

lemma source_key_picture:
  assumes s: "prepared (sl_avc S) s" "dm_video_decoder (so_demuxer s) = Some \<lparr>h4_ch = Some c, h4_args = Some (avc, 0)\<rparr>"
    and sets: "converts_sets (sl_avc S) avc sps pps a rec"
    and nal: "converts_slice (sl_avc S) a nal" "clean_nal nal" "is_idr nal" "length nal < 256 ^ k" "length nal < 2 ^ 31"
    and frame: "video_input (sl_flv S) avpacket frame video (avcc k [nal])" "avc_nalu (sl_avc S) avc = k"
  shows "\<exists>os s'. rtmp_source_write S R (Some frame, None) s = Inr (os, s') \<and> relaying a s'
    \<and> rtmp_part os =
        broadcast (rk_chs (so_rtmp_sink s)) (Some (avc_config_message (fb_pts frame + vt_cts video) (fb_pts frame) rec), None)
        @ broadcast (rk_chs (so_rtmp_sink s)) (Some (slice_message (fb_pts frame + vt_cts video) (fb_pts frame) nal), None)
    \<and> rk_chs (so_rtmp_sink s') = rk_chs (so_rtmp_sink s)
    \<and> dm_video_decoder (so_demuxer s') = Some \<lparr>h4_ch = Some c, h4_args = Some (avc, 1)\<rparr>
    \<and> rk_video_config (so_rtmp_sink s') = Some (avc_config_message (fb_pts frame + vt_cts video) (fb_pts frame) rec)
    \<and> rk_audio_config (so_rtmp_sink s') = None
    \<and> rk_gop_cache (so_rtmp_sink s') = [slice_message (fb_pts frame + vt_cts video) (fb_pts frame) nal]"
proof -
  let ?ts = "fb_pts frame" and ?cts = "vt_cts video" and ?key = "if vt_keyframe video = 1 then 1 else (0 :: int)"
  let ?ps = "sets_frame ?key (?ts + ?cts) ?ts sps pps" and ?nalu = "nalu_frame ?key ?ts ?cts nal"
  let ?d = "\<lparr>h4_ch = Some c, h4_args = Some (avc, 0)\<rparr>"
  obtain n where f: "fb_codec frame = tag_code Video" "vt_avpacket video = avpacket"
    "flv_video_tag_header_read (sl_flv S) (fb_data frame) = (int n, video)" "drop n (fb_data frame) = avcc k [nal]"
    using frame(1) by (auto simp: video_input_def)
  have "\<forall>x \<in> set [nal]. x \<noteq> [] \<and> length x < 256 ^ k \<and> length x < 2 ^ 31" using nal by (simp add: clean_nal_def)
  from h264_decoder_packet [OF this _ _ frame(2) f(3,2,4), of ?d c 0 ?ps] parameter_sets_frame [OF sets] nal(3)
  have "rtmp_h264_decoder_write (sl_flv S) (sl_avc S) ?d (Some frame, None) =
      Inr ([(Some ?ps, None), (Some ?nalu, None)], ?d\<lparr>h4_args := Some (avc, 1)\<rparr>)"
    by (simp add: with_parameter_sets_def flag_after_def)
  then have demux: "rtmp_demuxer_write S (Some frame, None) (so_demuxer s) =
      Inr ([], [(Some ?ps, None), (Some ?nalu, None)],
        (so_demuxer s)\<lparr>dm_video_decoder := Some (?d\<lparr>h4_args := Some (avc, 1)\<rparr>)\<rparr>)"
    using s(2) f(1) by (simp add: rtmp_demuxer_write_def demuxer_video_def)
  let ?s = "s\<lparr>so_demuxer := (so_demuxer s)\<lparr>dm_video_decoder := Some (?d\<lparr>h4_args := Some (avc, 1)\<rparr>)\<rparr>\<rparr>"
  have "prepared (sl_avc S) ?s" using s(1) by (simp add: prepared_def)
  from source_sets [OF this sets, of R ?key "?ts + ?cts" ?ts]
  obtain os1 s1 where 1: "rtmp_source_on_frame S R (Some ?ps, None) ?s = Inr (os1, s1)" "relaying a s1"
    "rtmp_part os1 = broadcast (rk_chs (so_rtmp_sink s)) (Some (avc_config_message (?ts + ?cts) ?ts rec), None)"
    "rk_chs (so_rtmp_sink s1) = rk_chs (so_rtmp_sink s)"
    "so_demuxer s1 = so_demuxer ?s" "rk_audio_config (so_rtmp_sink s1) = None"
    "rk_video_config (so_rtmp_sink s1) = Some (avc_config_message (?ts + ?cts) ?ts rec)"
    by auto
  from source_slice [OF 1(2) nal(1,2), of R ?key ?ts ?cts]
  obtain os2 s2 where "rtmp_source_on_frame S R (Some ?nalu, None) s1 = Inr (os2, s2)" "relaying a s2"
    "rtmp_part os2 = broadcast (rk_chs (so_rtmp_sink s1)) (Some (slice_message (?ts + ?cts) ?ts nal), None)"
    "rk_chs (so_rtmp_sink s2) = rk_chs (so_rtmp_sink s1)"
    "so_demuxer s2 = so_demuxer s1"
    "remembers_slice nal (slice_message (?ts + ?cts) ?ts nal) (so_rtmp_sink s1) (so_rtmp_sink s2)"
    by blast
  with 1 demux nal(3) show ?thesis by (simp add: rtmp_source_write_def remembers_slice_def)
qed

text \<open>
  C6. A stream begins. A publisher that sends the metadata of an H.264 stream, its configuration and a
  key picture makes the server relay it: none of the three messages stops the server, the first two
  send nothing, and after the third the stream is being relayed, with the configuration that the
  converter made of the publisher's. A session that joins then is sent that configuration, under the
  times of the key picture, and the key picture, so that it can decode what follows.
\<close>

theorem stream_begins:
  assumes "video_metadata (sl_amf S) f1"
    and "video_input (sl_flv S) sequence_header f2 v2 body"
    and "converts_sets (sl_avc S) (avc_record_load (sl_avc S) body) sps pps a rec"
    and "video_input (sl_flv S) avpacket f3 v3 (avcc k [nal])" "avc_nalu (sl_avc S) (avc_record_load (sl_avc S) body) = k"
    and "converts_slice (sl_avc S) a nal" "clean_nal nal" "is_idr nal" "length nal < 256 ^ k" "length nal < 2 ^ 31"
  shows "\<exists>s1 s2 s3 os c. rtmp_source_write S R (Some f1, None) (rtmp_source_create sid g) = Inr ([], s1)
    \<and> rtmp_source_write S R (Some f2, None) s1 = Inr ([], s2)
    \<and> rtmp_source_write S R (Some f3, None) s2 = Inr (os, s3)
    \<and> relaying a s3
    \<and> dm_video_decoder (so_demuxer s3) = Some \<lparr>h4_ch = Some c, h4_args = Some (avc_record_load (sl_avc S) body, 1)\<rparr>
    \<and> fst (rtmp_sink_safe_add_channel ch (so_rtmp_sink s3)) =
        [(ch, (Some (avc_config_message (fb_pts f3 + vt_cts v3) (fb_pts f3) rec), None)),
         (ch, (Some (slice_message (fb_pts f3 + vt_cts v3) (fb_pts f3) nal), None))]"
proof -
  obtain s1 c where 1: "rtmp_source_write S R (Some f1, None) (rtmp_source_create sid g) = Inr ([], s1)"
    "prepared (sl_avc S) s1" "dm_video_decoder (so_demuxer s1) = Some \<lparr>h4_ch = Some c, h4_args = None\<rparr>"
    using source_metadata [OF assms(1)] by blast
  obtain s2 where 2: "rtmp_source_write S R (Some f2, None) s1 = Inr ([], s2)" "prepared (sl_avc S) s2"
    "dm_video_decoder (so_demuxer s2) = Some \<lparr>h4_ch = Some c, h4_args = Some (avc_record_load (sl_avc S) body, 0)\<rparr>"
    using source_configuration [OF assms(2) 1(3,2)] by blast
  show ?thesis
    using 1(1) 2(1) source_key_picture [OF 2(2,3) assms(3,6-10,4,5), of R]
    by (fastforce simp: rtmp_sink_safe_add_channel_def)
qed

text \<open>
  Metadata, a configuration and a key picture with a composition time of 3. The parameter sets are those of
  the demonstration library; the saved record is \<open>[1, 2, 3]\<close>.
\<close>

definition beginning_libs :: "amf_meta \<Rightarrow> codec_option \<Rightarrow> (unit, nat) source_libs" where
  "beginning_libs md co =
     \<lparr>sl_flv = demo_flv,
      sl_avc = demo_avc\<lparr>h264_annexbtomp4 := \<lambda>a bs room vu.
        if bs = parameter_units [0x67, 1] [0x68] then (10, [], a, 0, 1)
        else (int (length bs), be_bytes 4 (length bs - 4) @ drop 4 bs, a, if is_idr (drop 4 bs) then 1 else 2, 0)\<rparr>,
      sl_aac = demo_aac,
      sl_amf = \<lparr>AMF_STRING = 2, amf_read_string = \<lambda>bs. Some (''onMetaData'', bs),
        amf_read_items = \<lambda>bs. md\<lparr>md_videocodecid := 7\<rparr>\<rparr>,
      sl_co0 = co, sl_aac0 = 0\<rparr>"

definition beginning :: "int \<Rightarrow> int \<Rightarrow> bytes \<Rightarrow> frame_buffer" where
  "beginning codec ts data = Fixed ((fixed_create_data data)\<lparr>ff_codec := codec, ff_pts := ts, ff_dts := ts\<rparr>)"

definition first_metadata :: frame_buffer where
  "first_metadata = beginning (tag_code Script) 0 [2]"

definition first_config :: frame_buffer where
  "first_config = beginning (tag_code Video) 0 [0x17, 0, 0, 0, 0, 1]"

definition first_picture :: frame_buffer where
  "first_picture = beginning (tag_code Video) 40 [0x17, 1, 0, 0, 3, 0, 0, 0, 2, 0x65, 0x88]"

lemma beginning_frames:
  "video_metadata (sl_amf (beginning_libs md co)) first_metadata"
  "video_input (sl_flv (beginning_libs md co)) sequence_header first_config \<lparr>vt_avpacket = 0, vt_cts = 0, vt_keyframe = 1\<rparr> [1]"
  "video_input (sl_flv (beginning_libs md co)) avpacket first_picture \<lparr>vt_avpacket = 1, vt_cts = 3, vt_keyframe = 1\<rparr>
     (avcc 4 [[0x65, 0x88]])"
  "avc_nalu (sl_avc (beginning_libs md co)) (avc_record_load (sl_avc (beginning_libs md co)) [1]) = 4"
  "fb_pts first_picture = 40"
  by (auto simp: video_metadata_def script_name_def script_string_def byte_at_def video_input_def sequence_header_def
      avpacket_def beginning_libs_def beginning_def first_metadata_def first_config_def first_picture_def demo_flv_def
      demo_avc_def be_value_def be_bytes_4 intro!: exI [of _ 5])

lemma beginning_sets:
  "converts_sets (sl_avc (beginning_libs md co)) (avc_record_load (sl_avc (beginning_libs md co)) [1])
     [0x67, 1] [0x68] () [1, 2, 3]"
  by (simp add: converts_sets_def beginning_libs_def demo_avc_def parameter_units_def start_code_def clean_nal_def
      h264_sps_pps_size_def kBufferSize_def kVideoTagSize_def)

lemma beginning_slice:
  "converts_slice (sl_avc (beginning_libs md co)) () [0x65, 0x88]" "clean_nal [0x65, 0x88]" "is_idr [0x65, 0x88]"
  by (auto simp: converts_slice_def beginning_libs_def parameter_units_def start_code_def clean_nal_def is_idr_def)

theorem stream_begins_witness:
  "\<exists>(S :: (unit, nat) source_libs) (R :: (nat, unit) rtp_lib) s1 s2 s3 os.
     rtmp_source_write S R (Some first_metadata, None) (rtmp_source_create ''live_a'' ssrc_start) = Inr ([], s1)
     \<and> rtmp_source_write S R (Some first_config, None) s1 = Inr ([], s2)
     \<and> rtmp_source_write S R (Some first_picture, None) s2 = Inr (os, s3)
     \<and> fst (rtmp_sink_safe_add_channel 4 (so_rtmp_sink s3)) =
         [(4, (Some (es_frame Video H264 1 43 40 [0x17, 0, 0, 0, 0, 1, 2, 3]), None)),
          (4, (Some (es_frame Video H264 1 43 40 [0x17, 1, 0, 0, 0, 0, 0, 0, 2, 0x65, 0x88]), None))]"
proof -
  fix md co and R :: "(nat, unit) rtp_lib"
  let ?S = "beginning_libs md co" and ?nal = "[0x65, 0x88] :: bytes"
  have messages: "slice_message 43 40 ?nal = es_frame Video H264 1 43 40 [0x17, 1, 0, 0, 0, 0, 0, 0, 2, 0x65, 0x88]"
    "avc_config_message 43 40 [1, 2, 3] = es_frame Video H264 1 43 40 [0x17, 0, 0, 0, 0, 1, 2, 3]"
    using beginning_slice(3) by (simp_all add: es_frame_def slice_message_def avc_config_message_def be_bytes_4)
  obtain s1 s2 s3 os where r:
    "rtmp_source_write ?S R (Some first_metadata, None) (rtmp_source_create ''live_a'' ssrc_start) = Inr ([], s1)"
    "rtmp_source_write ?S R (Some first_config, None) s1 = Inr ([], s2)"
    "rtmp_source_write ?S R (Some first_picture, None) s2 = Inr (os, s3)"
    "fst (rtmp_sink_safe_add_channel 4 (so_rtmp_sink s3)) =
        [(4, (Some (avc_config_message (40 + 3) 40 [1, 2, 3]), None)), (4, (Some (slice_message (40 + 3) 40 ?nal), None))]"
    using stream_begins [OF beginning_frames(1,2) beginning_sets beginning_frames(3,4) beginning_slice, of md co R "''live_a''"
        ssrc_start 4] beginning_frames(5) by auto
  show ?thesis
    using r by (intro exI [of _ ?S] exI [of _ R] exI [of _ s1] exI [of _ s2] exI [of _ s3] exI [of _ os])
      (simp add: messages)
qed

subsection \<open>From the publisher to the file of a viewer\<close>

text \<open>
  The messages that a packet becomes, and the bytes of the FLV tags that carry them.
\<close>

definition picture_messages :: "frame_buffer \<Rightarrow> video_tag \<Rightarrow> bytes list \<Rightarrow> frame_buffer list" where
  "picture_messages frame video nals =
     map (slice_message (fb_pts frame + vt_cts video) (fb_pts frame)) nals"

lemma received_messages:
  assumes "wf_chs chs" "ch \<in> set chs"
  shows "received ch (concat (map (\<lambda>nal. broadcast chs (f nal)) nals)) = map f nals"
  using assms by (induction nals) (simp_all add: received_broadcast)

text \<open>
  C5. A picture goes from its publisher to the viewers. When the publisher of a stream that is being
  relayed sends a packet of H.264 slices, nothing stops the server, the stream goes on being
  relayed, and every viewer over HTTP-FLV that has joined is sent, after the file header if these are
  its first bytes, one tag for each slice, in order, with the bytes of the slice and the key flag of
  its type. But each tag says that the picture is shown when it is decoded, at the publisher's
  decoding time plus its composition time: the order of decoding of pictures with a composition
  time is lost.
\<close>

theorem picture_reaches_viewer:
  assumes "relaying a s" "dm_video_decoder (so_demuxer s) = Some \<lparr>h4_ch = Some c, h4_args = Some (avc, flag)\<rparr>"
      "flag \<noteq> 0"
    and "\<forall>nal \<in> set nals. converts_slice (sl_avc S) a nal \<and> clean_nal nal \<and> length nal < 256 ^ k \<and> length nal < 2 ^ 31"
    and "fb_codec frame = tag_code Video" "drop n (fb_data frame) = avcc k nals"
    and "flv_video_tag_header_read (sl_flv S) (fb_data frame) = (int n, video)" "vt_avpacket video = avpacket"
      "avc_nalu (sl_avc S) avc = k"
    and viewer: "wf_chs (rk_chs (so_rtmp_sink s))" "ch \<in> set (rk_chs (so_rtmp_sink s))" "fl_conn t"
  shows "\<exists>os s' fs t'. rtmp_source_write S R (Some frame, None) s = Inr (os, s')
     \<and> relaying a s' \<and> so_demuxer s' = so_demuxer s \<and> rk_chs (so_rtmp_sink s') = rk_chs (so_rtmp_sink s)
     \<and> flv_run F (received ch (rtmp_part os)) t = Inr t' \<and> fl_conn t' \<and> fl_out t' = fl_out t @ fs
     \<and> concat (map fb_data fs) =
         (if fl_first_frame t then concat (map (flv_tag_bytes F) (picture_messages frame video nals))
          else flv_file F (picture_messages frame video nals))"
proof -
  obtain os s' where source: "rtmp_source_write S R (Some frame, None) s = Inr (os, s')"
    "rtmp_part os = concat (map (\<lambda>nal. broadcast (rk_chs (so_rtmp_sink s))
        (Some (slice_message (fb_pts frame + vt_cts video) (fb_pts frame) nal), None)) nals)"
    "rk_chs (so_rtmp_sink s') = rk_chs (so_rtmp_sink s)" "relaying a s'" "so_demuxer s' = so_demuxer s"
    using source_packet [OF assms(1-9), of R] by blast
  have "received ch (rtmp_part os) = map (\<lambda>f. (Some f, None)) (picture_messages frame video nals)"
    using received_messages [OF viewer(1,2)] by (simp add: source(2) picture_messages_def comp_def)
  moreover have "\<forall>f \<in> set (picture_messages frame video nals). wf_frame f"
    by (auto simp: picture_messages_def slice_message_def)
  ultimately show ?thesis using source flv_run_frames [OF viewer(3), of "picture_messages frame video nals" F] by auto
qed

text \<open>
  A library that converts slices, writers that mark what they write, a stream that is being relayed
  to the channel 4, and a packet with one slice and a composition time of 3.
\<close>

definition relay_libs :: "amf_lib \<Rightarrow> codec_option \<Rightarrow> (unit, nat) source_libs" where
  "relay_libs A co =
     \<lparr>sl_flv = demo_flv,
      sl_avc = demo_avc\<lparr>h264_annexbtomp4 := \<lambda>a bs room vu.
        (int (length bs), be_bytes 4 (length bs - 4) @ drop 4 bs, a, if is_idr (drop 4 bs) then 1 else 2, 0)\<rparr>,
      sl_aac = demo_aac, sl_amf = A, sl_co0 = co, sl_aac0 = 0\<rparr>"

definition mark_writers :: Flv_Forward_Session.flv_lib where
  "mark_writers =
     \<lparr>fw_header = (\<lambda>audio video n. replicate n 0x46), fw_tag_size = (\<lambda>n size. replicate n 0x53),
      fw_tag_header = (\<lambda>tag n. replicate n (ucast (ft_timestamp tag))), FLV_TYPE_AUDIO = 8, FLV_TYPE_VIDEO = 9\<rparr>"

definition relay_source :: "(unit, nat, unit) rtmp_source" where
  "relay_source = (rtmp_source_create ''live_a'' ssrc_start)
     \<lparr>so_demuxer := \<lparr>dm_ch = Some 0, dm_codec_cb = True,
        dm_video_decoder = Some \<lparr>h4_ch = Some 0, h4_args = Some ((), 1)\<rparr>, dm_audio_decoder = None\<rparr>,
      so_rtmp_sink := (rtmp_sink_create ''rtmp_live_a'')\<lparr>rk_chs := [4],
        rk_video_encoder := Some \<lparr>e4_ch = Some 0, e4_avc = (), e4_vcl = 0, e4_update = 0, e4_video_sequence_header = 1\<rparr>\<rparr>,
      so_rtsp_sink := (rtsp_sink_create ''rtsp_live_a'')\<lparr>
        sk_video_encoder := Some (rtsp_h264_encoder_create\<lparr>r4_ch := Some 0\<rparr>)\<rparr>\<rparr>"

definition relay_packet :: frame_buffer where
  "relay_packet = Fixed ((fixed_create_data [0x27, 1, 0, 0, 3, 0, 0, 0, 2, 0x41, 0x9A])
     \<lparr>ff_codec := tag_code Video, ff_pts := 40, ff_dts := 40\<rparr>)"

theorem picture_reaches_viewer_witness:
  "\<exists>S R os s' t'. rtmp_source_write S R (Some relay_packet, None) relay_source = Inr (os, s')
     \<and> flv_run mark_writers (received 4 (rtmp_part os)) (flv_session_create ''/live/a.flv'') = Inr t'
     \<and> concat (map fb_data (fl_out t')) =
         replicate 9 0x46 @ replicate 4 0x53
         @ replicate 11 43 @ [0x27, 1, 0, 0, 0, 0, 0, 0, 2, 0x41, 0x9A] @ replicate 4 0x53"
proof -
  fix A co R
  let ?S = "relay_libs A co" and ?nal = "[0x41, 0x9A] :: bytes" and ?t = "flv_session_create ''/live/a.flv''"
  let ?v = "\<lparr>vt_avpacket = 1, vt_cts = 3, vt_keyframe = 2\<rparr>"
  have ready: "relaying () relay_source" "rk_chs (so_rtmp_sink relay_source) = [4]"
    "dm_video_decoder (so_demuxer relay_source) = Some \<lparr>h4_ch = Some 0, h4_args = Some ((), 1)\<rparr>"
    by (simp_all add: relaying_def relay_source_def sends_slices_def)
  have slices: "\<forall>nal \<in> set [?nal]. converts_slice (sl_avc ?S) () nal \<and> clean_nal nal \<and> length nal < 256 ^ 4 \<and> length nal < 2 ^ 31"
    by (auto simp: converts_slice_def relay_libs_def start_code_def clean_nal_def)
  have packet: "fb_codec relay_packet = tag_code Video" "drop 5 (fb_data relay_packet) = avcc 4 [?nal]" "fb_pts relay_packet = 40"
    by (simp_all add: relay_packet_def be_bytes_4)
  have tag: "flv_video_tag_header_read (sl_flv ?S) (fb_data relay_packet) = (int 5, ?v)"
    "vt_avpacket ?v = avpacket" "avc_nalu (sl_avc ?S) () = 4"
    by (simp_all add: relay_libs_def demo_flv_def demo_avc_def relay_packet_def avpacket_def be_value_def)
  have viewer: "wf_chs (rk_chs (so_rtmp_sink relay_source))" "4 \<in> set (rk_chs (so_rtmp_sink relay_source))" "fl_conn ?t"
    by (simp_all add: ready(2) wf_chs_def flv_session_create_def)
  obtain os s' fs t' where "rtmp_source_write ?S R (Some relay_packet, None) relay_source = Inr (os, s')"
    "flv_run mark_writers (received 4 (rtmp_part os)) ?t = Inr t'" "fl_out t' = fl_out ?t @ fs"
    "concat (map fb_data fs) =
       (if fl_first_frame ?t then concat (map (flv_tag_bytes mark_writers) (picture_messages relay_packet ?v [?nal]))
        else flv_file mark_writers (picture_messages relay_packet ?v [?nal]))"
    using picture_reaches_viewer [OF ready(1,3) _ slices packet(1,2) tag viewer, of R mark_writers] by auto
  moreover have "flv_file mark_writers (picture_messages relay_packet ?v [?nal]) =
      replicate 9 0x46 @ replicate 4 0x53
         @ replicate 11 43 @ [0x27, 1, 0, 0, 0, 0, 0, 0, 2, 0x41, 0x9A] @ replicate 4 0x53"
    by (simp add: flv_file_def flv_tag_bytes_def picture_messages_def packet(3) slice_message_def mark_writers_def
        flv_tag_def be_bytes_4 is_idr_def)
  ultimately show ?thesis
    by (intro exI [of _ ?S] exI [of _ R] exI [of _ os] exI [of _ s'] exI [of _ t']) (simp add: flv_session_create_def)
qed

end
