(* ===== verification/Stream_Types.thy ===== *)
theory Stream_Types
  imports Relay
begin

text \<open>
  A stream as its sessions see it: everything that happens to a source (\<^verbatim>\<open>rtmp_source.cc\<close>) from its
  creation on, the messages of its publisher and the sessions that join and leave, and the type of
  what the sessions receive.
\<close>

datatype source_event =
    Publish delivery
  | Join_rtmp channel_ref
  | Leave_rtmp channel_ref
  | Join_rtsp channel_ref
  | Leave_rtsp channel_ref

fun source_event_step ::
  "('v, 'a) source_libs \<Rightarrow> ('a, 'c) rtp_lib \<Rightarrow> source_event \<Rightarrow> ('v, 'a, 'c) rtmp_source
   \<Rightarrow> (source_out list \<times> ('v, 'a, 'c) rtmp_source) outcome" where
  "source_event_step S R (Publish d) s = rtmp_source_write S R d s"
| "source_event_step S R (Join_rtmp ch) s =
     (let (os, rk) = rtmp_sink_safe_add_channel ch (so_rtmp_sink s)
      in Inr (map (\<lambda>(c, x). To_rtmp c x) os, s\<lparr>so_rtmp_sink := rk\<rparr>))"
| "source_event_step S R (Leave_rtmp ch) s =
     Inr ([], s\<lparr>so_rtmp_sink := rtmp_sink_safe_del_channel ch (so_rtmp_sink s)\<rparr>)"
| "source_event_step S R (Join_rtsp ch) s =
     (let (os, sk) = rtsp_sink_add_channel ch (so_rtsp_sink s)
      in Inr (map (\<lambda>(c, x). To_rtsp c x) os, s\<lparr>so_rtsp_sink := sk\<rparr>))"
| "source_event_step S R (Leave_rtsp ch) s =
     Inr ([], s\<lparr>so_rtsp_sink := rtsp_sink_del_channel ch (so_rtsp_sink s)\<rparr>)"

subsection \<open>The type of a message\<close>

definition media_message :: "frame_buffer \<Rightarrow> bool" where
  "media_message f \<longleftrightarrow>
     wf_frame f
     \<and> (fb_media f = tag_code Video \<and> fb_codec f = codec_code H264 \<and> fb_flag f \<in> {0, 1}
        \<or> fb_media f = tag_code Audio \<and> fb_codec f = codec_code Aac \<and> fb_flag f = 0)"

definition typed :: "frame_buffer \<Rightarrow> bool" where
  "typed f \<longleftrightarrow> media_message f \<and> 2 \<le> length (fb_data f)"

definition delivers :: "(frame_buffer \<Rightarrow> bool) \<Rightarrow> delivery \<Rightarrow> bool" where
  "delivers P d \<longleftrightarrow> (snd d = None \<longrightarrow> (\<exists>f. fst d = Some f \<and> P f))"

lemma delivers_simps [simp]:
  "delivers P (p, Some e)" "delivers P (Some f, None) \<longleftrightarrow> P f" "\<not> delivers P (None, None)"
  by (simp_all add: delivers_def)

lemma delivers_on_frame [simp]: "d \<in> set (on_frame ch f (Some e)) \<Longrightarrow> delivers P d"
  by (cases ch) simp_all

lemma media_message_es_frame [simp]:
  "media_message (es_frame Video H264 flag pts dts bs) \<longleftrightarrow> flag \<in> {0, 1}"
  "media_message (es_frame Audio Aac flag pts dts bs) \<longleftrightarrow> flag = 0"
  by (auto simp: media_message_def es_frame_def)

lemma media_message_packet [simp]: "media_message (video_packet_frame H264 pts dts vcl bs)"
  by (simp add: video_packet_frame_def media_message_def es_frame_def fixed_append_frame_def fixed_append_data_def Let_def)

lemma media_message_config: "video_config_frame H264 pts dts r rec = Inr f \<Longrightarrow> media_message f"
  by (auto simp: video_config_frame_def obind_eq_Inr)

lemma h264_encoder_typed:
  assumes "rtmp_h264_encoder_write L e d = Inr (ds, e')"
  shows "\<forall>x \<in> set ds. delivers media_message x"
  using assms
  by (cases "e4_ch e")
    (auto simp: rtmp_h264_encoder_write_def Let_def obind_eq_Inr on_frames_Some media_message_config
      split: prod.splits option.splits if_splits)

lemma aac_encoder_typed:
  assumes "rtmp_aac_encoder_write F L e d = Inr (ds, e')"
  shows "\<forall>x \<in> set ds. delivers media_message x"
  using assms
  by (cases "ea_ch e")
    (auto simp: rtmp_aac_encoder_write_def aac_config_frame_def Let_def obind_eq_Inr on_frames_Some case_prod_unfold
      split: option.splits if_splits)

subsection \<open>Folding over what an object delivers\<close>

lemma fold_typed:
  assumes "ofold (\<lambda>d (os, s). obind (step d s) (\<lambda>(os', s'). Inr (os @ os', s'))) ds (os, s) = Inr (os', s')"
    and "I s" "\<forall>y \<in> set os. Q y" "\<forall>d \<in> set ds. P d"
    and "\<And>d s os s'. step d s = Inr (os, s') \<Longrightarrow> P d \<Longrightarrow> I s \<Longrightarrow> I s' \<and> (\<forall>y \<in> set os. Q y)"
  shows "I s' \<and> (\<forall>y \<in> set os'. Q y)"
  using assms(1-4)
proof (induction ds arbitrary: s os)
  case Nil
  then show ?case by simp
next
  case (Cons d ds)
  then obtain os1 s1 where 1: "step d s = Inr (os1, s1)"
    and 2: "ofold (\<lambda>d (os, s). obind (step d s) (\<lambda>(os', s'). Inr (os @ os', s'))) ds (os @ os1, s1) = Inr (os', s')"
    by (auto simp: obind_eq_Inr)
  from assms(5) [OF 1] Cons.prems have "I s1 \<and> (\<forall>y \<in> set os1. Q y)" by simp
  with Cons.IH [OF 2] Cons.prems show ?case by auto
qed

lemma on_deliveries_typed:
  assumes "on_deliveries step ds s = Inr (os, s')" "I s" "\<forall>d \<in> set ds. P d"
    and "\<And>d s os s'. step d s = Inr (os, s') \<Longrightarrow> P d \<Longrightarrow> I s \<Longrightarrow> I s' \<and> (\<forall>y \<in> set os. Q y)"
  shows "I s' \<and> (\<forall>y \<in> set os. Q y)"
  using fold_typed [of step ds "[]" s os s' I Q P] assms by (auto simp: on_deliveries_def)

subsection \<open>The RTMP sink\<close>

definition rtmp_sink_typed :: "('v, 'a) rtmp_sink \<Rightarrow> bool" where
  "rtmp_sink_typed s \<longleftrightarrow>
     wf_chs (rk_chs s)
     \<and> (\<forall>e. rk_video_encoder s = Some e \<longrightarrow> e4_ch e \<noteq> None)
     \<and> (\<forall>e. rk_audio_encoder s = Some e \<longrightarrow> ea_ch e \<noteq> None)
     \<and> (\<forall>f. rk_video_config s = Some f \<longrightarrow> typed f) \<and> (\<forall>f. rk_audio_config s = Some f \<longrightarrow> typed f)
     \<and> (\<forall>f \<in> set (rk_gop_cache s). typed f)"

lemma byte_at_length: "byte_at bs i = Inr b \<Longrightarrow> i < length bs"
  by (simp add: byte_at_def split: if_splits)

lemma broadcast_typed: "delivers P d \<Longrightarrow> \<forall>y \<in> set (broadcast chs d). delivers P (snd y)"
  by (auto simp: broadcast_def)

lemma rtmp_on_frame_typed:
  assumes "rtmp_sink_on_frame d s = Inr (os, s')" "delivers media_message d" "rtmp_sink_typed s"
  shows "rtmp_sink_typed s' \<and> (\<forall>y \<in> set os. delivers typed (snd y))"
proof (cases "snd d")
  case (Some e)
  with assms show ?thesis
    by (cases d) (auto simp: rtmp_sink_on_frame_def broadcast_def split: option.splits)
next
  case None
  with assms(2) obtain f where d: "d = (Some f, None)" and f: "media_message f" by (cases d) (auto simp: delivers_def)
  from assms(1) f have "2 \<le> length (fb_data f)"
    by (auto simp: d rtmp_sink_on_frame_def rtmp_sink_on_video_frame_def rtmp_sink_on_audio_frame_def video_config_frame_p_def
        audio_config_frame_def obind_eq_Inr media_message_def dest!: byte_at_length)
  with f have "typed f" by (simp add: typed_def)
  with assms(1,3) show ?thesis
    by (auto simp: d rtmp_sink_on_frame_def rtmp_sink_on_video_frame_def rtmp_sink_on_audio_frame_def rtmp_sink_typed_def
        obind_eq_Inr broadcast_def split: if_splits)
qed

lemma rtmp_deliveries_typed:
  assumes "on_deliveries rtmp_sink_on_frame ds s = Inr (os, s')" "rtmp_sink_typed s"
    "\<forall>d \<in> set ds. delivers media_message d"
  shows "rtmp_sink_typed s' \<and> (\<forall>y \<in> set os. delivers typed (snd y))"
  by (rule on_deliveries_typed [where step = rtmp_sink_on_frame and P = "delivers media_message" and I = rtmp_sink_typed
        and Q = "\<lambda>y. delivers typed (snd y)", OF assms]) (rule rtmp_on_frame_typed)

lemma sink_video_typed:
  assumes "sink_video_write L d s = Inr (os, s')" "rtmp_sink_typed s"
  shows "rtmp_sink_typed s' \<and> (\<forall>y \<in> set os. delivers typed (snd y))"
proof (cases "rk_video_encoder s")
  case None
  with assms show ?thesis by (simp add: sink_video_write_def)
next
  case (Some e)
  with assms(1) obtain ds e' where e': "rtmp_h264_encoder_write L e d = Inr (ds, e')"
    and on: "on_deliveries rtmp_sink_on_frame ds (s\<lparr>rk_video_encoder := Some e'\<rparr>) = Inr (os, s')"
    by (auto simp: sink_video_write_def obind_eq_Inr)
  have "rtmp_sink_typed (s\<lparr>rk_video_encoder := Some e'\<rparr>)"
    using assms(2) Some h264_encoder.chan_kept [OF e'] by (simp add: rtmp_sink_typed_def)
  from rtmp_deliveries_typed [OF on this h264_encoder_typed [OF e']] show ?thesis .
qed

lemma sink_audio_typed:
  assumes "sink_audio_write F L d s = Inr (os, s')" "rtmp_sink_typed s"
  shows "rtmp_sink_typed s' \<and> (\<forall>y \<in> set os. delivers typed (snd y))"
proof (cases "rk_audio_encoder s")
  case None
  with assms show ?thesis by (simp add: sink_audio_write_def)
next
  case (Some e)
  with assms(1) obtain ds e' where e': "rtmp_aac_encoder_write F L e d = Inr (ds, e')"
    and on: "on_deliveries rtmp_sink_on_frame ds (s\<lparr>rk_audio_encoder := Some e'\<rparr>) = Inr (os, s')"
    by (auto simp: sink_audio_write_def obind_eq_Inr)
  have "rtmp_sink_typed (s\<lparr>rk_audio_encoder := Some e'\<rparr>)"
    using assms(2) Some aac_encoder.chan_kept [OF e'] by (simp add: rtmp_sink_typed_def)
  from rtmp_deliveries_typed [OF on this aac_encoder_typed [OF e']] show ?thesis .
qed

lemma rtmp_sink_write_typed:
  assumes "rtmp_sink_write F Lv La d s = Inr (os, s')" "rtmp_sink_typed s"
  shows "rtmp_sink_typed s' \<and> (\<forall>y \<in> set os. delivers typed (snd y))"
  using assms
  by (cases d)
    (fastforce simp: rtmp_sink_write_def obind_eq_Inr split: option.splits if_splits
      dest!: sink_video_typed sink_audio_typed)

lemma rtmp_sink_joins_typed:
  assumes "rtmp_sink_typed s"
  shows "rtmp_sink_typed (snd (rtmp_sink_safe_add_channel ch s))" "rtmp_sink_typed (rtmp_sink_safe_del_channel ch s)"
    "\<forall>y \<in> set (fst (rtmp_sink_safe_add_channel ch s)). delivers typed (snd y)"
  using assms
  by (cases "rk_video_config s"; cases "rk_audio_config s";
      auto simp: rtmp_sink_typed_def rtmp_sink_safe_add_channel_def rtmp_sink_safe_del_channel_def intro: wf_intros)+

lemma rtmp_add_codec_typed: "rtmp_sink_typed s \<Longrightarrow> rtmp_sink_typed (rtmp_sink_add_codec L aac0 codec s)"
  by (simp add: rtmp_sink_typed_def rtmp_sink_add_codec_def)

subsection \<open>The RTSP sink\<close>

definition rtsp_packet :: "frame_buffer \<Rightarrow> bool" where
  "rtsp_packet f \<longleftrightarrow> wf_frame f \<and> fb_media f \<in> {tag_code Video, tag_code Audio}"

definition rtsp_sink_typed :: "'c rtsp_sink \<Rightarrow> bool" where
  "rtsp_sink_typed s \<longleftrightarrow>
     wf_chs (sk_chs s)
     \<and> (\<forall>e. sk_video_encoder s = Some e \<longrightarrow> r4_ch e \<noteq> None)
     \<and> (\<forall>e. sk_audio_encoder s = Some e \<longrightarrow> ra_ch e \<noteq> None)"

lemma rtsp_packet_rtp_frame: "tag = Video \<or> tag = Audio \<Longrightarrow> rtsp_packet (rtp_frame tag p)"
  by (auto simp: rtsp_packet_def rtp_frame_def split: prod.split)

lemma encode_rtp_typed:
  "encode_rtp R tag ch ctx f ts = Inr (ds, ctx') \<Longrightarrow> tag = Video \<or> tag = Audio \<Longrightarrow>
   \<forall>d \<in> set ds. delivers rtsp_packet d"
  by (auto simp: encode_rtp_def obind_eq_Inr channel_deliver_def rtsp_packet_rtp_frame split: prod.splits if_splits)

lemma rtsp_h264_encoder_typed:
  assumes "rtsp_h264_encoder_write R d (e, g) = Inr (ds, e', g')"
  shows "r4_ch e' = r4_ch e \<and> (\<forall>x \<in> set ds. delivers rtsp_packet x)"
  using assms
  by (cases d)
    (auto simp: rtsp_h264_encoder_write_def Let_def obind_eq_Inr channel_deliver_def dest!: encode_rtp_typed
      split: prod.splits option.splits if_splits)

lemma rtsp_aac_encoder_typed:
  assumes "rtsp_aac_encoder_write R La d (e, g) = Inr (ds, e', g')"
  shows "ra_ch e' = ra_ch e \<and> (\<forall>x \<in> set ds. delivers rtsp_packet x)"
  using assms
  by (cases d)
    (auto simp: rtsp_aac_encoder_write_def aac_make_track_def Let_def obind_eq_Inr channel_deliver_def
      dest!: encode_rtp_typed split: prod.splits option.splits if_splits)

lemma rtsp_on_frame_typed:
  "rtsp_sink_on_frame d s = Inr (os, s') \<Longrightarrow> delivers rtsp_packet d \<Longrightarrow> rtsp_sink_typed s \<Longrightarrow>
   rtsp_sink_typed s' \<and> (\<forall>y \<in> set os. delivers rtsp_packet (snd y))"
  by (auto simp: rtsp_sink_on_frame_def broadcast_def)

lemma rtsp_deliveries_typed:
  assumes "on_deliveries rtsp_sink_on_frame ds s = Inr (os, s')" "rtsp_sink_typed s"
    "\<forall>d \<in> set ds. delivers rtsp_packet d"
  shows "rtsp_sink_typed s' \<and> (\<forall>y \<in> set os. delivers rtsp_packet (snd y))"
  by (rule on_deliveries_typed [where step = rtsp_sink_on_frame and P = "delivers rtsp_packet" and I = rtsp_sink_typed
        and Q = "\<lambda>y. delivers rtsp_packet (snd y)", OF assms]) (rule rtsp_on_frame_typed)

lemma rtsp_video_typed:
  assumes "rtsp_video_write R d (s, g) = Inr (os, s', g')" "rtsp_sink_typed s"
  shows "rtsp_sink_typed s' \<and> (\<forall>y \<in> set os. delivers rtsp_packet (snd y))"
proof (cases "sk_video_encoder s")
  case None
  with assms show ?thesis by (simp add: rtsp_video_write_def)
next
  case (Some e)
  with assms(1) obtain ds e' where e': "rtsp_h264_encoder_write R d (e, g) = Inr (ds, e', g')"
    and on: "on_deliveries rtsp_sink_on_frame ds (s\<lparr>sk_video_encoder := Some e'\<rparr>) = Inr (os, s')"
    by (auto simp: rtsp_video_write_def obind_eq_Inr)
  note kept = rtsp_h264_encoder_typed [OF e']
  have "rtsp_sink_typed (s\<lparr>sk_video_encoder := Some e'\<rparr>)" using assms(2) Some kept by (simp add: rtsp_sink_typed_def)
  from rtsp_deliveries_typed [OF on this] kept show ?thesis by blast
qed

lemma rtsp_audio_typed:
  assumes "rtsp_audio_write R La d (s, g) = Inr (os, s', g')" "rtsp_sink_typed s"
  shows "rtsp_sink_typed s' \<and> (\<forall>y \<in> set os. delivers rtsp_packet (snd y))"
proof (cases "sk_audio_encoder s")
  case None
  with assms show ?thesis by (simp add: rtsp_audio_write_def)
next
  case (Some e)
  with assms(1) obtain ds e' where e': "rtsp_aac_encoder_write R La d (e, g) = Inr (ds, e', g')"
    and on: "on_deliveries rtsp_sink_on_frame ds (s\<lparr>sk_audio_encoder := Some e'\<rparr>) = Inr (os, s')"
    by (auto simp: rtsp_audio_write_def obind_eq_Inr)
  note kept = rtsp_aac_encoder_typed [OF e']
  have "rtsp_sink_typed (s\<lparr>sk_audio_encoder := Some e'\<rparr>)" using assms(2) Some kept by (simp add: rtsp_sink_typed_def)
  from rtsp_deliveries_typed [OF on this] kept show ?thesis by blast
qed

lemma rtsp_sink_write_typed:
  assumes "rtsp_sink_write R La d (s, g) = Inr (os, s', g')" "rtsp_sink_typed s"
  shows "rtsp_sink_typed s' \<and> (\<forall>y \<in> set os. delivers rtsp_packet (snd y))"
  using assms
  by (cases d)
    (fastforce simp: rtsp_sink_write_def obind_eq_Inr split: option.splits if_splits
      dest!: rtsp_video_typed rtsp_audio_typed)

lemma rtsp_sink_joins_typed:
  assumes "rtsp_sink_typed s"
  shows "rtsp_sink_typed (snd (rtsp_sink_add_channel ch s))" "rtsp_sink_typed (rtsp_sink_del_channel ch s)"
  using assms
  by (auto simp: rtsp_sink_typed_def rtsp_sink_add_channel_def rtsp_sink_del_channel_def intro: wf_intros)

lemma rtsp_join_silent: "fst (rtsp_sink_add_channel ch s) = []"
  by (simp add: rtsp_sink_add_channel_def)

lemma rtsp_add_codec_typed: "rtsp_sink_typed s \<Longrightarrow> rtsp_sink_typed (rtsp_sink_add_codec codec s)"
  by (simp add: rtsp_sink_typed_def rtsp_sink_add_codec_def)

subsection \<open>The source\<close>

definition demuxer_typed :: "('v, 'a) rtmp_demuxer \<Rightarrow> bool" where
  "demuxer_typed s \<longleftrightarrow>
     dm_ch s \<noteq> None
     \<and> (\<forall>e. dm_video_decoder s = Some e \<longrightarrow> h4_ch e \<noteq> None)
     \<and> (\<forall>e. dm_audio_decoder s = Some e \<longrightarrow> ad_ch e \<noteq> None)"

definition source_typed :: "('v, 'a, 'c) rtmp_source \<Rightarrow> bool" where
  "source_typed s \<longleftrightarrow>
     demuxer_typed (so_demuxer s) \<and> rtmp_sink_typed (so_rtmp_sink s) \<and> rtsp_sink_typed (so_rtsp_sink s)"

definition sent_typed :: "source_out \<Rightarrow> bool" where
  "sent_typed y \<longleftrightarrow> (case y of To_rtmp c d \<Rightarrow> delivers typed d | To_rtsp c d \<Rightarrow> delivers rtsp_packet d)"

lemma sent_typed_simps [simp]:
  "sent_typed (To_rtmp c d) \<longleftrightarrow> delivers typed d" "sent_typed (To_rtsp c d) \<longleftrightarrow> delivers rtsp_packet d"
  by (simp_all add: sent_typed_def)

lemma source_typed_create: "source_typed (rtmp_source_create sid g)"
  by (simp add: source_typed_def demuxer_typed_def rtmp_sink_typed_def rtsp_sink_typed_def rtmp_source_create_def
      rtmp_sink_create_def rtsp_sink_create_def encoder_channel_def)

lemma wf_source_typed: "source_typed s \<Longrightarrow> wf_source s"
  by (simp add: source_typed_def demuxer_typed_def rtmp_sink_typed_def rtsp_sink_typed_def wf_source_def)

lemma demuxer_video_typed: "demuxer_video S d s = Inr (ds, s') \<Longrightarrow> demuxer_typed s \<Longrightarrow> demuxer_typed s'"
  by (auto simp: demuxer_video_def demuxer_typed_def obind_eq_Inr split: option.splits dest!: h264_decoder.chan_kept)

lemma demuxer_audio_typed: "demuxer_audio S d s = Inr (ds, s') \<Longrightarrow> demuxer_typed s \<Longrightarrow> demuxer_typed s'"
  by (auto simp: demuxer_audio_def demuxer_typed_def obind_eq_Inr split: option.splits dest!: aac_decoder.chan_kept)

lemma demuxer_script_typed:
  assumes "demuxer_script A co0 aac0 f s = Inr (cs, s')" "demuxer_typed s"
  shows "demuxer_typed s'"
proof -
  from assms(1) obtain r where r: "script_name A (fb_data f) = Inr r" by (auto simp: demuxer_script_def obind_eq_Inr)
  show ?thesis
  proof (cases "\<exists>rest. r = Some (''onMetaData'', rest)")
    case True
    with r assms(1) have "dm_ch s' = dm_ch s"
      "\<forall>e. dm_video_decoder s' = Some e \<longrightarrow> h4_ch e = dm_ch s"
      "\<forall>e. dm_audio_decoder s' = Some e \<longrightarrow> ad_ch e = dm_ch s"
      by (auto simp: demuxer_script_def Let_def)
    with assms(2) show ?thesis by (auto simp: demuxer_typed_def)
  next
    case False
    with r assms(1) have "s' = s" by (auto simp: demuxer_script_def split: option.splits if_splits)
    with assms(2) show ?thesis by simp
  qed
qed

lemma demuxer_write_typed:
  assumes "rtmp_demuxer_write S d s = Inr (cs, ds, s')" "demuxer_typed s"
  shows "demuxer_typed s'"
  using assms
  by (cases d)
    (auto simp: rtmp_demuxer_write_def obind_eq_Inr split: option.splits if_splits
      intro: demuxer_video_typed demuxer_audio_typed demuxer_script_typed)

lemma on_codec_typed: "source_typed s \<Longrightarrow> source_typed (rtmp_source_on_codec S codec s)"
  by (simp add: source_typed_def rtmp_source_on_codec_def rtmp_add_codec_typed rtsp_add_codec_typed)

lemma on_codecs_typed:
  "source_typed s \<Longrightarrow> source_typed (fold (\<lambda>(codec, op). rtmp_source_on_codec S codec) cs s)"
proof (induction cs arbitrary: s)
  case (Cons c cs)
  then show ?case by (cases c) (simp add: on_codec_typed)
qed simp

lemma source_on_frame_typed:
  assumes "rtmp_source_on_frame S R d s = Inr (os, s')" "source_typed s"
  shows "source_typed s' \<and> (\<forall>y \<in> set os. sent_typed y)"
proof -
  from assms(1) obtain os1 rk os2 sk g where
    1: "rtmp_sink_write (sl_flv S) (sl_avc S) (sl_aac S) d (so_rtmp_sink s) = Inr (os1, rk)" and
    2: "rtsp_sink_write R (sl_aac S) d (so_rtsp_sink s, so_ssrc s) = Inr (os2, sk, g)" and
    r: "os = map (\<lambda>(c, x). To_rtmp c x) os1 @ map (\<lambda>(c, x). To_rtsp c x) os2"
      "s' = s\<lparr>so_rtmp_sink := rk, so_rtsp_sink := sk, so_ssrc := g\<rparr>"
    by (auto simp: rtmp_source_on_frame_def obind_eq_Inr)
  from rtmp_sink_write_typed [OF 1] rtsp_sink_write_typed [OF 2] assms(2)
  show ?thesis by (auto simp: r source_typed_def)
qed

lemma source_write_typed:
  assumes "rtmp_source_write S R d s = Inr (os, s')" "source_typed s"
  shows "source_typed s' \<and> (\<forall>y \<in> set os. sent_typed y)"
proof -
  let ?on = "\<lambda>cs (s :: ('a, 'b, 'c) rtmp_source). fold (\<lambda>(codec, op). rtmp_source_on_codec S codec) cs s"
  from assms(1) obtain cs ds dm where dm: "rtmp_demuxer_write S d (so_demuxer s) = Inr (cs, ds, dm)"
    and run: "ofold (\<lambda>x (os, t). obind (rtmp_source_on_frame S R x t) (\<lambda>(os', t'). Inr (os @ os', t')))
        ds ([], ?on cs (s\<lparr>so_demuxer := dm\<rparr>)) = Inr (os, s')"
    by (auto simp: rtmp_source_write_def Let_def obind_eq_Inr)
  have "source_typed (s\<lparr>so_demuxer := dm\<rparr>)" using demuxer_write_typed [OF dm] assms(2) by (simp add: source_typed_def)
  then have "source_typed (?on cs (s\<lparr>so_demuxer := dm\<rparr>))" by (rule on_codecs_typed)
  then show ?thesis
    by (rule fold_typed [where step = "rtmp_source_on_frame S R" and P = "\<lambda>_. True" and I = source_typed and Q = sent_typed,
          OF run]) (simp_all add: source_on_frame_typed)
qed

lemma source_event_typed:
  assumes "source_event_step S R e s = Inr (os, s')" "source_typed s"
  shows "source_typed s' \<and> (\<forall>y \<in> set os. sent_typed y)"
proof (cases e)
  case (Publish d)
  with assms show ?thesis by (simp add: source_write_typed)
next
  case (Join_rtmp ch)
  with assms have s: "os = map (\<lambda>z. To_rtmp (fst z) (snd z)) (fst (rtmp_sink_safe_add_channel ch (so_rtmp_sink s)))"
      "s' = s\<lparr>so_rtmp_sink := snd (rtmp_sink_safe_add_channel ch (so_rtmp_sink s))\<rparr>"
    and sink: "rtmp_sink_typed (so_rtmp_sink s)"
    by (simp_all add: Let_def case_prod_unfold source_typed_def)
  show ?thesis
    using rtmp_sink_joins_typed(1,3) [OF sink, of ch] assms(2) by (simp add: s source_typed_def)
qed (use assms in \<open>auto simp: source_typed_def Let_def case_prod_unfold rtmp_sink_joins_typed
      rtsp_sink_joins_typed rtsp_join_silent\<close>)

lemma source_run_typed:
  assumes "run_steps (source_event_step S R) es s = Inr (os, s')" "source_typed s"
  shows "source_typed s' \<and> (\<forall>y \<in> set os. sent_typed y)"
  using assms by (rule run_steps_invariant) (rule source_event_typed)

text \<open>
  C7. What sessions receive is well typed. Whatever a publisher sends and whichever sessions join and
  leave, from the creation of the source on, every message that an RTMP or FLV session is given, also
  from what is kept for those who join later, is an H.264 video message with a key flag of 0 or 1 or an AAC audio
  message, long enough for the tag that the sessions look at, and every packet of an RTSP session is
  of the video or of the audio; no session is ever given nothing, neither a frame nor an error. All decoders and
  encoders of the source have their channels, and no session is joined twice.
\<close>

theorem sessions_get_typed_messages:
  assumes "run_steps (source_event_step S R) es (rtmp_source_create sid g) = Inr (os, s)"
  shows "wf_source s \<and> wf_chs (rk_chs (so_rtmp_sink s)) \<and> wf_chs (sk_chs (so_rtsp_sink s))
    \<and> (\<forall>c f. To_rtmp c (Some f, None) \<in> set os \<longrightarrow> typed f)
    \<and> (\<forall>c f. To_rtsp c (Some f, None) \<in> set os \<longrightarrow> rtsp_packet f)
    \<and> (\<forall>c. To_rtmp c (None, None) \<notin> set os \<and> To_rtsp c (None, None) \<notin> set os)"
proof -
  have "source_typed s \<and> (\<forall>y \<in> set os. sent_typed y)" using assms source_typed_create by (rule source_run_typed)
  then show ?thesis by (auto simp: wf_source_typed source_typed_def rtmp_sink_typed_def rtsp_sink_typed_def)
qed

text \<open>A stream begins, with a viewer who joined before the key picture.\<close>

theorem sessions_get_typed_messages_witness:
  "\<exists>(S :: (unit, nat) source_libs) (R :: (nat, unit) rtp_lib) os s.
     run_steps (source_event_step S R) [Publish (Some first_metadata, None), Publish (Some first_config, None), Join_rtmp 4,
       Publish (Some first_picture, None)] (rtmp_source_create ''live_a'' ssrc_start) = Inr (os, s)
     \<and> wf_source s
     \<and> To_rtmp 4 (Some (es_frame Video H264 1 43 40 [0x17, 1, 0, 0, 0, 0, 0, 0, 2, 0x65, 0x88]), None) \<in> set os
     \<and> typed (es_frame Video H264 1 43 40 [0x17, 1, 0, 0, 0, 0, 0, 0, 2, 0x65, 0x88])"
proof -
  fix md co and R :: "(nat, unit) rtp_lib"
  let ?S = "beginning_libs md co" and ?nal = "[0x65, 0x88] :: bytes"
  have message: "slice_message 43 40 ?nal = es_frame Video H264 1 43 40 [0x17, 1, 0, 0, 0, 0, 0, 0, 2, 0x65, 0x88]"
    using beginning_slice(3) by (simp add: es_frame_def slice_message_def be_bytes_4)
  obtain s1 c where 1: "rtmp_source_write ?S R (Some first_metadata, None) (rtmp_source_create ''live_a'' ssrc_start) = Inr ([], s1)"
    "prepared (sl_avc ?S) s1" "dm_video_decoder (so_demuxer s1) = Some \<lparr>h4_ch = Some c, h4_args = None\<rparr>"
    using source_metadata [OF beginning_frames(1)] by blast
  obtain s2 where 2: "rtmp_source_write ?S R (Some first_config, None) s1 = Inr ([], s2)" "prepared (sl_avc ?S) s2"
    "dm_video_decoder (so_demuxer s2) = Some \<lparr>h4_ch = Some c, h4_args = Some (avc_record_load (sl_avc ?S) [1], 0)\<rparr>"
    using source_configuration [OF beginning_frames(2) 1(3,2)] by blast
  let ?joined = "rtmp_sink_safe_add_channel 4 (so_rtmp_sink s2)"
  let ?s2 = "s2\<lparr>so_rtmp_sink := snd ?joined\<rparr>"
  have joined: "prepared (sl_avc ?S) ?s2" "4 \<in> set (rk_chs (so_rtmp_sink ?s2))"
    "dm_video_decoder (so_demuxer ?s2) = Some \<lparr>h4_ch = Some c, h4_args = Some (avc_record_load (sl_avc ?S) [1], 0)\<rparr>"
    using 2(2,3) by (simp_all add: prepared_def rtmp_sink_safe_add_channel_def)
  obtain os s3 where 3: "rtmp_source_write ?S R (Some first_picture, None) ?s2 = Inr (os, s3)"
    "(4, (Some (slice_message 43 40 ?nal), None)) \<in> set (rtmp_part os)"
    using source_key_picture [OF joined(1,3) beginning_sets beginning_slice _ _ beginning_frames(3,4), of R] joined(2)
    by (auto simp: beginning_frames(5) broadcast_def)
  from 1(1) 2(1) 3(1) have run: "run_steps (source_event_step ?S R) [Publish (Some first_metadata, None), Publish (Some first_config, None),
      Join_rtmp 4, Publish (Some first_picture, None)] (rtmp_source_create ''live_a'' ssrc_start) =
      Inr (map (\<lambda>(c, x). To_rtmp c x) (fst ?joined) @ os, s3)"
    by (simp add: case_prod_unfold Let_def)
  have "To_rtmp 4 (Some (slice_message 43 40 ?nal), None) \<in> set os"
    using 3(2) by (auto simp: rtmp_part_def split: source_out.splits)
  with sessions_get_typed_messages [OF run] run show ?thesis unfolding message [symmetric] by fastforce
qed

end
