(* ===== verification/Gb28181.thy ===== *)
theory Gb28181
  imports Registry
begin

text \<open>
  The unfinished ingest of GB28181 streams: the session (\<^verbatim>\<open>gb28181_publish_session.cc\<close>), which takes
  a connection and drops what it reads, the demuxer of RTP packets (\<^verbatim>\<open>gb28181_rtp_demuxer.cc\<close>), and the
  demuxer of program streams and the source (\<^verbatim>\<open>gb28181_ps_demuxer.cc\<close>, \<^verbatim>\<open>gb28181_demuxer.cc\<close>,
  \<^verbatim>\<open>gb28181_source.cc\<close>), whose operations on frames are empty. Nothing creates these objects yet.

  librtp is a parameter: what it reads from the bytes of a packet, and its queue. A packet does not
  own its payload: it points into the bytes that it was read from.
\<close>

subsection \<open>The demuxer of RTP packets\<close>

text \<open>The payload is a range of the bytes that were parsed.\<close>

record rtp_packet =
  rp_timestamp :: u32
  rp_payload_off :: nat
  rp_payload_len :: nat

record 'q rtp_queue_lib =
  rq_deserialize :: "bytes \<Rightarrow> rtp_packet option"
  rq_write :: "rtp_packet \<Rightarrow> 'q \<Rightarrow> int \<times> 'q"
  rq_read :: "'q \<Rightarrow> rtp_packet option \<times> 'q"

record ('q, 's) gb28181_rtp_demuxer =
  gr_id :: string
  gr_ch :: "'s channel option"
  gr_data :: bytes
  gr_queue :: 'q

definition kGB28181RtpTcpPrefixSize :: nat where
  "kGB28181RtpTcpPrefixSize = 2"

definition gb_rtp_create :: "string \<Rightarrow> 'q \<Rightarrow> ('q, 's) gb28181_rtp_demuxer" where
  "gb_rtp_create ident queue = \<lparr>gr_id = ident, gr_ch = None, gr_data = [], gr_queue = queue\<rparr>"

definition gb_rtp_set_channel :: "'s channel option \<Rightarrow> ('q, 's) gb28181_rtp_demuxer \<Rightarrow> ('q, 's) gb28181_rtp_demuxer" where
  "gb_rtp_set_channel ch d = d\<lparr>gr_ch := ch\<rparr>"

definition gb_rtp_on_frame ::
  "frame_ptr \<Rightarrow> error_code option \<Rightarrow> ('q, 's) gb28181_rtp_demuxer \<times> 's \<Rightarrow> ('q, 's) gb28181_rtp_demuxer \<times> 's" where
  "gb_rtp_on_frame frame ec ds =
     (case gr_ch (fst ds) of None \<Rightarrow> ds | Some ch \<Rightarrow> (fst ds, channel_write ch frame ec (snd ds)))"

text \<open>
  \<^verbatim>\<open>erase\<close> at the front of a vector invalidates every pointer into it, and each packet that is
  read from the queue was written to it before such an \<^verbatim>\<open>erase\<close>. So a payload that is not empty
  is read through an invalid pointer.
\<close>

definition gb_rtp_payload :: "rtp_packet \<Rightarrow> bytes outcome" where
  "gb_rtp_payload pkt = (if rp_payload_len pkt = 0 then Inr [] else Inl Out_of_bounds)"

definition gb_rtp_write ::
  "'q rtp_queue_lib \<Rightarrow> frame_buffer \<Rightarrow> ('q, 's) gb28181_rtp_demuxer \<times> 's
     \<Rightarrow> (('q, 's) gb28181_rtp_demuxer \<times> 's) outcome" where
  "gb_rtp_write L frame ds =
     (let (d0, s) = ds; data = gr_data d0 @ fb_data frame; d = d0\<lparr>gr_data := data\<rparr>
      in if length data < kGB28181RtpTcpPrefixSize then Inr (d, s)
         else
           let n = unat (data ! 0) * 256 + unat (data ! 1)
           in if length data < n + kGB28181RtpTcpPrefixSize then Inr (d, s)
              else
                case rq_deserialize L (take n (drop kGB28181RtpTcpPrefixSize data)) of
                  None \<Rightarrow> Inr (gb_rtp_on_frame (Some frame) (Some Ec_protocol_error) (d, s))
                | Some pkt \<Rightarrow>
                    let d1 = d\<lparr>gr_data := drop (kGB28181RtpTcpPrefixSize + n) data\<rparr>;
                        (ret, q1) = rq_write L pkt (gr_queue d1);
                        (next, q2) = rq_read L q1;
                        d2 = d1\<lparr>gr_queue := q2\<rparr>
                    in case next of
                         None \<Rightarrow> Inl Null_deref
                       | Some pkt1 \<Rightarrow>
                           obind (gb_rtp_payload pkt1) (\<lambda>payload.
                             let f = Fixed ((fixed_create_data payload)
                               \<lparr>ff_pts := int (unat (rp_timestamp pkt1)), ff_dts := int (unat (rp_timestamp pkt1))\<rparr>)
                             in Inr (gb_rtp_on_frame (Some f) None (d2, s))))"

subsection \<open>The objects whose operations on frames are empty\<close>

record 's gb28181_ps_demuxer =
  gp_id :: string
  gp_ch :: "'s channel option"

definition gb_ps_on_frame :: "frame_ptr \<Rightarrow> error_code option \<Rightarrow> 's gb28181_ps_demuxer \<Rightarrow> 's \<Rightarrow> 's" where
  "gb_ps_on_frame frame ec d s = (case gp_ch d of None \<Rightarrow> s | Some ch \<Rightarrow> channel_write ch frame ec s)"

definition gb_ps_write :: "frame_ptr \<Rightarrow> 's gb28181_ps_demuxer \<times> 's \<Rightarrow> 's gb28181_ps_demuxer \<times> 's" where
  "gb_ps_write frame ds = ds"

definition gb_ps_create :: "string \<Rightarrow> 's gb28181_ps_demuxer" where
  "gb_ps_create ident = \<lparr>gp_id = ident, gp_ch = None\<rparr>"

definition gb_ps_set_channel :: "'s channel option \<Rightarrow> 's gb28181_ps_demuxer \<Rightarrow> 's gb28181_ps_demuxer" where
  "gb_ps_set_channel ch d = d\<lparr>gp_ch := ch\<rparr>"

text \<open>The callback for codecs is kept and never called.\<close>

record ('s, 'cb) gb28181_demuxer =
  gd_id :: string
  gd_ch :: "'s channel option"
  gd_codec_cb :: "'cb option"

definition gb_demuxer_create :: "string \<Rightarrow> ('s, 'cb) gb28181_demuxer" where
  "gb_demuxer_create ident = \<lparr>gd_id = ident, gd_ch = None, gd_codec_cb = None\<rparr>"

definition gb_demuxer_set_channel :: "'s channel option \<Rightarrow> ('s, 'cb) gb28181_demuxer \<Rightarrow> ('s, 'cb) gb28181_demuxer" where
  "gb_demuxer_set_channel ch d = d\<lparr>gd_ch := ch\<rparr>"

definition gb_demuxer_on_codec :: "'cb \<Rightarrow> ('s, 'cb) gb28181_demuxer \<Rightarrow> ('s, 'cb) gb28181_demuxer" where
  "gb_demuxer_on_codec cb d = d\<lparr>gd_codec_cb := Some cb\<rparr>"

definition gb_demuxer_write :: "frame_ptr \<Rightarrow> error_code option \<Rightarrow> 's \<Rightarrow> 's" where
  "gb_demuxer_write frame ec s = (if ec \<noteq> None then s else s)"

record 's gb28181_source =
  go_id :: string
  go_ch :: "'s channel option"

definition gb_source_on_frame :: "'s output_cb" where
  "gb_source_on_frame frame ec s = s"

definition gb_source_create :: "string \<Rightarrow> 's gb28181_source" where
  "gb_source_create ident =
     \<lparr>go_id = ident, go_ch = Some (channel_set_output gb_source_on_frame \<lparr>ch_output = None\<rparr>)\<rparr>"

definition gb_source_set_channel :: "'s channel option \<Rightarrow> 's gb28181_source \<Rightarrow> 's gb28181_source" where
  "gb_source_set_channel ch d = d\<lparr>go_ch := ch\<rparr>"

subsection \<open>The session\<close>

record gb28181_publish_session =
  gs_conn :: bool
  gs_started :: bool
  gs_shutdowns :: nat

definition gb_session_create :: gb28181_publish_session where
  "gb_session_create = \<lparr>gs_conn = True, gs_started = False, gs_shutdowns = 0\<rparr>"

definition gb_start :: "gb28181_publish_session \<Rightarrow> gb28181_publish_session outcome" where
  "gb_start s = (if gs_conn s then Inr (s\<lparr>gs_started := True\<rparr>) else Inl Null_deref)"

definition gb_shutdown :: "gb28181_publish_session \<Rightarrow> gb28181_publish_session" where
  "gb_shutdown s = s\<lparr>gs_shutdowns := gs_shutdowns s + 1\<rparr>"

definition gb_on_write :: "error_code option \<Rightarrow> gb28181_publish_session \<Rightarrow> gb28181_publish_session" where
  "gb_on_write ec s = (if ec \<noteq> None then gb_shutdown s else s)"

definition gb_on_read :: "frame_ptr \<Rightarrow> error_code option \<Rightarrow> gb28181_publish_session \<Rightarrow> gb28181_publish_session" where
  "gb_on_read frame ec s = (if ec \<noteq> None then gb_shutdown s else s)"

definition gb_safe_shutdown :: "gb28181_publish_session \<Rightarrow> gb28181_publish_session" where
  "gb_safe_shutdown s = (if gs_conn s then s\<lparr>gs_conn := False\<rparr> else s)"

subsection \<open>What becomes of a stream of RTP packets\<close>

definition gb_rtp_run ::
  "'q rtp_queue_lib \<Rightarrow> frame_buffer list \<Rightarrow> ('q, 's) gb28181_rtp_demuxer \<times> 's
     \<Rightarrow> (('q, 's) gb28181_rtp_demuxer \<times> 's) outcome" where
  "gb_rtp_run L = ofold (gb_rtp_write L)"

text \<open>The packet at the front of the cache is there in full.\<close>

definition gb_front :: "bytes \<Rightarrow> bytes option" where
  "gb_front data =
     (case data of
        a # b # rest \<Rightarrow>
          (let n = unat a * 256 + unat b in if length rest < n then None else Some (take n rest))
      | _ \<Rightarrow> None)"

lemma gb_front_append: "gb_front data = Some pkt \<Longrightarrow> gb_front (data @ rest) = Some pkt"
  by (auto simp: gb_front_def Let_def split: list.splits if_splits)

lemma gb_rtp_write_front:
  "gb_rtp_write L frame (d, s) =
     (let data = gr_data d @ fb_data frame
      in case gb_front data of
           None \<Rightarrow> Inr (d\<lparr>gr_data := data\<rparr>, s)
         | Some bs \<Rightarrow>
             case rq_deserialize L bs of
               None \<Rightarrow> Inr (gb_rtp_on_frame (Some frame) (Some Ec_protocol_error) (d\<lparr>gr_data := data\<rparr>, s))
             | Some pkt \<Rightarrow>
                 case rq_read L (snd (rq_write L pkt (gr_queue d))) of
                   (None, q) \<Rightarrow> Inl Null_deref
                 | (Some pkt1, q) \<Rightarrow>
                     if rp_payload_len pkt1 \<noteq> 0 then Inl Out_of_bounds
                     else Inr (gb_rtp_on_frame (Some (Fixed (fixed_create
                         \<lparr>ff_pts := int (unat (rp_timestamp pkt1)), ff_dts := int (unat (rp_timestamp pkt1))\<rparr>))) None
                       (d\<lparr>gr_data := drop (2 + length bs) data, gr_queue := q\<rparr>, s)))"
proof -
  obtain data where data: "gr_data d @ fb_data frame = data" by simp
  note defs = gb_front_def kGB28181RtpTcpPrefixSize_def gb_rtp_payload_def fixed_create_data_def fixed_create_def
  show ?thesis
  proof (cases "\<exists>a b rest. data = a # b # rest")
    case False
    then have "length data < 2" by (cases data; cases "tl data") auto
    moreover have "gb_front data = None" using False by (auto simp: gb_front_def split: list.split)
    ultimately show ?thesis
      unfolding gb_rtp_write_def prod.case data Let_def by (simp add: kGB28181RtpTcpPrefixSize_def)
  next
    case True
    then obtain a b rest where "data = a # b # rest" by blast
    then show ?thesis
      unfolding gb_rtp_write_def prod.case data Let_def
      by (auto simp: defs case_prod_unfold split: option.split prod.split)
  qed
qed

text \<open>
  A packet that cannot be parsed stays at the front of the cache, so that from then on the demuxer
  reports an error for each frame that it is given, and nothing else.
\<close>

lemma gb_rtp_stuck:
  assumes "gb_front (gr_data d) = Some bs" "rq_deserialize L bs = None"
  shows "gb_rtp_run L frames (d, s) =
    Inr (d\<lparr>gr_data := gr_data d @ concat (map fb_data frames)\<rparr>,
      fold (\<lambda>frame s. snd (gb_rtp_on_frame (Some frame) (Some Ec_protocol_error) (d, s))) frames s)"
  using assms
proof (induction frames arbitrary: d s)
  case (Cons frame frames)
  let ?d = "d\<lparr>gr_data := gr_data d @ fb_data frame\<rparr>"
  have front: "gb_front (gr_data ?d) = Some bs" using gb_front_append [OF Cons.prems(1)] by simp
  have chan: "snd (gb_rtp_on_frame f e (d\<lparr>gr_data := data\<rparr>, s)) = snd (gb_rtp_on_frame f e (d, s))"
    "fst (gb_rtp_on_frame f e (d\<lparr>gr_data := data\<rparr>, s)) = d\<lparr>gr_data := data\<rparr>" for f e s data
    by (simp_all add: gb_rtp_on_frame_def split: option.split)
  have "gb_rtp_write L frame (d, s) =
      Inr (?d, snd (gb_rtp_on_frame (Some frame) (Some Ec_protocol_error) (d, s)))"
    using front Cons.prems(2) chan by (simp add: gb_rtp_write_front prod_eq_iff)
  moreover have "(\<lambda>frame s. snd (gb_rtp_on_frame (Some frame) (Some Ec_protocol_error) (?d, s))) =
      (\<lambda>frame s. snd (gb_rtp_on_frame (Some frame) (Some Ec_protocol_error) (d, s)))"
    by (simp add: chan(1))
  ultimately show ?case using Cons.IH [OF front Cons.prems(2)] by (simp add: gb_rtp_run_def)
qed (simp add: gb_rtp_run_def)

text \<open>No frame with a payload ever leaves the demuxer.\<close>

lemma gb_rtp_no_media:
  assumes "gb_rtp_write L frame (d, s) = Inr (d', s')"
  shows "s' = s \<or> (\<exists>ch f e. gr_ch d = Some ch \<and> s' = channel_write ch (Some f) e s \<and> (e = None \<longrightarrow> fb_data f = []))"
proof (cases "gr_ch d")
  case None
  with assms show ?thesis
    by (auto simp: gb_rtp_write_front Let_def gb_rtp_on_frame_def split: option.splits prod.splits if_splits)
next
  case (Some ch)
  let ?data = "gr_data d @ fb_data frame"
  show ?thesis
  proof (cases "gb_front ?data")
    case None
    with assms show ?thesis by (simp add: gb_rtp_write_front)
  next
    case front: (Some bs)
    show ?thesis
    proof (cases "rq_deserialize L bs")
      case None
      with assms front Some show ?thesis by (auto simp: gb_rtp_write_front gb_rtp_on_frame_def)
    next
      case pkt: (Some pkt)
      obtain next_pkt q where "rq_read L (snd (rq_write L pkt (gr_queue d))) = (next_pkt, q)" by fastforce
      with assms front pkt Some obtain f where "s' = channel_write ch (Some f) None s" "fb_data f = []"
        by (auto simp: gb_rtp_write_front gb_rtp_on_frame_def split: option.splits if_splits)
      with Some show ?thesis by blast
    qed
  qed
qed

end
