(* ===== verification/Host_Info.thy ===== *)
theory Host_Info
  imports Text_Util "HOL-Library.Signed_Division"
begin

text \<open>
  What the server asks of its host: the clock (\<^verbatim>\<open>timestamp.h\<close>, \<^verbatim>\<open>timestamp.cc\<close>) with the text that
  it prints for an instant, and the addresses of a socket (\<^verbatim>\<open>socket.cc\<close>). The reading of the clock and the
  end points that the operating system reports are inputs.
\<close>

subsection \<open>Time stamps\<close>

definition kMicroSecondsPerSecond :: int where "kMicroSecondsPerSecond = 1000 * 1000"
definition kMicroSecondsPerMilli :: int where "kMicroSecondsPerMilli = 1000"

type_synonym timestamp = int

definition ts_microseconds :: "timestamp \<Rightarrow> int" where
  "ts_microseconds t = t"

definition ts_milliseconds :: "timestamp \<Rightarrow> int" where
  "ts_milliseconds t = t sdiv kMicroSecondsPerMilli"

definition ts_seconds :: "timestamp \<Rightarrow> int" where
  "ts_seconds t = t sdiv kMicroSecondsPerSecond"

text \<open>\<open>sec\<close> and \<open>usec\<close> are what \<^verbatim>\<open>gettimeofday\<close> gives.\<close>

definition ts_now :: "int \<Rightarrow> int \<Rightarrow> timestamp" where
  "ts_now sec usec = sec * kMicroSecondsPerSecond + usec"

text \<open>\<^verbatim>\<open>gmtime_r\<close> of the C library, in the Gregorian calendar.\<close>

record tm =
  tm_year :: int
  tm_mon :: int
  tm_mday :: int
  tm_hour :: int
  tm_min :: int
  tm_sec :: int

definition civil_of_days :: "int \<Rightarrow> int \<times> int \<times> int" where
  "civil_of_days days =
     (let z = days + 719468; era = z div 146097; doe = z mod 146097;
          yoe = (doe - doe div 1460 + doe div 36524 - doe div 146096) div 365;
          doy = doe - (365 * yoe + yoe div 4 - yoe div 100);
          mp = (5 * doy + 2) div 153;
          month = (if mp < 10 then mp + 3 else mp - 9)
      in (yoe + era * 400 + (if month \<le> 2 then 1 else 0), month, doy - (153 * mp + 2) div 5 + 1))"

definition gmtime :: "int \<Rightarrow> tm" where
  "gmtime seconds =
     (let (year, month, day) = civil_of_days (seconds div 86400); rest = seconds mod 86400
      in \<lparr>tm_year = year - 1900, tm_mon = month - 1, tm_mday = day,
          tm_hour = rest div 3600, tm_min = rest mod 3600 div 60, tm_sec = rest mod 60\<rparr>)"

text \<open>\<^verbatim>\<open>%0wd\<close> and \<^verbatim>\<open>%wd\<close>: a minus sign goes before the zeros and after the blanks.\<close>

definition print_zeros :: "nat \<Rightarrow> int \<Rightarrow> string" where
  "print_zeros w i =
     (if i < 0 then CHR ''-'' # pad_left (w - 1) (CHR ''0'') (show_nat (nat (- i)))
      else pad_left w (CHR ''0'') (show_nat (nat i)))"

definition print_blanks :: "nat \<Rightarrow> int \<Rightarrow> string" where
  "print_blanks w i = pad_left w (CHR '' '') (show_int i)"

definition format_time :: "int \<Rightarrow> bool \<Rightarrow> bool \<Rightarrow> string" where
  "format_time microseconds mill micro =
     (let t = gmtime (microseconds sdiv kMicroSecondsPerSecond);
          date = print_blanks 4 (tm_year t + 1900) @ print_zeros 2 (tm_mon t + 1) @ print_zeros 2 (tm_mday t);
          time = print_zeros 2 (tm_hour t) @ '':'' @ print_zeros 2 (tm_min t) @ '':'' @ print_zeros 2 (tm_sec t);
          fraction = microseconds smod kMicroSecondsPerSecond
      in take 63 (date @ '' '' @ time @
           (if micro then ''.'' @ print_zeros 6 fraction
            else if mill then ''.'' @ print_zeros 3 (fraction sdiv kMicroSecondsPerMilli)
            else [])))"

definition fmt_micro_string :: "timestamp \<Rightarrow> string" where
  "fmt_micro_string t = format_time t False True"

definition fmt_milli_string :: "timestamp \<Rightarrow> string" where
  "fmt_milli_string t = format_time t True False"

definition fmt_second_string :: "timestamp \<Rightarrow> string" where
  "fmt_second_string t = format_time t False False"

lemma ts_units:
  assumes "0 \<le> sec" "0 \<le> usec" "usec < 1000000"
  shows "ts_seconds (ts_now sec usec) = sec" "ts_milliseconds (ts_now sec usec) = sec * 1000 + usec div 1000"
proof -
  have "(sec * 1000000 + usec) div 1000 = sec * 1000 + usec div 1000"
    using div_mult_self1 [of 1000 usec "sec * 1000"] by (simp add: add.commute)
  moreover have "x sdiv y = x div y" if "0 \<le> x" "0 < y" for x y :: int
    using that by (cases "x = 0") (simp_all add: signed_divide_int_def)
  ultimately show "ts_seconds (ts_now sec usec) = sec" "ts_milliseconds (ts_now sec usec) = sec * 1000 + usec div 1000"
    using assms
    by (simp_all add: ts_seconds_def ts_milliseconds_def ts_now_def kMicroSecondsPerSecond_def kMicroSecondsPerMilli_def)
qed

lemma leap_day_printed: "fmt_milli_string (ts_now 951782399 999999) = ''20000228 23:59:59.999''"
  "fmt_second_string (ts_now 951782400 0) = ''20000229 00:00:00''"
  by code_simp+

subsection \<open>Addresses of sockets\<close>

text \<open>
  The text of an address is \<open>None\<close> when \<^verbatim>\<open>to_string\<close> fails, an end point when the socket is not
  connected. A socket belongs to an \<^verbatim>\<open>io_context\<close>, here a number.
\<close>

record endpoint =
  ep_ip :: "string option"
  ep_port :: u16

record socket =
  so_io :: nat
  so_fd :: "nat option"
  so_local :: "endpoint option"
  so_remote :: "endpoint option"

definition get_endpoint_address :: "endpoint \<Rightarrow> string" where
  "get_endpoint_address ed =
     (case ep_ip ed of None \<Rightarrow> [] | Some ip \<Rightarrow> ip @ '':'' @ show_nat (unat (ep_port ed)))"

definition get_socket_local_ip :: "socket \<Rightarrow> string" where
  "get_socket_local_ip s =
     (case so_local s of None \<Rightarrow> [] | Some ed \<Rightarrow> case ep_ip ed of None \<Rightarrow> [] | Some ip \<Rightarrow> ip)"

definition get_socket_local_port :: "socket \<Rightarrow> u16" where
  "get_socket_local_port s = (case so_local s of None \<Rightarrow> 0 | Some ed \<Rightarrow> ep_port ed)"

definition get_socket_remote_ip :: "socket \<Rightarrow> string" where
  "get_socket_remote_ip s =
     (case so_remote s of None \<Rightarrow> [] | Some ed \<Rightarrow> case ep_ip ed of None \<Rightarrow> [] | Some ip \<Rightarrow> ip)"

definition get_socket_remote_port :: "socket \<Rightarrow> u16" where
  "get_socket_remote_port s = (case so_remote s of None \<Rightarrow> 0 | Some ed \<Rightarrow> ep_port ed)"

definition get_socket_local_address :: "socket \<Rightarrow> string" where
  "get_socket_local_address s = (case so_local s of None \<Rightarrow> [] | Some ed \<Rightarrow> get_endpoint_address ed)"

definition get_socket_remote_address :: "socket \<Rightarrow> string" where
  "get_socket_remote_address s = (case so_remote s of None \<Rightarrow> [] | Some ed \<Rightarrow> get_endpoint_address ed)"

text \<open>
  \<open>released\<close> is what \<^verbatim>\<open>release\<close> gives for the old socket: its descriptor, with which the end points go to
  the new one, or nothing.
\<close>

definition change_socket_io_context :: "nat option \<Rightarrow> socket \<Rightarrow> nat \<Rightarrow> socket" where
  "change_socket_io_context released sock io =
     (case released of
        None \<Rightarrow> \<lparr>so_io = io, so_fd = None, so_local = None, so_remote = None\<rparr>
      | Some fd \<Rightarrow> \<lparr>so_io = io, so_fd = Some fd, so_local = so_local sock, so_remote = so_remote sock\<rparr>)"

text \<open>An address is the text of the IP address with the port after it, or empty.\<close>

lemma address_parts:
  "get_socket_remote_address s = [] \<or>
     get_socket_remote_address s = get_socket_remote_ip s @ '':'' @ show_nat (unat (get_socket_remote_port s))"
  by (auto simp: get_socket_remote_address_def get_socket_remote_ip_def get_socket_remote_port_def
      get_endpoint_address_def split: option.splits)

end
