(* ===== verification/Startup.thy ===== *)
theory Startup
  imports Execution Http_Session
begin

text \<open>
  The process (\<^verbatim>\<open>main.cc\<close>) with the helpers it is made of: \<^verbatim>\<open>scoped_exit.h\<close>, \<^verbatim>\<open>singleton.h\<close>,
  \<^verbatim>\<open>log.cc\<close> and \<^verbatim>\<open>error.cc\<close>. The results of the system calls, the size of the machine and the times at which the
  main thread wakes up are inputs; spdlog is the list of the calls made to it.
\<close>

subsection \<open>Code that runs when a scope is left\<close>

text \<open>
  The callback is its effect, whether it returns or throws: the destructor catches everything. The
  move assignment is never instantiated and left out.
\<close>

record 's scoped_exit =
  sx_callback :: "'s \<Rightarrow> 's"
  sx_canceled :: bool

definition make_scoped_exit :: "('s \<Rightarrow> 's) \<Rightarrow> 's scoped_exit" where
  "make_scoped_exit c = \<lparr>sx_callback = c, sx_canceled = False\<rparr>"

text \<open>The move constructor: the new object and the one it was moved from.\<close>

definition scoped_exit_move :: "'s scoped_exit \<Rightarrow> 's scoped_exit \<times> 's scoped_exit" where
  "scoped_exit_move mv =
     (\<lparr>sx_callback = sx_callback mv, sx_canceled = sx_canceled mv\<rparr>, mv\<lparr>sx_canceled := True\<rparr>)"

definition scoped_exit_cancel :: "'s scoped_exit \<Rightarrow> 's scoped_exit" where
  "scoped_exit_cancel x = x\<lparr>sx_canceled := True\<rparr>"

definition scoped_exit_destroy :: "'s scoped_exit \<Rightarrow> 's \<Rightarrow> 's" where
  "scoped_exit_destroy x s = (if \<not> sx_canceled x then sx_callback x s else s)"

text \<open>However often a guard is moved, the callback runs once.\<close>

lemma moved_guard_runs_once:
  "(case scoped_exit_move x of (y, old) \<Rightarrow> scoped_exit_destroy old (scoped_exit_destroy y s)) = scoped_exit_destroy x s"
  by (simp add: scoped_exit_move_def scoped_exit_destroy_def)

subsection \<open>Singletons\<close>

record 't singleton =
  sg_flag :: bool
  sg_value :: "'t option"
  sg_atexit :: nat

definition singleton_create :: "'t singleton" where
  "singleton_create = \<lparr>sg_flag = False, sg_value = None, sg_atexit = 0\<rparr>"

definition singleton_init :: "'t \<Rightarrow> 't singleton \<Rightarrow> 't singleton" where
  "singleton_init new s = s\<lparr>sg_value := Some new, sg_atexit := sg_atexit s + 1\<rparr>"

definition singleton_instance :: "'t \<Rightarrow> 't singleton \<Rightarrow> ('t \<times> 't singleton) outcome" where
  "singleton_instance new s =
     (let s1 = (if sg_flag s then s else (singleton_init new s)\<lparr>sg_flag := True\<rparr>)
      in case sg_value s1 of None \<Rightarrow> Inl Null_deref | Some v \<Rightarrow> Inr (v, s1))"

definition singleton_destroy :: "'t singleton \<Rightarrow> 't singleton" where
  "singleton_destroy s = s\<lparr>sg_value := None\<rparr>"

text \<open>The object is not made again: after the exit handlers it must not be used.\<close>

lemma instance_after_destroy:
  "singleton_instance new s = Inr (v, s1) \<Longrightarrow> singleton_instance new (singleton_destroy s1) = Inl Null_deref"
  by (auto simp: singleton_instance_def singleton_destroy_def singleton_init_def Let_def split: option.splits if_splits)

subsection \<open>The log\<close>

datatype log_sink = Stdout_color_sink | Rotating_file_sink string nat nat

datatype log_call =
    Set_default_logger "log_sink list"
  | Flush_every nat
  | Set_pattern string
  | Set_level_debug
  | Logger_flush
  | Spdlog_shutdown

text \<open>Boost's paths: the canonical path of a file, its directory and its last element.\<close>

record path_lib =
  fs_canonical :: "string \<Rightarrow> string"
  fs_parent_path :: "string \<Rightarrow> string"
  fs_filename :: "string \<Rightarrow> string"

definition make_log_path :: "path_lib \<Rightarrow> string \<Rightarrow> string" where
  "make_log_path L app =
     (let app_path = fs_canonical L app;
          app_dir = fs_parent_path L app_path;
          app_name = fs_filename L app_path;
          log_dir = app_dir @ ''/log'';
          log_file = app_name @ ''.log''
      in log_dir @ ''/'' @ log_file)"

definition init_log :: "path_lib \<Rightarrow> string \<Rightarrow> log_call list" where
  "init_log L app =
     [Set_default_logger [Stdout_color_sink, Rotating_file_sink (make_log_path L app) (50 * 1024 * 1024) 5],
      Flush_every 3, Set_pattern ''%Y%m%d %T.%f %t %L %v %s:%#'', Set_level_debug]"

definition shutdown_log :: "log_call list" where
  "shutdown_log = [Logger_flush, Spdlog_shutdown]"

text \<open>
  The text of an error number. \<open>strerror_r\<close> gives the text that the GNU function returns, or the result of the
  other one with what it wrote into the buffer.
\<close>

definition errno_to_str :: "bool \<Rightarrow> (int \<Rightarrow> string) \<Rightarrow> (int \<Rightarrow> int \<times> string) \<Rightarrow> int \<Rightarrow> string" where
  "errno_to_str gnu strerror_gnu strerror_r errno =
     (if gnu then strerror_gnu errno
      else let (ret, buf) = strerror_r errno in if ret \<noteq> 0 then ''unknown error'' else buf)"

subsection \<open>The process\<close>

record process =
  pr_log :: "log_call list"
  pr_pool :: executors
  pr_signals :: nat
  pr_servers :: "tcp_server list"
  pr_cbs :: request_cbs
  pr_timers :: "timer_task_manger singleton"
  pr_fired :: "nat list"

text \<open>What parsing the address, opening, binding and listening say, for one server.\<close>

type_synonym open_results = "error_code option \<times> error_code option \<times> error_code option \<times> error_code option"

definition server_specs :: "(u16 \<times> string) list" where
  "server_specs =
     [(1935, ''rtmp publish''), (1936, ''rtmp forward''), (8554, ''rtsp forward''), (8081, ''http service'')]"

definition start_server :: "u16 \<times> string \<Rightarrow> open_results \<Rightarrow> process \<Rightarrow> process outcome" where
  "start_server spec res s =
     (let (port, name) = spec; (address_ec, open_ec, bind_ec, listen_ec) = res
      in obind (get_executor (pr_pool s)) (\<lambda>(io, pool).
         obind (tcp_server_run address_ec open_ec bind_ec listen_ec (tcp_server_create port name io pool)) (\<lambda>sv.
           Inr (s\<lparr>pr_servers := pr_servers s @ [sv], pr_pool := sv_pool sv\<rparr>))))"

fun start_servers :: "((u16 \<times> string) \<times> open_results) list \<Rightarrow> process \<Rightarrow> process outcome" where
  "start_servers [] s = Inr s"
| "start_servers ((spec, res) # rest) s = obind (start_server spec res s) (start_servers rest)"

text \<open>The loop of the main thread: it wakes up at the times \<open>ticks\<close> until it sees that it is to stop.\<close>

fun main_loop :: "(nat \<Rightarrow> timer_task_manger \<Rightarrow> timer_task_manger) \<Rightarrow> u64 list \<Rightarrow> process \<Rightarrow> process outcome" where
  "main_loop cb [] s = Inr s"
| "main_loop cb (now_ms # ticks) s =
     obind (singleton_instance timer_create (pr_timers s)) (\<lambda>(tm, sg).
       let (fired, freed, left, tm') = timer_update cb now_ms tm
       in main_loop cb ticks (s\<lparr>pr_timers := sg\<lparr>sg_value := Some tm'\<rparr>, pr_fired := pr_fired s @ fired\<rparr>))"

text \<open>Leaving the scope of \<^verbatim>\<open>main\<close>: the pool is destroyed, then the guard of the log.\<close>

definition main_leave :: "process scoped_exit \<Rightarrow> int \<Rightarrow> process \<Rightarrow> int \<times> process" where
  "main_leave defer code s = (code, scoped_exit_destroy defer (s\<lparr>pr_pool := executors_stop (pr_pool s)\<rparr>))"

definition main_run ::
  "(nat \<Rightarrow> timer_task_manger \<Rightarrow> timer_task_manger) \<Rightarrow> open_results list \<Rightarrow> u64 list \<Rightarrow> process \<Rightarrow> process outcome" where
  "main_run cb opens ticks s =
     obind (start_servers (zip server_specs opens) s) (\<lambda>s.
     let s = s\<lparr>pr_cbs := register_api (pr_cbs s)\<rparr>
     in obind (singleton_instance timer_create (pr_timers s)) (\<lambda>(tm, sg).
     let s = s\<lparr>pr_timers := sg\<lparr>sg_value := Some (timer_start tm)\<rparr>, pr_pool := executors_run (pr_pool s)\<rparr>
     in obind (main_loop cb ticks s) (\<lambda>s.
     let s = s\<lparr>pr_pool := executors_stop (pr_pool s)\<rparr>
     in obind (singleton_instance timer_create (pr_timers s)) (\<lambda>(tm, sg).
        let (freed, tm') = timer_stop tm in Inr (s\<lparr>pr_timers := sg\<lparr>sg_value := Some tm'\<rparr>\<rparr>)))))"

definition process_main ::
  "path_lib \<Rightarrow> string \<Rightarrow> nat \<Rightarrow> error_code option \<Rightarrow> (nat \<Rightarrow> timer_task_manger \<Rightarrow> timer_task_manger)
   \<Rightarrow> open_results list \<Rightarrow> u64 list \<Rightarrow> process \<Rightarrow> (int \<times> process) outcome" where
  "process_main L argv0 hardware_concurrency signals_ec cb opens ticks s =
     (let s = s\<lparr>pr_log := pr_log s @ init_log L argv0\<rparr>;
          defer = make_scoped_exit (\<lambda>s. s\<lparr>pr_log := pr_log s @ shutdown_log\<rparr>);
          s = s\<lparr>pr_pool := executors_create hardware_concurrency\<rparr>
      in obind (get_executor (pr_pool s)) (\<lambda>(i, pool).
         let s = s\<lparr>pr_signals := i, pr_pool := pool\<rparr>
         in if signals_ec \<noteq> None then Inr (main_leave defer (- 1) s)
            else obind (main_run cb opens ticks s) (\<lambda>s. Inr (main_leave defer 0 s))))"

text \<open>The exit handlers.\<close>

definition process_exit :: "process \<Rightarrow> process" where
  "process_exit s = s\<lparr>pr_timers := (singleton_destroy ^^ sg_atexit (pr_timers s)) (pr_timers s)\<rparr>"

definition process_create :: process where
  "process_create = \<lparr>pr_log = [], pr_pool = executors_create 0, pr_signals = 0, pr_servers = [], pr_cbs = Map.empty,
     pr_timers = singleton_create, pr_fired = []\<rparr>"

subsection \<open>Which executors the servers get\<close>

text \<open>The pool is about to hand out the executor \<open>j\<close>, counted without end.\<close>

definition at_turn :: "nat \<Rightarrow> nat \<Rightarrow> executors \<Rightarrow> bool" where
  "at_turn n j p \<longleftrightarrow>
     0 < n \<and> n < 2 ^ 32 \<and> ex_size p = n \<and> unat (ex_index p) \<le> n \<and> unat (ex_index p) mod n = j mod n"

lemma get_executor_turn:
  assumes "at_turn n j p"
  shows "\<exists>p'. get_executor p = Inr (j mod n, p') \<and> at_turn n (Suc j) p'
    \<and> ex_works p' = ex_works p \<and> ex_threads p' = ex_threads p"
proof -
  let ?i = "if unat (ex_index p) = n then 0 else ex_index p"
  have p: "0 < n" "n < 2 ^ 32" "ex_size p = n" using assms by (auto simp: at_turn_def)
  have i: "unat ?i < n" "unat ?i = j mod n" using assms by (auto simp: at_turn_def mod_less split: if_splits)
  then have get: "get_executor p = Inr (j mod n, p\<lparr>ex_index := ?i + 1\<rparr>)" by (simp add: get_executor_def p Let_def)
  have "unat ?i < 2 ^ 32 - 1" using i(1) p(2) by simp
  then have "unat (?i + 1) = Suc (unat ?i)" by (simp add: unat_word_ariths del: if_split)
  with i p have "at_turn n (Suc j) (p\<lparr>ex_index := ?i + 1\<rparr>)" by (simp add: at_turn_def mod_Suc_eq Suc_le_eq del: if_split)
  with get show ?thesis by auto
qed

definition opened :: "open_results \<Rightarrow> bool" where
  "opened res \<longleftrightarrow> res = (None, None, None, None)"

text \<open>
  For each server the number of the executor of its acceptor; the session that waits for the first
  connection takes the next one, if the server could be opened.
\<close>

fun server_turns :: "nat \<Rightarrow> open_results list \<Rightarrow> nat list" where
  "server_turns j [] = []"
| "server_turns j (res # rest) = j # server_turns (if opened res then j + 2 else j + 1) rest"

definition served :: "nat \<Rightarrow> u16 \<times> string \<Rightarrow> open_results \<Rightarrow> nat \<Rightarrow> tcp_server \<Rightarrow> bool" where
  "served n spec res j sv \<longleftrightarrow>
     (sv_port sv, sv_name sv) = spec \<and> sv_io sv = j mod n \<and> sv_accepting sv = opened res \<and> sv_open sv = opened res
     \<and> (opened res \<longrightarrow> sv_next sv = Suc j mod n) \<and> sv_sessions sv = []"

lemma start_server_turn:
  assumes "at_turn n j (pr_pool s)"
  shows "\<exists>sv p. start_server spec res s = Inr (s\<lparr>pr_servers := pr_servers s @ [sv], pr_pool := p\<rparr>)
    \<and> served n spec res j sv \<and> at_turn n (if opened res then j + 2 else j + 1) p"
proof -
  obtain port name a o' b l where d: "spec = (port, name)" "res = (a, o', b, l)" by (cases spec; cases res)
  obtain p1 where 1: "get_executor (pr_pool s) = Inr (j mod n, p1)" "at_turn n (Suc j) p1"
    using get_executor_turn [OF assms] by blast
  obtain p2 where 2: "get_executor p1 = Inr (Suc j mod n, p2)" "at_turn n (Suc (Suc j)) p2"
    using get_executor_turn [OF 1(2)] by blast
  let ?sv = "tcp_server_open a o' b l (tcp_server_create port name (j mod n) p1)"
  have sv: "sv_pool ?sv = p1" "sv_open ?sv = opened res" "sv_port ?sv = port" "sv_name ?sv = name" "sv_io ?sv = j mod n"
    "sv_accepting ?sv = False" "sv_sessions ?sv = []"
    by (simp_all add: tcp_server_open_def tcp_server_create_def opened_def d)
  show ?thesis
  proof (cases "opened res")
    case True
    with sv(1,2) 2(1) have "tcp_server_run a o' b l (tcp_server_create port name (j mod n) p1) =
        Inr (?sv\<lparr>sv_count := sv_count ?sv + 1, sv_accepting := True, sv_next := Suc j mod n, sv_pool := p2\<rparr>)"
      by (simp add: tcp_server_run_def tcp_server_do_accept_def)
    with 1(1) 2(2) sv True show ?thesis
      by (intro exI [of _ "?sv\<lparr>sv_count := sv_count ?sv + 1, sv_accepting := True, sv_next := Suc j mod n, sv_pool := p2\<rparr>"]
          exI [of _ p2]) (simp add: start_server_def d served_def)
  next
    case False
    with sv(2) have "tcp_server_run a o' b l (tcp_server_create port name (j mod n) p1) = Inr ?sv"
      by (simp add: tcp_server_run_def tcp_server_do_accept_def)
    with 1 sv False show ?thesis
      by (intro exI [of _ ?sv] exI [of _ p1]) (simp add: start_server_def d served_def)
  qed
qed

lemma start_servers_turn:
  assumes "at_turn n j (pr_pool s)" "length specs = length opens"
  shows "\<exists>svs p. start_servers (zip specs opens) s = Inr (s\<lparr>pr_servers := pr_servers s @ svs, pr_pool := p\<rparr>)
    \<and> list_all2 (\<lambda>(spec, res, j) sv. served n spec res j sv) (zip specs (zip opens (server_turns j opens))) svs
    \<and> (\<exists>j'. at_turn n j' p)"
  using assms
proof (induction opens arbitrary: specs s j)
  case Nil
  then show ?case by (intro exI [of _ "[]"] exI [of _ "pr_pool s"]) auto
next
  case (Cons res opens)
  then obtain spec specs' where specs: "specs = spec # specs'" by (cases specs) auto
  obtain sv p where 1: "start_server spec res s = Inr (s\<lparr>pr_servers := pr_servers s @ [sv], pr_pool := p\<rparr>)"
    "served n spec res j sv" "at_turn n (if opened res then j + 2 else j + 1) p"
    using start_server_turn [OF Cons.prems(1)] by blast
  let ?s = "s\<lparr>pr_servers := pr_servers s @ [sv], pr_pool := p\<rparr>"
  obtain svs p' j' where 2: "start_servers (zip specs' opens) ?s = Inr (?s\<lparr>pr_servers := pr_servers ?s @ svs, pr_pool := p'\<rparr>)"
    "list_all2 (\<lambda>(spec, res, j) sv. served n spec res j sv)
      (zip specs' (zip opens (server_turns (if opened res then j + 2 else j + 1) opens))) svs" "at_turn n j' p'"
    using Cons.IH [of "if opened res then j + 2 else j + 1" ?s specs'] 1(3) Cons.prems(2) specs by auto
  from 1 2 show ?case by (intro exI [of _ "sv # svs"] exI [of _ p']) (auto simp: specs)
qed

subsection \<open>The life of the process\<close>

definition holds_timers :: "timer_task_manger \<Rightarrow> timer_task_manger singleton" where
  "holds_timers tm = \<lparr>sg_flag = True, sg_value = Some tm, sg_atexit = 1\<rparr>"

lemma holds_timers_simps [simp]:
  "singleton_instance new (holds_timers tm) = Inr (tm, holds_timers tm)"
  "(holds_timers tm)\<lparr>sg_value := Some tm'\<rparr> = holds_timers tm'"
  "singleton_instance new singleton_create = Inr (new, holds_timers new)"
  by (simp_all add: holds_timers_def singleton_instance_def singleton_init_def singleton_create_def)

lemma main_loop_run:
  "pr_timers s = holds_timers tm \<Longrightarrow>
   \<exists>tm'. main_loop cb ticks s =
     Inr (s\<lparr>pr_timers := holds_timers tm', pr_fired := pr_fired s @ timer_updates cb ticks tm\<rparr>)"
proof (induction ticks arbitrary: s tm)
  case Nil
  then show ?case by (intro exI [of _ tm]) simp
next
  case (Cons now ticks)
  obtain fired freed left tm1 where u: "timer_update cb now tm = (fired, freed, left, tm1)"
    by (cases "timer_update cb now tm")
  let ?s = "s\<lparr>pr_timers := holds_timers tm1, pr_fired := pr_fired s @ fired\<rparr>"
  obtain tm' where "main_loop cb ticks ?s =
      Inr (?s\<lparr>pr_timers := holds_timers tm', pr_fired := pr_fired ?s @ timer_updates cb ticks tm1\<rparr>)"
    using Cons.IH [of ?s tm1] by auto
  then show ?case using u Cons.prems by auto
qed

lemma timer_updates_created: "timer_updates cb ticks timer_create = []"
proof -
  have "timer_update cb now timer_create = ([], [], [], timer_create)" for now
    by (simp add: timer_update_def timer_create_def)
  then show ?thesis by (induction ticks) simp_all
qed

text \<open>What is left of the process when \<^verbatim>\<open>main\<close> has returned.\<close>

definition shut_down :: "path_lib \<Rightarrow> string \<Rightarrow> process \<Rightarrow> bool" where
  "shut_down L argv0 s \<longleftrightarrow>
     ex_threads (pr_pool s) = [] \<and> ex_works (pr_pool s) = [] \<and> ex_stopped (pr_pool s)
     \<and> pr_log s = init_log L argv0 @ shutdown_log"

lemma main_run_servers:
  assumes "at_turn n j (pr_pool s)" "length opens = 4" "pr_timers s = singleton_create" "pr_servers s = []"
  shows "\<exists>svs p tm. main_run cb opens ticks s =
      Inr (s\<lparr>pr_servers := svs, pr_cbs := register_api (pr_cbs s), pr_timers := holds_timers tm, pr_pool := executors_stop p\<rparr>)
    \<and> list_all2 (\<lambda>(spec, res, j) sv. served n spec res j sv) (zip server_specs (zip opens (server_turns j opens))) svs"
proof -
  have "length server_specs = length opens" by (simp add: assms(2) server_specs_def)
  from start_servers_turn [OF assms(1) this] assms(4) obtain svs p where
    svs: "start_servers (zip server_specs opens) s = Inr (s\<lparr>pr_servers := svs, pr_pool := p\<rparr>)"
    "list_all2 (\<lambda>(spec, res, j) sv. served n spec res j sv) (zip server_specs (zip opens (server_turns j opens))) svs"
    by auto
  let ?s = "s\<lparr>pr_servers := svs, pr_cbs := register_api (pr_cbs s), pr_timers := holds_timers timer_create,
    pr_pool := executors_run p\<rparr>"
  obtain tm where "main_loop cb ticks ?s = Inr (?s\<lparr>pr_timers := holds_timers tm\<rparr>)"
    using main_loop_run [of ?s timer_create cb ticks] by (auto simp: timer_updates_created)
  with svs assms(3) show ?thesis
    by (intro exI [of _ svs] exI [of _ "executors_run p"] exI [of _ tm])
      (simp add: main_run_def timer_start_def timer_stop_def Let_def)
qed

text \<open>
  C26. The life of the process. On a machine that reports no processor it ends in a read outside the empty pool,
  before anything is served and with its log open. On any other it returns: with -1 and no server if it
  cannot handle the signal, and otherwise with 0, after the four servers were started on their
  ports, the request handler entered and the pool run. A server that cannot be opened does not keep
  the others from serving. The acceptors and the sessions that wait take the executors of the pool in
  turn, after the one of the signal. However \<^verbatim>\<open>main\<close> is left, the threads are joined and the log is
  shut down, once and last; no timer ever calls anything, since nobody adds a task; and the timers are gone
  after the exit handlers.
\<close>

theorem process_life:
  assumes "length opens = 4" "n < 2 ^ 32"
  shows "if n = 0 then process_main L argv0 n signals_ec cb opens ticks process_create = Inl Out_of_bounds
    else \<exists>code s. process_main L argv0 n signals_ec cb opens ticks process_create = Inr (code, s)
      \<and> shut_down L argv0 s \<and> pr_fired s = [] \<and> sg_value (pr_timers (process_exit s)) = None
      \<and> (if signals_ec \<noteq> None then code = - 1 \<and> pr_servers s = []
         else code = 0 \<and> pr_cbs s = register_api Map.empty \<and> pr_signals s = 0
           \<and> list_all2 (\<lambda>(spec, res, j) sv. served n spec res j sv)
                (zip server_specs (zip opens (server_turns 1 opens))) (pr_servers s))"
proof (cases "n = 0")
  case True
  then show ?thesis by (simp add: process_main_def get_executor_def executors_create_def)
next
  case False
  let ?p = "executors_create n"
  have "at_turn n 0 ?p" using False assms(2) by (simp add: at_turn_def executors_create_def)
  from get_executor_turn [OF this] obtain p where p: "get_executor ?p = Inr (0, p)" "at_turn n 1 p" by auto
  let ?s = "process_create\<lparr>pr_log := init_log L argv0, pr_pool := p, pr_signals := 0\<rparr>"
  have s: "at_turn n 1 (pr_pool ?s)" "pr_timers ?s = singleton_create" "pr_servers ?s = []"
    using p(2) by (simp_all add: process_create_def)
  note left = process_main_def Let_def p(1) main_leave_def make_scoped_exit_def scoped_exit_destroy_def shut_down_def
    executors_stop_def process_exit_def process_create_def
  show ?thesis
  proof (cases signals_ec)
    case None
    obtain svs p' tm where "main_run cb opens ticks ?s =
        Inr (?s\<lparr>pr_servers := svs, pr_cbs := register_api (pr_cbs ?s), pr_timers := holds_timers tm, pr_pool := executors_stop p'\<rparr>)"
      "list_all2 (\<lambda>(spec, res, j) sv. served n spec res j sv) (zip server_specs (zip opens (server_turns 1 opens))) svs"
      using main_run_servers [OF s(1) assms(1) s(2,3)] by blast
    with None False show ?thesis by (simp add: left holds_timers_def singleton_destroy_def)
  next
    case (Some e)
    with False show ?thesis by (simp add: left singleton_create_def)
  qed
qed

text \<open>Three executors, and a second server whose port is taken.\<close>

theorem process_life_witness:
  "\<exists>L cb s. process_main L ''./simple_rtmp'' 3 None cb
       [(None, None, None, None), (None, None, Some (Ec_other 98), None), (None, None, None, None), (None, None, None, None)]
       [0, 30, 60] process_create = Inr (0, s)
     \<and> map sv_port (pr_servers s) = [1935, 1936, 8554, 8081]
     \<and> map sv_io (pr_servers s) = [1, 0, 1, 0] \<and> map sv_accepting (pr_servers s) = [True, False, True, True]"
proof -
  fix L cb
  let ?opens = "[(None, None, None, None), (None, None, Some (Ec_other 98), None), (None, None, None, None),
    (None, None, None, None)] :: open_results list"
  have "length ?opens = 4" "(3 :: nat) < 2 ^ 32" by simp_all
  from process_life [OF this, of L "''./simple_rtmp''" None cb "[0, 30, 60]"]
  obtain s where "process_main L ''./simple_rtmp'' 3 None cb ?opens [0, 30, 60] process_create = Inr (0, s)"
    "list_all2 (\<lambda>(spec, res, j) sv. served 3 spec res j sv)
       (zip server_specs (zip ?opens (server_turns 1 ?opens))) (pr_servers s)"
    by auto
  then show ?thesis
    by (intro exI [of _ L] exI [of _ cb] exI [of _ s])
      (auto simp: server_specs_def opened_def served_def list_all2_Cons1)
qed

end
