(* ===== verification/Http_Names.thy ===== *)
theory Http_Names
  imports Http_Parser
begin

text \<open>
  The names that \<^verbatim>\<open>http_parser.c\<close> gives to status codes and errors, with its version and the limit on the size of
  a header. The texts are those of the macros, whose arguments the preprocessor turns into strings with one
  blank between tokens that are apart in the source.
\<close>

definition http_status_map :: "(int \<times> string) list" where
  "http_status_map =
     [(100, ''Continue''),
      (101, ''Switching Protocols''),
      (102, ''Processing''),
      (200, ''OK''),
      (201, ''Created''),
      (202, ''Accepted''),
      (203, ''Non - Authoritative Information''),
      (204, ''No Content''),
      (205, ''Reset Content''),
      (206, ''Partial Content''),
      (207, ''Multi - Status''),
      (208, ''Already Reported''),
      (226, ''IM Used''),
      (300, ''Multiple Choices''),
      (301, ''Moved Permanently''),
      (302, ''Found''),
      (303, ''See Other''),
      (304, ''Not Modified''),
      (305, ''Use Proxy''),
      (307, ''Temporary Redirect''),
      (308, ''Permanent Redirect''),
      (400, ''Bad Request''),
      (401, ''Unauthorized''),
      (402, ''Payment Required''),
      (403, ''Forbidden''),
      (404, ''Not Found''),
      (405, ''Method Not Allowed''),
      (406, ''Not Acceptable''),
      (407, ''Proxy Authentication Required''),
      (408, ''Request Timeout''),
      (409, ''Conflict''),
      (410, ''Gone''),
      (411, ''Length Required''),
      (412, ''Precondition Failed''),
      (413, ''Payload Too Large''),
      (414, ''URI Too Long''),
      (415, ''Unsupported Media Type''),
      (416, ''Range Not Satisfiable''),
      (417, ''Expectation Failed''),
      (421, ''Misdirected Request''),
      (422, ''Unprocessable Entity''),
      (423, ''Locked''),
      (424, ''Failed Dependency''),
      (426, ''Upgrade Required''),
      (428, ''Precondition Required''),
      (429, ''Too Many Requests''),
      (431, ''Request Header Fields Too Large''),
      (451, ''Unavailable For Legal Reasons''),
      (500, ''Internal Server Error''),
      (501, ''Not Implemented''),
      (502, ''Bad Gateway''),
      (503, ''Service Unavailable''),
      (504, ''Gateway Timeout''),
      (505, ''HTTP Version Not Supported''),
      (506, ''Variant Also Negotiates''),
      (507, ''Insufficient Storage''),
      (508, ''Loop Detected''),
      (510, ''Not Extended''),
      (511, ''Network Authentication Required'')]"

definition http_status_str :: "int \<Rightarrow> string" where
  "http_status_str s = (case map_of http_status_map s of Some name \<Rightarrow> name | None \<Rightarrow> ''<unknown>'')"

text \<open>The table of the errors, which has a row for each value of the enumeration, so that the assertions hold.\<close>

primrec http_strerror_tab :: "http_errno \<Rightarrow> string \<times> string" where
  "http_strerror_tab HPE_OK = (''HPE_OK'', ''success'')"
| "http_strerror_tab HPE_CB_message_begin = (''HPE_CB_message_begin'', ''the on_message_begin callback failed'')"
| "http_strerror_tab HPE_CB_url = (''HPE_CB_url'', ''the on_url callback failed'')"
| "http_strerror_tab HPE_CB_header_field = (''HPE_CB_header_field'', ''the on_header_field callback failed'')"
| "http_strerror_tab HPE_CB_header_value = (''HPE_CB_header_value'', ''the on_header_value callback failed'')"
| "http_strerror_tab HPE_CB_headers_complete = (''HPE_CB_headers_complete'', ''the on_headers_complete callback failed'')"
| "http_strerror_tab HPE_CB_body = (''HPE_CB_body'', ''the on_body callback failed'')"
| "http_strerror_tab HPE_CB_message_complete = (''HPE_CB_message_complete'', ''the on_message_complete callback failed'')"
| "http_strerror_tab HPE_CB_status = (''HPE_CB_status'', ''the on_status callback failed'')"
| "http_strerror_tab HPE_CB_chunk_header = (''HPE_CB_chunk_header'', ''the on_chunk_header callback failed'')"
| "http_strerror_tab HPE_CB_chunk_complete = (''HPE_CB_chunk_complete'', ''the on_chunk_complete callback failed'')"
| "http_strerror_tab HPE_INVALID_EOF_STATE = (''HPE_INVALID_EOF_STATE'', ''stream ended at an unexpected time'')"
| "http_strerror_tab HPE_HEADER_OVERFLOW = (''HPE_HEADER_OVERFLOW'', ''too many header bytes seen; overflow detected'')"
| "http_strerror_tab HPE_CLOSED_CONNECTION = (''HPE_CLOSED_CONNECTION'', ''data received after completed connection: close message'')"
| "http_strerror_tab HPE_INVALID_VERSION = (''HPE_INVALID_VERSION'', ''invalid HTTP version'')"
| "http_strerror_tab HPE_INVALID_STATUS = (''HPE_INVALID_STATUS'', ''invalid HTTP status code'')"
| "http_strerror_tab HPE_INVALID_METHOD = (''HPE_INVALID_METHOD'', ''invalid HTTP method'')"
| "http_strerror_tab HPE_INVALID_URL = (''HPE_INVALID_URL'', ''invalid URL'')"
| "http_strerror_tab HPE_INVALID_HOST = (''HPE_INVALID_HOST'', ''invalid host'')"
| "http_strerror_tab HPE_INVALID_PORT = (''HPE_INVALID_PORT'', ''invalid port'')"
| "http_strerror_tab HPE_INVALID_PATH = (''HPE_INVALID_PATH'', ''invalid path'')"
| "http_strerror_tab HPE_INVALID_QUERY_STRING = (''HPE_INVALID_QUERY_STRING'', ''invalid query string'')"
| "http_strerror_tab HPE_INVALID_FRAGMENT = (''HPE_INVALID_FRAGMENT'', ''invalid fragment'')"
| "http_strerror_tab HPE_LF_EXPECTED = (''HPE_LF_EXPECTED'', ''LF character expected'')"
| "http_strerror_tab HPE_INVALID_HEADER_TOKEN = (''HPE_INVALID_HEADER_TOKEN'', ''invalid character in header'')"
| "http_strerror_tab HPE_INVALID_CONTENT_LENGTH = (''HPE_INVALID_CONTENT_LENGTH'', ''invalid character in content-length header'')"
| "http_strerror_tab HPE_UNEXPECTED_CONTENT_LENGTH = (''HPE_UNEXPECTED_CONTENT_LENGTH'', ''unexpected content-length header'')"
| "http_strerror_tab HPE_INVALID_CHUNK_SIZE = (''HPE_INVALID_CHUNK_SIZE'', ''invalid character in chunk size header'')"
| "http_strerror_tab HPE_INVALID_CONSTANT = (''HPE_INVALID_CONSTANT'', ''invalid constant string'')"
| "http_strerror_tab HPE_INVALID_INTERNAL_STATE = (''HPE_INVALID_INTERNAL_STATE'', ''encountered unexpected internal state'')"
| "http_strerror_tab HPE_STRICT = (''HPE_STRICT'', ''strict mode assertion failed'')"
| "http_strerror_tab HPE_PAUSED = (''HPE_PAUSED'', ''parser is paused'')"
| "http_strerror_tab HPE_UNKNOWN = (''HPE_UNKNOWN'', ''an unknown error occurred'')"
| "http_strerror_tab HPE_INVALID_TRANSFER_ENCODING = (''HPE_INVALID_TRANSFER_ENCODING'', ''request has invalid transfer-encoding'')"

definition http_errno_name :: "http_errno \<Rightarrow> string" where
  "http_errno_name err = fst (http_strerror_tab err)"

definition http_errno_description :: "http_errno \<Rightarrow> string" where
  "http_errno_description err = snd (http_strerror_tab err)"

definition http_parser_version :: "u64" where
  "http_parser_version = 2 * 0x10000 + 9 * 0x00100 + 4 * 0x00001"

text \<open>
  The limit is a variable of the file, which starts as \<open>HTTP_MAX_HEADER_SIZE\<close>. Nothing in the repository calls this
  function, and the parser is modelled with the initial value.
\<close>

definition http_parser_set_max_header_size :: "u32 \<Rightarrow> u32 \<Rightarrow> u32" where
  "http_parser_set_max_header_size new_size max_header_size = new_size"

subsection \<open>What the tables contain\<close>

lemma status_map_codes: "distinct (map fst http_status_map)" "\<forall>s \<in> set (map fst http_status_map). 100 \<le> s \<and> s < 512"
  by (simp_all add: http_status_map_def)

lemma status_known: "(s, name) \<in> set http_status_map \<Longrightarrow> http_status_str s = name"
  using status_map_codes(1) by (simp add: http_status_str_def)

lemma errno_named: "take 4 (http_errno_name err) = ''HPE_''"
  by (cases err) (simp_all add: http_errno_name_def)

text \<open>The version is read back as the comment in the header says.\<close>

lemma version_fields:
  "drop_bit 16 http_parser_version AND 255 = 2" "drop_bit 8 http_parser_version AND 255 = 9"
  "http_parser_version AND 255 = 4"
  by (simp_all add: http_parser_version_def)

text \<open>
  A name with a dash has become another one: the dash of the standard name is a token of its own in the macro.
\<close>

lemma dashes_are_spaced: "http_status_str 203 = ''Non - Authoritative Information''" "http_status_str 207 = ''Multi - Status''"
  by (simp_all add: http_status_str_def http_status_map_def)

end
