(* ===== verification/Session_Life.thy ===== *)
theory Session_Life
  imports Tcp_Connection
begin

text \<open>
  The life of a session and of the objects it shares: its connection, its channel and its
  context. They hold each other with \<^verbatim>\<open>std::shared_ptr\<close>, most of it inside
  \<^verbatim>\<open>std::bind(.., shared_from_this(), ..)\<close>, and each is destroyed when nothing holds it.

  \<open>life\<close> keeps the pointers of one session of any kind; the connection is the one of
  \<open>Tcp_Connection\<close>. The events are the handlers that executors and sockets run; what a handler
  does to the pointers is translated from \<^verbatim>\<open>start\<close>, \<^verbatim>\<open>shutdown\<close>, \<^verbatim>\<open>safe_shutdown\<close> and the destructor
  of each session. \<open>holders\<close> lists who holds an object, \<open>alive\<close> the objects that are not destroyed.
\<close>

datatype session_kind = Rtmp_player | Rtmp_publisher | Rtsp_player | Flv_player | Gb_publisher

text \<open>
  \<open>lf_conn\<close> and \<open>lf_channel\<close> say that \<^verbatim>\<open>conn_\<close> and \<^verbatim>\<open>channel_\<close> are set, \<open>lf_sink\<close> is the weak pointer
  \<^verbatim>\<open>sink_\<close>. Under way are the posted \<open>safe_shutdown\<close>s, the posted frames, the callbacks that wait for the
  tracks of a sink, and the requests to enter a channel in a sink (\<open>True\<close>) or to take it out. \<open>lf_sets\<close> are
  the sinks whose set has the channel, \<open>lf_gone\<close> the sinks that were destroyed.
\<close>

record life =
  lf_kind :: session_kind
  lf_tcp :: tcp_connection
  lf_conn :: bool
  lf_channel :: bool
  lf_sink :: "nat option"
  lf_posted :: nat
  lf_frames :: "frame_buffer list"
  lf_tracks :: nat
  lf_asked :: "(nat \<times> bool) list"
  lf_sets :: "nat list"
  lf_gone :: "nat list"

subsection \<open>The operations of a session\<close>

definition life_create :: "session_kind \<Rightarrow> life" where
  "life_create kind =
     \<lparr>lf_kind = kind, lf_tcp = tcp_create, lf_conn = True, lf_channel = False, lf_sink = None,
      lf_posted = 0, lf_frames = [], lf_tracks = 0, lf_asked = [], lf_sets = [], lf_gone = []\<rparr>"

definition life_shutdown :: "life \<Rightarrow> life" where
  "life_shutdown l = l\<lparr>lf_posted := lf_posted l + 1\<rparr>"

text \<open>
  \<^verbatim>\<open>add_channel\<close> and \<^verbatim>\<open>del_channel\<close>: an RTMP sink posts the change, an RTSP sink makes it at once.
  A null channel is no pointer to the channel of the session.
\<close>

definition set_member :: "nat \<Rightarrow> bool \<Rightarrow> nat list \<Rightarrow> nat list" where
  "set_member k b ks = (if b then List.insert k ks else removeAll k ks)"

definition ask_sink_for :: "nat \<Rightarrow> bool \<Rightarrow> life \<Rightarrow> life" where
  "ask_sink_for k b l =
     (if \<not> lf_channel l then l
      else if lf_kind l = Rtsp_player then l\<lparr>lf_sets := set_member k b (lf_sets l)\<rparr>
      else l\<lparr>lf_asked := lf_asked l @ [(k, b)]\<rparr>)"

definition lock_sink :: "life \<Rightarrow> nat option" where
  "lock_sink l = (case lf_sink l of Some k \<Rightarrow> if k \<in> set (lf_gone l) then None else Some k | None \<Rightarrow> None)"

text \<open>
  \<^verbatim>\<open>start\<close>, of a session that was just accepted. An FLV player looks its sink up first: if there is none it only asks
  to be shut down, and its connection never reads.
\<close>

definition life_start :: "session_kind \<Rightarrow> nat option \<Rightarrow> life" where
  "life_start kind found =
     (let l = life_create kind; started = l\<lparr>lf_tcp := tcp_start (lf_tcp l)\<rparr>
      in case kind of
           Rtmp_player \<Rightarrow> started\<lparr>lf_channel := True\<rparr>
         | Rtsp_player \<Rightarrow> started\<lparr>lf_channel := True\<rparr>
         | Rtmp_publisher \<Rightarrow> started
         | Gb_publisher \<Rightarrow> started
         | Flv_player \<Rightarrow>
             (case found of
                None \<Rightarrow> life_shutdown l
              | Some k \<Rightarrow> ask_sink_for k True (started\<lparr>lf_channel := True, lf_sink := Some k\<rparr>)))"

definition life_safe_shutdown :: "life \<Rightarrow> life" where
  "life_safe_shutdown l =
     (let l1 = (case lock_sink l of Some k \<Rightarrow> ask_sink_for k False l | None \<Rightarrow> l);
          l2 = l1\<lparr>lf_channel := False\<rparr>
      in if lf_conn l2
         then l2\<lparr>lf_conn := False, lf_tcp := (lf_tcp l2)\<lparr>tc_shutdowns := tc_shutdowns (lf_tcp l2) + 1\<rparr>\<rparr>
         else l2)"

text \<open>
  What the handlers of a session do while they run. \<open>Play\<close> is the play command of RTMP, whose sink was found;
  \<open>Describe\<close>, \<open>Join_again\<close> and \<open>Teardown\<close> are the requests \<open>DESCRIBE\<close>, \<open>PLAY\<close> and \<open>TEARDOWN\<close> of RTSP.
  Only the RTMP player tests \<^verbatim>\<open>conn_\<close> before it writes.
\<close>

datatype session_act = Ask_shutdown | Send frame_buffer | Play nat | Describe nat | Join_again | Teardown

fun permitted :: "session_kind \<Rightarrow> session_act \<Rightarrow> bool" where
  "permitted kind (Play k) = (kind = Rtmp_player)"
| "permitted kind (Describe k) = (kind = Rtsp_player)"
| "permitted kind Join_again = (kind = Rtsp_player)"
| "permitted kind Teardown = (kind = Rtsp_player)"
| "permitted kind _ = True"

fun life_act :: "session_act \<Rightarrow> life \<Rightarrow> life outcome" where
  "life_act Ask_shutdown l = Inr (life_shutdown l)"
| "life_act (Send f) l =
     (if lf_conn l then Inr (l\<lparr>lf_frames := lf_frames l @ [f]\<rparr>)
      else if lf_kind l = Rtmp_player then Inr l else Inl Null_deref)"
| "life_act (Play k) l = Inr (ask_sink_for k True (l\<lparr>lf_sink := Some k\<rparr>))"
| "life_act (Describe k) l = Inr (l\<lparr>lf_sink := Some k, lf_tracks := lf_tracks l + 1\<rparr>)"
| "life_act Join_again l = Inr (case lock_sink l of None \<Rightarrow> life_shutdown l | Some k \<Rightarrow> ask_sink_for k True l)"
| "life_act Teardown l =
     Inr (case lock_sink l of None \<Rightarrow> life_shutdown l | Some k \<Rightarrow> (ask_sink_for k False l)\<lparr>lf_sink := None\<rparr>)"

definition life_acts :: "session_act list \<Rightarrow> life \<Rightarrow> life outcome" where
  "life_acts acts l = ofold life_act (filter (permitted (lf_kind l)) acts) l"

subsection \<open>The handlers that run\<close>

text \<open>
  \<open>Read\<close> and \<open>Written\<close> end an operation of the socket; if it calls the session, an error asks for a shutdown, and
  otherwise the session acts on the bytes. An event that is not under way changes nothing. A sink is destroyed
  when none of its requests is under way: \<^verbatim>\<open>rtmp_sink\<close> posts them with its bare \<^verbatim>\<open>this\<close>.
\<close>

datatype life_event =
    Read "error_code option" bytes "session_act list"
  | Written "error_code option" nat
  | Write_frame
  | Conn_shutdown
  | Safe_shutdown
  | Tracks_told "session_act list"
  | Sink_runs nat "session_act list"
  | Sink_writes nat "session_act list"
  | Sink_gone nat

fun drop_first :: "nat \<Rightarrow> (nat \<times> bool) list \<Rightarrow> (bool \<times> (nat \<times> bool) list) option" where
  "drop_first k [] = None"
| "drop_first k ((j, b) # rs) =
     (if j = k then Some (b, rs) else map_option (\<lambda>(c, rs'). (c, (j, b) # rs')) (drop_first k rs))"

fun life_step :: "life_event \<Rightarrow> life \<Rightarrow> (conn_event list \<times> life) outcome" where
  "life_step (Read ec buf acts) l =
     (if tc_reads (lf_tcp l) = 0 then Inr ([], l)
      else let (evs, t) = tcp_on_read ec buf (lf_tcp l)
           in obind (if evs = [] then Inr l
                     else if ec \<noteq> None then Inr (life_shutdown l) else life_acts acts l)
                (\<lambda>l1. Inr (evs, l1\<lparr>lf_tcp := t\<rparr>)))"
| "life_step (Written ec n) l =
     (if tc_outstanding (lf_tcp l) = [] then Inr ([], l)
      else let (evs, t) = tcp_safe_on_write ec n (lf_tcp l)
           in Inr (evs, (if evs \<noteq> [] \<and> ec \<noteq> None then life_shutdown l else l)\<lparr>lf_tcp := t\<rparr>))"
| "life_step Write_frame l =
     (case lf_frames l of
        [] \<Rightarrow> Inr ([], l)
      | f # fs \<Rightarrow> Inr ([], l\<lparr>lf_frames := fs, lf_tcp := tcp_safe_write_frame f (lf_tcp l)\<rparr>))"
| "life_step Conn_shutdown l =
     (if tc_shutdowns (lf_tcp l) = 0 then Inr ([], l)
      else Inr ([], l\<lparr>lf_tcp := (tcp_safe_shutdown (lf_tcp l))\<lparr>tc_shutdowns := tc_shutdowns (lf_tcp l) - 1\<rparr>\<rparr>))"
| "life_step Safe_shutdown l =
     (if lf_posted l = 0 then Inr ([], l)
      else Inr ([], life_safe_shutdown (l\<lparr>lf_posted := lf_posted l - 1\<rparr>)))"
| "life_step (Tracks_told acts) l =
     (if lf_tracks l = 0 then Inr ([], l)
      else obind (life_acts acts l) (\<lambda>l1. Inr ([], l1\<lparr>lf_tracks := lf_tracks l1 - 1\<rparr>)))"
| "life_step (Sink_runs k acts) l =
     (case drop_first k (lf_asked l) of
        None \<Rightarrow> Inr ([], l)
      | Some (b, rs) \<Rightarrow>
          obind (if b then life_acts acts (l\<lparr>lf_asked := rs, lf_sets := set_member k b (lf_sets l)\<rparr>)
                 else Inr (l\<lparr>lf_asked := rs, lf_sets := set_member k b (lf_sets l)\<rparr>)) (\<lambda>l1. Inr ([], l1)))"
| "life_step (Sink_writes k acts) l =
     (if k \<notin> set (lf_sets l) then Inr ([], l) else obind (life_acts acts l) (\<lambda>l1. Inr ([], l1)))"
| "life_step (Sink_gone k) l =
     (if k \<in> fst ` set (lf_asked l) then Inr ([], l)
      else Inr ([], l\<lparr>lf_sets := removeAll k (lf_sets l), lf_gone := k # lf_gone l\<rparr>))"

subsection \<open>Who holds an object\<close>

datatype life_object = Session | Connection | Channel | Context

text \<open>
  The holders of an object: \<open>None\<close> is an executor, an operation of a socket or a sink. The callbacks of a connection
  and the output of a channel hold the session, as do the five callbacks that an RTMP session gives its context; those
  of RTSP have the bare \<^verbatim>\<open>this\<close>. The context of an RTMP player is a bare pointer as well, freed by
  \<^verbatim>\<open>rtmp_server_stop\<close> in the destructor of the session, so it lives as long as the session; nothing frees the one of a
  publisher.
\<close>

definition has_channel :: "session_kind \<Rightarrow> bool" where
  "has_channel kind \<longleftrightarrow> kind \<in> {Rtmp_player, Rtsp_player, Flv_player}"

definition speaks_rtmp :: "session_kind \<Rightarrow> bool" where
  "speaks_rtmp kind \<longleftrightarrow> kind \<in> {Rtmp_player, Rtmp_publisher}"

fun holders :: "life \<Rightarrow> life_object \<Rightarrow> life_object option list" where
  "holders l Session =
     replicate (lf_posted l + lf_tracks l) None
     @ (if tc_read_cb (lf_tcp l) then [Some Connection] else []) @ (if tc_write_cb (lf_tcp l) then [Some Connection] else [])
     @ (if has_channel (lf_kind l) then [Some Channel] else [])
     @ (if speaks_rtmp (lf_kind l) then replicate 5 (Some Context) else [])"
| "holders l Connection =
     (if lf_conn l then [Some Session] else [])
     @ replicate (tc_reads (lf_tcp l) + length (tc_outstanding (lf_tcp l)) + tc_shutdowns (lf_tcp l)) None
     @ map (\<lambda>f. None) (lf_frames l)"
| "holders l Channel =
     (if lf_channel l then [Some Session] else []) @ map (\<lambda>r. None) (lf_asked l) @ map (\<lambda>k. None) (lf_sets l)"
| "holders l Context =
     (case lf_kind l of Rtmp_player \<Rightarrow> [Some Session] | Rtmp_publisher \<Rightarrow> [None]
      | Rtsp_player \<Rightarrow> [Some Session] | _ \<Rightarrow> [])"

text \<open>Reference counting: what only destroyed objects hold is destroyed, so that a cycle survives.\<close>

definition survivors :: "life \<Rightarrow> life_object list \<Rightarrow> life_object list" where
  "survivors l A = filter (\<lambda>x. list_ex (\<lambda>h. case h of None \<Rightarrow> True | Some y \<Rightarrow> y \<in> set A) (holders l x)) A"

definition alive :: "life \<Rightarrow> life_object list" where
  "alive l = (survivors l ^^ 4) [Session, Connection, Channel, Context]"

lemma filter_step_stops:
  assumes f: "\<And>A. f A = filter (P A) A"
  shows "f ((f ^^ length A) A) = (f ^^ length A) A"
proof -
  have shrinks: "f B = B \<or> length (f B) < length B" for B
    using length_filter_less [of _ B "P B"] f [of B] by (metis filter_True)
  have "f ((f ^^ n) A) = (f ^^ n) A \<or> length ((f ^^ n) A) + n \<le> length A" for n
  proof (induction n)
    case (Suc n)
    with shrinks [of "(f ^^ n) A"] show ?case by auto
  qed simp
  from this [of "length A"] f [of "[]"] show ?thesis by auto
qed

lemma survivors_stop: "survivors l (alive l) = alive l"
proof -
  have "survivors l ((survivors l ^^ length os) os) = (survivors l ^^ length os) os" for os
    by (rule filter_step_stops) (rule survivors_def)
  from this [of "[Session, Connection, Channel, Context]"] show ?thesis unfolding alive_def by (simp add: numeral_eq_Suc)
qed

text \<open>Nothing is under way: no handler is posted and the socket has no operation.\<close>

definition quiet :: "life \<Rightarrow> bool" where
  "quiet l \<longleftrightarrow> lf_posted l = 0 \<and> lf_tracks l = 0 \<and> lf_asked l = [] \<and> lf_frames l = []
     \<and> tc_reads (lf_tcp l) = 0 \<and> tc_outstanding (lf_tcp l) = [] \<and> tc_shutdowns (lf_tcp l) = 0"

subsection \<open>The invariant\<close>

text \<open>\<open>joined l k\<close>: the channel is in the set of \<open>k\<close> once the requests under way were run.\<close>

fun asked_for :: "nat \<Rightarrow> (nat \<times> bool) list \<Rightarrow> bool \<Rightarrow> bool" where
  "asked_for k [] m = m"
| "asked_for k ((j, b) # rs) m = asked_for k rs (if j = k then b else m)"

definition joined :: "life \<Rightarrow> nat \<Rightarrow> bool" where
  "joined l k = asked_for k (lf_asked l) (k \<in> set (lf_sets l))"

definition pointers_inv :: "life \<Rightarrow> bool" where
  "pointers_inv l \<longleftrightarrow>
     tc_read_cb (lf_tcp l) = tc_write_cb (lf_tcp l)
     \<and> (tc_read_cb (lf_tcp l) \<longrightarrow> 0 < tc_reads (lf_tcp l))
     \<and> (lf_conn l \<and> lf_posted l = 0 \<longrightarrow> tc_read_cb (lf_tcp l))
     \<and> (lf_conn l \<and> 0 < tc_shutdowns (lf_tcp l) \<longrightarrow> \<not> tc_read_cb (lf_tcp l))
     \<and> (lf_channel l \<longrightarrow> lf_conn l)"

text \<open>An FLV player is in no sink but the one that it looked up, and in that one only with its channel.\<close>

definition flv_inv :: "life \<Rightarrow> bool" where
  "flv_inv l \<longleftrightarrow> lf_kind l = Flv_player \<longrightarrow>
     (\<forall>k. joined l k \<longrightarrow> lf_sink l = Some k \<and> lf_channel l \<and> k \<notin> set (lf_gone l))"

lemma asked_for_append [simp]: "asked_for k (rs @ [(j, b)]) m = (if j = k then b else asked_for k rs m)"
  by (induction rs arbitrary: m) auto

lemma drop_first_asked_for:
  "drop_first j rs = Some (b, rs') \<Longrightarrow> asked_for k rs' (if j = k then b else m) = asked_for k rs m"
  by (induction rs arbitrary: rs' m) (auto split: if_splits)

lemma asked_for_absent: "k \<notin> fst ` set rs \<Longrightarrow> asked_for k rs m = m"
  by (induction rs arbitrary: m) auto

lemma set_member_set [simp]: "(k \<in> set (set_member j b ks)) = (if j = k then b else k \<in> set ks)"
  by (auto simp: set_member_def)

lemma act_keeps:
  "life_act a l = Inr l' \<Longrightarrow> permitted (lf_kind l) a \<Longrightarrow>
   lf_tcp l' = lf_tcp l \<and> lf_kind l' = lf_kind l \<and> lf_conn l' = lf_conn l \<and> lf_channel l' = lf_channel l
   \<and> lf_posted l \<le> lf_posted l'
   \<and> (lf_kind l = Flv_player \<longrightarrow> lf_sink l' = lf_sink l \<and> lf_asked l' = lf_asked l \<and> lf_sets l' = lf_sets l
        \<and> lf_gone l' = lf_gone l)"
  by (cases a) (auto simp: life_shutdown_def ask_sink_for_def split: if_splits option.splits)

lemma acts_keep:
  assumes "life_acts acts l = Inr l'"
  shows "lf_tcp l' = lf_tcp l \<and> lf_kind l' = lf_kind l \<and> lf_conn l' = lf_conn l \<and> lf_channel l' = lf_channel l
   \<and> lf_posted l \<le> lf_posted l'
   \<and> (lf_kind l = Flv_player \<longrightarrow> lf_sink l' = lf_sink l \<and> lf_asked l' = lf_asked l \<and> lf_sets l' = lf_sets l
        \<and> lf_gone l' = lf_gone l)"
  using assms unfolding life_acts_def
  by (rule ofold_invariant [where P = "\<lambda>l'. lf_tcp l' = lf_tcp l \<and> lf_kind l' = lf_kind l
     \<and> lf_conn l' = lf_conn l \<and> lf_channel l' = lf_channel l \<and> lf_posted l \<le> lf_posted l'
     \<and> (lf_kind l = Flv_player \<longrightarrow> lf_sink l' = lf_sink l \<and> lf_asked l' = lf_asked l \<and> lf_sets l' = lf_sets l
        \<and> lf_gone l' = lf_gone l)"])
    (auto dest!: act_keeps)

definition life_inv :: "session_kind \<Rightarrow> life \<Rightarrow> bool" where
  "life_inv kind l \<longleftrightarrow> lf_kind l = kind \<and> pointers_inv l \<and> flv_inv l"

lemma acts_inv: "life_acts acts l = Inr l' \<Longrightarrow> life_inv kind l \<Longrightarrow> life_inv kind l'"
  by (drule acts_keep) (auto simp: life_inv_def pointers_inv_def flv_inv_def joined_def)

lemma start_inv: "life_inv kind (life_start kind found)"
  by (cases kind)
    (auto simp: life_inv_def life_start_def life_create_def life_shutdown_def ask_sink_for_def pointers_inv_def
      flv_inv_def joined_def tcp_start_def tcp_create_def tcp_do_read_def Let_def split: option.splits if_splits)

lemma shutdown_tcp [simp]: "lf_tcp (life_shutdown l) = lf_tcp l"
  by (simp add: life_shutdown_def)

lemma shutdown_inv: "life_inv kind l \<Longrightarrow> life_inv kind (life_shutdown l)"
  by (auto simp: life_inv_def pointers_inv_def flv_inv_def joined_def life_shutdown_def)

lemma tracks_inv: "life_acts acts l = Inr l1 \<Longrightarrow> life_inv kind l \<Longrightarrow> life_inv kind (l1\<lparr>lf_tracks := n\<rparr>)"
  by (drule acts_keep) (auto simp: life_inv_def pointers_inv_def flv_inv_def joined_def)

lemma safe_shutdown_inv:
  assumes "life_inv kind l" "0 < lf_posted l"
  shows "life_inv kind (life_safe_shutdown (l\<lparr>lf_posted := lf_posted l - 1\<rparr>))"
  using assms
  by (auto simp: life_inv_def life_safe_shutdown_def pointers_inv_def flv_inv_def joined_def lock_sink_def
      ask_sink_for_def Let_def split: option.splits if_splits)

lemma tcp_inv:
  assumes "life_inv kind l" "tc_read_cb t = tc_read_cb (lf_tcp l)" "tc_write_cb t = tc_write_cb (lf_tcp l)"
    "tc_read_cb t \<longrightarrow> 0 < tc_reads t" "tc_read_cb t \<longrightarrow> tc_shutdowns t = tc_shutdowns (lf_tcp l)"
  shows "life_inv kind (l\<lparr>lf_tcp := t\<rparr>)"
  using assms by (auto simp: life_inv_def pointers_inv_def flv_inv_def joined_def)

lemma read_inv:
  assumes "tcp_on_read ec buf (lf_tcp l) = (evs, t)" "lf_tcp l1 = lf_tcp l" "life_inv kind l1" "0 < tc_reads (lf_tcp l)"
  shows "life_inv kind (l1\<lparr>lf_tcp := t\<rparr>)"
  by (rule tcp_inv [OF assms(3)])
    (use assms in \<open>auto simp: tcp_on_read_def tcp_do_read_def life_inv_def pointers_inv_def Let_def split: if_splits\<close>)

lemma written_inv:
  assumes "tcp_safe_on_write ec n (lf_tcp l) = (evs, t)" "lf_tcp l1 = lf_tcp l" "life_inv kind l1"
  shows "life_inv kind (l1\<lparr>lf_tcp := t\<rparr>)"
  by (rule tcp_inv [OF assms(3)])
    (use assms in \<open>auto simp: tcp_safe_on_write_def tcp_safe_do_write_def life_inv_def pointers_inv_def Let_def split: if_splits\<close>)

lemma frame_inv:
  assumes "life_inv kind l"
  shows "life_inv kind (l\<lparr>lf_frames := fs, lf_tcp := tcp_safe_write_frame f (lf_tcp l)\<rparr>)"
  using assms
  by (auto simp: tcp_safe_write_frame_def tcp_safe_do_write_def life_inv_def pointers_inv_def flv_inv_def joined_def)

lemma conn_shutdown_inv:
  assumes "life_inv kind l" "0 < tc_shutdowns (lf_tcp l)"
  shows "life_inv kind (l\<lparr>lf_tcp := (tcp_safe_shutdown (lf_tcp l))\<lparr>tc_shutdowns := tc_shutdowns (lf_tcp l) - 1\<rparr>\<rparr>)"
  using assms by (auto simp: tcp_safe_shutdown_def life_inv_def pointers_inv_def flv_inv_def joined_def)

lemma sink_runs_inv:
  assumes "life_inv kind l" "drop_first j (lf_asked l) = Some (b, rs)"
  shows "life_inv kind (l\<lparr>lf_asked := rs, lf_sets := set_member j b (lf_sets l)\<rparr>)"
proof -
  have "joined (l\<lparr>lf_asked := rs, lf_sets := set_member j b (lf_sets l)\<rparr>) k = joined l k" for k
    using drop_first_asked_for [OF assms(2)] by (simp add: joined_def)
  with assms(1) show ?thesis by (auto simp: life_inv_def pointers_inv_def flv_inv_def)
qed

lemma sink_gone_inv:
  assumes "life_inv kind l" "j \<notin> fst ` set (lf_asked l)"
  shows "life_inv kind (l\<lparr>lf_sets := removeAll j (lf_sets l), lf_gone := j # lf_gone l\<rparr>)"
proof -
  have "joined (l\<lparr>lf_sets := removeAll j (lf_sets l), lf_gone := j # lf_gone l\<rparr>) k = (k \<noteq> j \<and> joined l k)" for k
    using asked_for_absent [OF assms(2)] by (cases "k = j") (simp_all add: joined_def)
  with assms(1) show ?thesis unfolding life_inv_def pointers_inv_def flv_inv_def by simp blast
qed

lemma life_step_inv: "life_step e l = Inr (evs, l') \<Longrightarrow> life_inv kind l \<Longrightarrow> life_inv kind l'"
proof (cases e)
  case (Read ec buf acts)
  assume s: "life_step e l = Inr (evs, l')" "life_inv kind l"
  show ?thesis
  proof (cases "tc_reads (lf_tcp l) = 0")
    case False
    obtain evs1 t where t: "tcp_on_read ec buf (lf_tcp l) = (evs1, t)" by fastforce
    with s(1) Read False obtain l1 where l1: "l' = l1\<lparr>lf_tcp := t\<rparr>"
      and or: "l1 = l \<or> l1 = life_shutdown l \<or> life_acts acts l = Inr l1"
      by (auto simp: obind_eq_Inr split: if_splits)
    from or s(2) have "life_inv kind l1" "lf_tcp l1 = lf_tcp l"
      using shutdown_inv [OF s(2)] acts_inv [OF _ s(2)] acts_keep [of acts l l1] by auto
    with read_inv [OF t] False l1 show ?thesis by simp
  qed (use s Read in simp)
next
  case (Written ec n)
  assume s: "life_step e l = Inr (evs, l')" "life_inv kind l"
  obtain evs1 t where t: "tcp_safe_on_write ec n (lf_tcp l) = (evs1, t)" by fastforce
  have "life_inv kind (l\<lparr>lf_tcp := t\<rparr>)" "life_inv kind ((life_shutdown l)\<lparr>lf_tcp := t\<rparr>)"
    using written_inv [OF t _ s(2)] written_inv [OF t _ shutdown_inv [OF s(2)]] by simp_all
  with s Written t show ?thesis by (auto split: if_splits)
next
  case (Sink_runs k acts)
  assume s: "life_step e l = Inr (evs, l')" "life_inv kind l"
  show ?thesis
  proof (cases "drop_first k (lf_asked l)")
    case (Some r)
    then obtain b rs where r: "drop_first k (lf_asked l) = Some (b, rs)" by (cases r) auto
    show ?thesis using s Sink_runs r sink_runs_inv [OF s(2) r]
      by (auto simp: obind_eq_Inr intro: acts_inv split: if_splits)
  qed (use s Sink_runs in simp)
qed (auto simp: obind_eq_Inr intro: frame_inv conn_shutdown_inv [simplified] safe_shutdown_inv [simplified] sink_gone_inv
      acts_inv tracks_inv split: if_splits list.splits)

lemma life_run_inv:
  assumes "run_steps life_step es l = Inr (evs, l')" "life_inv kind l"
  shows "life_inv kind l'"
  using run_steps_invariant [where I = "life_inv kind" and Q = "\<lambda>_. True", OF assms] life_step_inv by blast

subsection \<open>What survives\<close>

lemma rtmp_cycle_survives:
  assumes "speaks_rtmp (lf_kind l)"
  shows "Session \<in> set (alive l) \<and> Context \<in> set (alive l)"
proof -
  have kept: "Session \<in> set (survivors l A) \<and> Context \<in> set (survivors l A)" if "Session \<in> set A" "Context \<in> set A" for A
    using assms that by (auto simp: survivors_def speaks_rtmp_def list_ex_iff split: option.split)
  show ?thesis unfolding alive_def by (simp add: numeral_eq_Suc kept)
qed

lemma channel_keeps_session:
  assumes "has_channel (lf_kind l)" "lf_sets l \<noteq> []"
  shows "Session \<in> set (alive l) \<and> Channel \<in> set (alive l)"
proof -
  have kept: "Session \<in> set (survivors l A) \<and> Channel \<in> set (survivors l A)" if "Session \<in> set A" "Channel \<in> set A" for A
    using assms that by (cases "lf_sets l") (auto simp: survivors_def)
  show ?thesis unfolding alive_def by (simp add: numeral_eq_Suc kept)
qed

lemma quiet_session_let_go:
  assumes "pointers_inv l" "quiet l"
  shows "\<not> tc_read_cb (lf_tcp l) \<and> \<not> tc_write_cb (lf_tcp l) \<and> \<not> lf_conn l \<and> \<not> lf_channel l"
  using assms by (auto simp: pointers_inv_def quiet_def)

lemma quiet_session_freed:
  assumes "pointers_inv l" "quiet l" "\<not> speaks_rtmp (lf_kind l)" "lf_sets l = []"
  shows "alive l = []"
  using quiet_session_let_go [OF assms(1,2)] assms(2-4)
  by (cases "lf_kind l") (simp_all add: alive_def survivors_def numeral_eq_Suc quiet_def speaks_rtmp_def
      has_channel_def)

text \<open>
  C10. How long sessions live, after any handlers in any order. An RTMP session, publisher or player, is never
  destroyed: its context holds the session in its callbacks, and only the destructor of the session stops the context. A
  session of RTSP, FLV or GB28181 is destroyed with its connection, its channel and its context once nothing of it is
  under way, unless a sink still has its channel, which then keeps it; an FLV player has left its sink.
\<close>

theorem session_lifetime:
  assumes "run_steps life_step es (life_start kind found) = Inr (evs, l)"
  shows "(speaks_rtmp kind \<longrightarrow> Session \<in> set (alive l) \<and> Context \<in> set (alive l))
   \<and> (quiet l \<and> \<not> speaks_rtmp kind \<and> lf_sets l = [] \<longrightarrow> alive l = [])
   \<and> (has_channel kind \<and> lf_sets l \<noteq> [] \<longrightarrow> Session \<in> set (alive l))
   \<and> (quiet l \<and> kind = Flv_player \<longrightarrow> lf_sets l = [])"
proof -
  from life_run_inv [OF assms start_inv] have inv: "lf_kind l = kind" "pointers_inv l" "flv_inv l"
    by (simp_all add: life_inv_def)
  have "lf_sets l = []" if q: "quiet l" and "kind = Flv_player"
  proof -
    from that inv have "\<not> joined l k" for k
      using quiet_session_let_go [OF inv(2) q] by (auto simp: flv_inv_def)
    with q show ?thesis by (cases "lf_sets l") (auto simp: joined_def quiet_def)
  qed
  then show ?thesis using inv rtmp_cycle_survives quiet_session_freed channel_keeps_session by auto
qed

definition demo_leave :: "life_event list" where
  "demo_leave = [Read (Some Ec_eof) [] [], Safe_shutdown, Conn_shutdown, Sink_runs 1 [], Read (Some Ec_canceled) [] [], Conn_shutdown]"

lemma demo_leave_runs:
  "\<exists>evs l. run_steps life_step (Sink_runs 1 [] # demo_leave) (life_start Flv_player (Some 1)) = Inr (evs, l) \<and> quiet l"
  "\<exists>evs l. run_steps life_step (Read None [3] [Play 1] # Sink_runs 1 [] # demo_leave) (life_start Rtmp_player None) = Inr (evs, l)
     \<and> quiet l \<and> lf_sets l = []"
  by (simp_all add: demo_leave_def life_start_def life_create_def tcp_start_def tcp_create_def tcp_do_read_def
      ask_sink_for_def tcp_on_read_def life_acts_def life_shutdown_def life_safe_shutdown_def lock_sink_def
      set_member_def tcp_safe_shutdown_def quiet_def Let_def)

theorem session_lifetime_witness:
  "(\<exists>evs l. run_steps life_step (Sink_runs 1 [] # demo_leave) (life_start Flv_player (Some 1)) = Inr (evs, l) \<and> alive l = [])
   \<and> (\<exists>evs l. run_steps life_step (Read None [3] [Play 1] # Sink_runs 1 [] # demo_leave) (life_start Rtmp_player None)
        = Inr (evs, l) \<and> quiet l \<and> lf_sets l = [] \<and> Session \<in> set (alive l))"
proof -
  obtain evs l where f: "run_steps life_step (Sink_runs 1 [] # demo_leave) (life_start Flv_player (Some 1)) = Inr (evs, l)"
    "quiet l" using demo_leave_runs(1) by blast
  obtain evs' l' where r: "run_steps life_step (Read None [3] [Play 1] # Sink_runs 1 [] # demo_leave)
      (life_start Rtmp_player None) = Inr (evs', l')" "quiet l'" "lf_sets l' = []" using demo_leave_runs(2) by blast
  have "alive l = []" using session_lifetime [OF f(1)] f(2) by (simp add: speaks_rtmp_def)
  moreover have "Session \<in> set (alive l')" using session_lifetime [OF r(1)] by (simp add: speaks_rtmp_def)
  ultimately show ?thesis using f(1) r by blast
qed


text \<open>
  A player of RTSP that describes a second stream after it played a first leaves only the second: the set of the first
  keeps the channel, and with it the session (\<open>channel_keeps_session\<close>).
\<close>

lemma second_stream_keeps_session:
  "\<exists>evs l. run_steps life_step
     [Read None [] [Describe k], Tracks_told [], Read None [] [Join_again], Read None [] [Describe j], Tracks_told [],
      Read (Some e) [] [], Safe_shutdown, Conn_shutdown, Read (Some e) [] [], Conn_shutdown]
     (life_start Rtsp_player None) = Inr (evs, l) \<and> quiet l \<and> lf_kind l = Rtsp_player
   \<and> lf_sets l = removeAll j [k]"
  by (simp add: life_start_def life_create_def tcp_start_def tcp_create_def tcp_do_read_def
      ask_sink_for_def tcp_on_read_def life_acts_def life_shutdown_def life_safe_shutdown_def lock_sink_def
      set_member_def tcp_safe_shutdown_def quiet_def Let_def)

end
