(* ===== verification/Spec2Isabelle.thy ===== *)
theory Spec2Isabelle
  imports Rtmp_Chunk_Write Rtmp_Server_Proofs Rtmp_Decoder_Proofs Rtmp_Encoder_Proofs Rtmp_Sink
    Rtsp_Encoder_Proofs Rtsp_Sink Rtmp_Source Tcp_Connection Execution Rtmp_Sessions Rtsp_Player_Life Http_Session
    Relay Stream_Types Gb28181 Host_Info Startup Http_Names Session_Life
begin

text \<open>
  A verification library for a live streaming server, written in C++, that takes streams over RTMP
  and plays them over RTMP, RTSP and HTTP-FLV.

  \<^bold>\<open>The program.\<close> \<^verbatim>\<open>src/main.cc\<close> starts four servers (\<^verbatim>\<open>tcp_server.h\<close>), one for each kind of session,
  on a pool of executors (\<^verbatim>\<open>execution.cc\<close>). An RTMP publisher (\<^verbatim>\<open>rtmp_publish_session.cc\<close>) hands the bytes
  of its connection (\<^verbatim>\<open>tcp_connection.cc\<close>) to a server context (\<^verbatim>\<open>rtmp_server_context.cc\<close>), which answers
  the protocol and calls the session back with messages; the session's source (\<^verbatim>\<open>rtmp_source.cc\<close>) splits
  them (\<^verbatim>\<open>rtmp_demuxer.cc\<close>), decodes them to elementary streams (\<^verbatim>\<open>rtmp_*_decoder.cc\<close>) and writes these to
  two sinks, which encode them again, for RTMP (\<^verbatim>\<open>rtmp_sink.cc\<close>, \<^verbatim>\<open>rtmp_*_encoder.cc\<close>) and for RTSP
  (\<^verbatim>\<open>rtsp_sink.cc\<close>, \<^verbatim>\<open>rtsp_*_encoder.cc\<close>). A sink is found by name in a registry (\<^verbatim>\<open>sink.cpp\<close>) and writes to
  the channels (\<^verbatim>\<open>channel.cc\<close>) of the sessions that joined it: RTMP players (\<^verbatim>\<open>rtmp_forward_session.cc\<close>),
  RTSP players (\<^verbatim>\<open>rtsp_forward_session.cc\<close>, on \<^verbatim>\<open>rtsp_server_context.cc\<close> and \<^verbatim>\<open>rtsp_parser.h\<close>, on the
  modified parser \<^verbatim>\<open>third/http_parse/http_parser.c\<close>) and FLV players (\<^verbatim>\<open>http_session.cc\<close>,
  \<^verbatim>\<open>flv_forward_session.cc\<close>).

  \<^bold>\<open>Conventions.\<close> Whatever ends the C++ process or is undefined there (a failed assertion, a null pointer, an
  empty \<^verbatim>\<open>std::function\<close>, an access outside a buffer, a loop that does not end, a division by zero) is the
  left side of \<open>'a outcome\<close> (\<^theory_text>\<open>Prelude\<close>); what the C++ code reports as a result is a value on the right. Bytes are
  \<open>8 word\<close>s, counters have the width of the C++ type, and objects are records whose fields carry a prefix. A pointer that can be null
  is an option. Operations that are posted to an executor run one after the other, so that an execution is
  a list of events. What a session writes to its connection and asks of sinks is recorded in its state.

  \<^bold>\<open>Theories, and the code that they model.\<close>
  \<^item> \<^theory_text>\<open>Prelude\<close>, \<^theory_text>\<open>Text_Util\<close>: outcomes, bytes, and what the code uses of strings (\<^verbatim>\<open>atoi\<close>, \<^verbatim>\<open>sscanf\<close>,
    \<^verbatim>\<open>snprintf\<close>, \<^verbatim>\<open>boost::split\<close>).
  \<^item> \<^theory_text>\<open>Frame_Buffer\<close>: \<^verbatim>\<open>frame_buffer.h\<close>; \<^theory_text>\<open>Rtmp_Codec\<close>: \<^verbatim>\<open>rtmp_codec.cc\<close>; \<^theory_text>\<open>Registry\<close>: \<^verbatim>\<open>channel.cc\<close>, \<^verbatim>\<open>sink.cpp\<close>.
  \<^item> \<^theory_text>\<open>Rtmp_Chunk\<close>, \<^theory_text>\<open>Rtmp_Lib\<close>, \<^theory_text>\<open>Rtmp_Server_Context\<close>: \<^verbatim>\<open>rtmp_server_context.cc\<close>, with the lemmas
    in \<^theory_text>\<open>Rtmp_Chunk_Write\<close> and \<^theory_text>\<open>Rtmp_Server_Proofs\<close>: chunking and header compression, the handshake in any cutting of
    the input, the acknowledgement window, the answers, and the ways in which a peer ends the process.
  \<^item> \<^theory_text>\<open>Frame_Filter\<close>: the contract of decoders and encoders; \<^theory_text>\<open>Rtmp_Decoders\<close>, \<^theory_text>\<open>Rtmp_Encoders\<close>,
    \<^theory_text>\<open>Rtsp_Encoders\<close> and their \<open>_Proofs\<close>: the codecs' own code (packets, start codes, parameter sets, descriptions).
  \<^item> \<^theory_text>\<open>Media_Sink\<close>: the contract of sinks; \<^theory_text>\<open>Rtmp_Sink\<close>, \<^theory_text>\<open>Rtsp_Sink\<close>: the two sinks and what a session sees of a stream.
  \<^item> \<^theory_text>\<open>Rtmp_Source\<close>: \<^verbatim>\<open>rtmp_demuxer.cc\<close>, \<^verbatim>\<open>rtmp_source.cc\<close>; \<^theory_text>\<open>Rtmp_Sessions\<close>: the two RTMP sessions.
  \<^item> \<^theory_text>\<open>Relay\<close>: a picture on its way from the publisher's message through demuxer, decoder, sinks and encoders to the
    file of a viewer over HTTP-FLV, and how a stream begins: metadata, configuration, first key picture.
    \<^theory_text>\<open>Stream_Types\<close>: everything that can happen to a source from its creation on, and the type of what its sessions
    are given.
  \<^item> \<^theory_text>\<open>Tcp_Connection\<close>: the connection as a step relation, in which the environment completes reads and writes:
    frames leave in order, and all of them leave; \<^theory_text>\<open>Session_Life\<close>: the shared pointers between a session, its connection, its
    channel and its context, from \<^verbatim>\<open>start\<close> to the destructor: which sessions are ever destroyed;
    \<^theory_text>\<open>Execution\<close>: \<^verbatim>\<open>execution.cc\<close>, \<^verbatim>\<open>tcp_server.h\<close>, \<^verbatim>\<open>timer_task_manger.cc\<close>.
  \<^item> \<^theory_text>\<open>Http_Tables\<close>, \<^theory_text>\<open>Http_Url\<close>, \<^theory_text>\<open>Http_Parser\<close>: \<^verbatim>\<open>http_parser.c\<close>, one definition for each case of its switch, and
    \<^theory_text>\<open>Http_Names\<close> its tables of names;
    \<^theory_text>\<open>Http_Parser_Safe\<close> shows that it never fails an assertion, reads outside its input or loops; \<^theory_text>\<open>Http_Url_Proofs\<close> that
    URL fields lie in the URL and are the right ones; \<^theory_text>\<open>Http_Run\<close>, \<^theory_text>\<open>Http_Header_Run\<close> run it on the pieces of a request and
    show that its fast path over a header name does what the slow path does.
  \<^item> \<^theory_text>\<open>Rtsp_Parser\<close>, \<^theory_text>\<open>Rtsp_Request\<close>: \<^verbatim>\<open>rtsp_parser.h\<close>, and the round trip of requests; \<^theory_text>\<open>Rtsp_Cut\<close>: a request
    that is cut at any byte makes the parser wait; \<^theory_text>\<open>Rtsp_Server_Context\<close>, \<^theory_text>\<open>Rtsp_Server_Proofs\<close>: \<^verbatim>\<open>rtsp_server_context.cc\<close>,
    its survival and its refinement of a server that sees messages, however the stream is cut into frames.
  \<^item> \<^theory_text>\<open>Rtsp_Forward_Session\<close>, \<^theory_text>\<open>Rtsp_Forward_Proofs\<close>, \<^theory_text>\<open>Rtsp_Player_Life\<close>: the RTSP player: what stops it, how it joins a
    stream, and its packets.
  \<^item> \<^theory_text>\<open>Flv_Forward_Session\<close>, \<^theory_text>\<open>Http_Session\<close>: the FLV player and the HTTP front end, from the request to the file.
  \<^item> \<^theory_text>\<open>Gb28181\<close>: the unfinished ingest of GB28181 streams, which nothing creates yet; \<^theory_text>\<open>Host_Info\<close>: \<^verbatim>\<open>timestamp.cc\<close>,
    \<^verbatim>\<open>socket.cc\<close>; \<^theory_text>\<open>Startup\<close>: the life of the process (\<^verbatim>\<open>main.cc\<close>) with \<^verbatim>\<open>log.cc\<close>, \<^verbatim>\<open>error.cc\<close>, \<^verbatim>\<open>scoped_exit.h\<close>
    and \<^verbatim>\<open>singleton.h\<close>: what is served, and what is left when \<^verbatim>\<open>main\<close> returns.

  \<^bold>\<open>Interfaces.\<close> The locales \<open>byte_buffer\<close> (frames), \<open>name_table\<close> and \<open>name_registry\<close> (the registry), \<open>frame_filter\<close>,
  \<open>frame_encoder\<close> and \<open>config_first_encoder\<close> (codecs), \<open>media_sink\<close> (sinks), \<open>recording_owner\<close> (owners of an RTMP
  context) and \<open>rtsp_owner\<close> (owners of an RTSP context) state the contracts; each is interpreted
  on the definitions that model the code, in the theory of the component that provides them.

  \<^bold>\<open>Bounds and fuel.\<close> \<^verbatim>\<open>http_parser.c\<close> jumps back with \<^verbatim>\<open>goto reexecute\<close>; \<open>reexecute\<close> has fuel 5, and each
  such jump goes down a rank that is at most 4 (\<open>Http_Parser_Safe\<close>). Its main loop has the number of bytes left as
  fuel. All other loops are total functions with a measure. Input sizes are bounded by \<open>2 ^ 31\<close> where the code keeps
  a length in an \<^verbatim>\<open>int\<close>.

  \<^bold>\<open>Parameters.\<close> Code that is not in the repository appears as records of functions: librtmp's chunk reader, command
  reader and message writers (\<open>rtmp_lib\<close>, \<open>amf_lib\<close>), libflv's codec and tag functions (\<open>source_libs\<close>, \<open>flv_lib\<close>), librtp's
  packers, RTCP and queue (\<open>rtp_lib\<close>, \<open>rtcp_lib\<close>, \<open>rtp_queue_lib\<close>). Clocks, addresses and the completions of asynchronous operations are inputs.

  \<^bold>\<open>Not modelled.\<close> Threads: the code serialises an object on its executor, and where it does not (the channels of the
  RTSP sink) the model takes the operations as atomic. The text of log lines, and the declarations, includes and
  accessors that have no behaviour of their own. The move assignment of
  \<^verbatim>\<open>scoped_exit.h\<close>, which nothing instantiates.
\<close>

end
